(* ===== verification/Cpp_Prelude.thy ===== *)
theory Cpp_Prelude
  imports Main "HOL-Library.Sublist" "HOL-Library.Char_ord" "HOL-Library.List_Lexorder"
begin

text \<open>
  What the components share: the C++ string operations the sources call
  (\<open>find\<close>, \<open>substr\<close>, \<open>starts_with\<close>, \<open>views::split\<close>), the exceptions they can raise,
  \<open>size_t\<close> arithmetic where it wraps, \<open>std::map\<close> as a sorted association list, the
  interfaces of a codec, of a keyed store and of a system with an invariant, computations that
  return, throw or do neither, and the generic lemmas the component proofs rest on.

  A \<open>std::string\<close> is a \<open>string\<close>, a list of bytes. \<open>find\<close> returns \<open>None\<close> for \<open>npos\<close>;
  where the code computes with \<open>npos\<close> without testing for it, \<open>pos_of\<close> gives the number
  and the addition is \<open>add_sz\<close>, which wraps at 2^64.
\<close>

named_theorems find_simps \<open>rewriting of the search functions on concatenations\<close>

section \<open>Exceptions\<close>

datatype cpp_error =
    Out_of_range
  | Invalid_argument
  | Length_error
  | Bad_optional_access
  | Bad_expected_access
  | Undefined_behaviour
  | Invalid_pointer

type_synonym 'a result = "cpp_error + 'a"

text \<open>The values of \<open>errno\<close> the sources tell apart.\<close>

datatype errno = EAGAIN | EWOULDBLOCK | EINTR | ENOTCONN | E_other nat

section \<open>size_t\<close>

definition size_mod :: nat where
  "size_mod = 2 ^ 64"

definition npos :: nat where
  "npos = size_mod - 1"

definition add_sz :: "nat \<Rightarrow> nat \<Rightarrow> nat" where
  "add_sz a b = (a + b) mod size_mod"

definition pos_of :: "nat option \<Rightarrow> nat" where
  "pos_of p = (case p of None \<Rightarrow> npos | Some i \<Rightarrow> i)"

lemma size_mod_pos [simp]: "0 < size_mod"
  by (simp add: size_mod_def)

lemma add_sz_small: "a + b < size_mod \<Longrightarrow> add_sz a b = a + b"
  by (simp add: add_sz_def)

lemma add_sz_npos: "add_sz npos (Suc k) = k mod size_mod"
proof -
  have "npos + Suc k = k + size_mod"
    by (simp add: npos_def size_mod_def)
  then show ?thesis by (simp only: add_sz_def mod_add_self2)
qed

lemma pos_of_simps [simp]: "pos_of None = npos" "pos_of (Some i) = i"
  by (simp_all add: pos_of_def)

section \<open>Characters\<close>

abbreviation CR :: char where "CR \<equiv> CHR 0x0D"

abbreviation LF :: char where "LF \<equiv> CHR 0x0A"

abbreviation crlf :: string where "crlf \<equiv> [CR, LF]"

abbreviation byte_of :: "char \<Rightarrow> nat" where
  "byte_of c \<equiv> of_char c"

lemma byte_of_less [simp]: "byte_of c < 256"
  by simp

section \<open>Searching\<close>

fun index_of :: "('a \<Rightarrow> bool) \<Rightarrow> 'a list \<Rightarrow> nat option" where
  "index_of P [] = None"
| "index_of P (x # xs) = (if P x then Some 0 else map_option Suc (index_of P xs))"

definition find_char :: "char \<Rightarrow> string \<Rightarrow> nat \<Rightarrow> nat option" where
  "find_char c s pos = map_option (\<lambda>k. pos + k) (index_of (\<lambda>x. x = c) (drop pos s))"

fun find_sub :: "string \<Rightarrow> string \<Rightarrow> nat option" where
  "find_sub p [] = (if p = [] then Some 0 else None)"
| "find_sub p (c # cs) =
     (if prefix p (c # cs) then Some 0 else map_option Suc (find_sub p cs))"

definition find_str :: "string \<Rightarrow> string \<Rightarrow> nat \<Rightarrow> nat option" where
  "find_str p s pos = map_option (\<lambda>k. pos + k) (find_sub p (drop pos s))"

definition find_last :: "char \<Rightarrow> string \<Rightarrow> nat option" where
  "find_last c s = map_option (\<lambda>k. length s - k - 1) (index_of (\<lambda>x. x = c) (rev s))"

definition find_first_of :: "char list \<Rightarrow> string \<Rightarrow> nat option" where
  "find_first_of cs s = index_of (\<lambda>x. x \<in> set cs) s"

definition find_first_not_of :: "char list \<Rightarrow> string \<Rightarrow> nat option" where
  "find_first_not_of cs s = index_of (\<lambda>x. x \<notin> set cs) s"

definition find_last_not_of :: "char list \<Rightarrow> string \<Rightarrow> nat option" where
  "find_last_not_of cs s =
     map_option (\<lambda>k. length s - k - 1) (index_of (\<lambda>x. x \<notin> set cs) (rev s))"

text \<open>
  \<open>substr\<close> throws when the start is past the end. \<open>sub\<close> is the same read for a start
  that is within the string because it came from a successful \<open>find\<close>.
\<close>

definition sub :: "string \<Rightarrow> nat \<Rightarrow> nat \<Rightarrow> string" where
  "sub s pos n = take n (drop pos s)"

definition substr :: "string \<Rightarrow> nat \<Rightarrow> nat \<Rightarrow> string result" where
  "substr s pos n = (if length s < pos then Inl Out_of_range else Inr (sub s pos n))"

fun split_on :: "char \<Rightarrow> string \<Rightarrow> string list" where
  "split_on c [] = [[]]"
| "split_on c (x # xs) =
     (if x = c then [] # split_on c xs
      else (case split_on c xs of [] \<Rightarrow> [[x]] | w # ws \<Rightarrow> (x # w) # ws))"

definition starts_with :: "string \<Rightarrow> string \<Rightarrow> bool" where
  "starts_with s p = prefix p s"

definition ends_with :: "string \<Rightarrow> string \<Rightarrow> bool" where
  "ends_with s p = suffix p s"

subsection \<open>What find returns\<close>

lemma index_of_Some:
  "index_of P xs = Some i \<longleftrightarrow> i < length xs \<and> P (xs ! i) \<and> (\<forall>j < i. \<not> P (xs ! j))"
proof (induction xs arbitrary: i)
  case (Cons x xs)
  show ?case
    by (cases i) (auto simp: Cons.IH nth_Cons' All_less_Suc2)
qed simp

lemma index_of_None: "index_of P xs = None \<longleftrightarrow> (\<forall>x \<in> set xs. \<not> P x)"
  by (induction xs) auto

lemma index_of_append [find_simps]:
  "(\<And>x. x \<in> set xs \<Longrightarrow> \<not> P x) \<Longrightarrow> P y \<Longrightarrow> index_of P (xs @ y # ys) = Some (length xs)"
  by (induction xs) auto

lemma index_of_length: "index_of P xs = Some i \<Longrightarrow> i < length xs"
  by (simp add: index_of_Some)

lemma find_char_Some:
  "find_char c s pos = Some i \<longleftrightarrow>
     pos \<le> i \<and> i < length s \<and> s ! i = c \<and> (\<forall>j. pos \<le> j \<and> j < i \<longrightarrow> s ! j \<noteq> c)"
  (is "?L \<longleftrightarrow> ?R")
proof
  assume ?L
  then obtain k where k: "i = pos + k" "k < length (drop pos s)" "drop pos s ! k = c"
      "\<forall>j < k. drop pos s ! j \<noteq> c"
    by (auto simp: find_char_def index_of_Some)
  have "s ! j \<noteq> c" if "pos \<le> j" "j < i" for j
    using k(4) [rule_format, of "j - pos"] that k(1,2) by simp
  with k show ?R by auto
next
  assume ?R
  then show ?L
    by (auto simp: find_char_def index_of_Some intro!: exI [of _ "i - pos"])
qed

lemma find_char_None: "find_char c s pos = None \<longleftrightarrow> c \<notin> set (drop pos s)"
  by (auto simp: find_char_def index_of_None)

lemma find_char_length: "find_char c s pos = Some i \<Longrightarrow> pos \<le> i \<and> i < length s"
  by (simp add: find_char_Some)

lemma find_char_append [find_simps]:
  "c \<notin> set xs \<Longrightarrow> find_char c (xs @ c # ys) 0 = Some (length xs)"
  by (auto simp: find_char_def intro!: index_of_append)

lemma find_char_at [find_simps]:
  "c \<notin> set xs \<Longrightarrow> pos = length ws \<Longrightarrow>
   find_char c (ws @ xs @ c # ys) pos = Some (length ws + length xs)"
  by (auto simp: find_char_def intro!: index_of_append)

lemma find_sub_Some:
  "find_sub p s = Some i \<Longrightarrow>
     i + length p \<le> length s \<and> prefix p (drop i s) \<and> (\<forall>j < i. \<not> prefix p (drop j s))"
proof (induction p s arbitrary: i rule: find_sub.induct)
  case (2 p c cs)
  show ?case
  proof (cases "prefix p (c # cs)")
    case True
    with 2 show ?thesis by (auto dest: prefix_length_le)
  next
    case False
    with 2 obtain k where k: "i = Suc k" "find_sub p cs = Some k" by auto
    with 2 False have "k + length p \<le> length cs" "prefix p (drop k cs)"
        "\<forall>j < k. \<not> prefix p (drop j cs)" by auto
    with k False show ?thesis by (auto simp: less_Suc_eq_0_disj)
  qed
qed (auto split: if_splits)

lemma find_sub_None: "find_sub p s = None \<Longrightarrow> \<not> prefix p (drop j s)"
proof (induction p s arbitrary: j rule: find_sub.induct)
  case (1 p)
  then show ?case by (auto split: if_splits)
next
  case (2 p c cs)
  then show ?case by (cases j) (auto split: if_splits)
qed

lemma find_sub_split:
  "find_sub p s = Some i \<Longrightarrow> s = take i s @ p @ drop (i + length p) s"
proof -
  assume "find_sub p s = Some i"
  then have "prefix p (drop i s)" by (blast dest: find_sub_Some)
  then obtain zs where zs: "drop i s = p @ zs" by (auto simp: prefix_def)
  then have "drop (length p) (drop i s) = zs" by simp
  then have "drop (i + length p) s = zs" by (simp add: add.commute)
  with zs show ?thesis by (metis append_take_drop_id)
qed

text \<open>A separator whose first byte does not occur before it is found where it stands.\<close>

lemma find_sub_append [find_simps]:
  "a \<notin> set xs \<Longrightarrow> find_sub (a # p) (xs @ a # p @ ys) = Some (length xs)"
proof (induction xs)
  case Nil
  then show ?case by simp
qed auto

lemma find_sub_absent: "a \<notin> set s \<Longrightarrow> find_sub (a # p) s = None"
  by (induction s) auto

lemma find_str_append [find_simps]:
  "a \<notin> set xs \<Longrightarrow> pos = length ws \<Longrightarrow>
   find_str (a # p) (ws @ xs @ a # p @ ys) pos = Some (length ws + length xs)"
  by (simp add: find_str_def find_sub_append)

lemma find_str_bounds:
  "find_str p s pos = Some i \<Longrightarrow> pos \<le> length s \<Longrightarrow> pos \<le> i \<and> i + length p \<le> length s"
  by (auto simp: find_str_def dest!: find_sub_Some)

subsection \<open>Slices\<close>

lemma substr_ok [simp]: "pos \<le> length s \<Longrightarrow> substr s pos n = Inr (sub s pos n)"
  by (simp add: substr_def)

lemma sub_prefix [simp]: "n = length xs \<Longrightarrow> sub (xs @ ys) 0 n = xs"
  by (simp add: sub_def)

lemma sub_middle: "pos = length ws \<Longrightarrow> n = length xs \<Longrightarrow> sub (ws @ xs @ ys) pos n = xs"
  by (simp add: sub_def)

lemma length_sub_le: "length (sub s pos n) \<le> n"
  by (simp add: sub_def)

subsection \<open>Splitting\<close>

lemma split_on_nonempty [simp]: "split_on c s \<noteq> []"
  by (induction s) (auto split: list.splits)

lemma split_on_absent: "c \<notin> set s \<Longrightarrow> split_on c s = [s]"
  by (induction s) auto

lemma split_on_append: "c \<notin> set xs \<Longrightarrow> split_on c (xs @ c # ys) = xs # split_on c ys"
  by (induction xs) auto

lemma split_on_pieces: "w \<in> set (split_on c s) \<Longrightarrow> c \<notin> set w"
proof (induction s arbitrary: w)
  case (Cons x xs)
  then show ?case
    by (cases "split_on c xs") (auto split: if_splits)
qed simp

section \<open>Codecs\<close>

text \<open>
  The contract of an encoder and its decoder on the values that can be encoded: the decoder
  gives back what was encoded. Base64, percent-encoding, hexadecimal sizes, WebSocket frames
  and chunked bodies are such pairs.
\<close>

locale codec =
  fixes enc :: "'a \<Rightarrow> 'b" and dec :: "'b \<Rightarrow> 'a option" and encodable :: "'a \<Rightarrow> bool"
  assumes dec_enc: "encodable x \<Longrightarrow> dec (enc x) = Some x"
begin

lemma enc_inject: "encodable x \<Longrightarrow> encodable y \<Longrightarrow> enc x = enc y \<longleftrightarrow> x = y"
  using dec_enc by (metis option.inject)

lemma enc_inj_on: "inj_on enc {x. encodable x}"
  by (auto intro!: inj_onI simp: enc_inject)

lemma dec_Some_unique: "encodable x \<Longrightarrow> dec (enc x) = Some y \<longleftrightarrow> y = x"
  using dec_enc by auto

end

section \<open>Keyed stores\<close>

text \<open>
  The interface every map of the program offers its clients: \<open>lookup\<close> is \<open>find\<close>,
  \<open>assign\<close> is \<open>m[k] = v\<close>, \<open>ok\<close> the invariant the representation keeps. The response
  headers, the path and query parameters of a request and the command line arguments
  are such stores.
\<close>

locale keyed_store =
  fixes lookup :: "'m \<Rightarrow> 'k \<Rightarrow> 'v option"
    and assign :: "'k \<Rightarrow> 'v \<Rightarrow> 'm \<Rightarrow> 'm"
    and ok :: "'m \<Rightarrow> bool"
  assumes lookup_assign: "ok m \<Longrightarrow> lookup (assign k v m) k' = (if k' = k then Some v else lookup m k')"
    and ok_assign: "ok m \<Longrightarrow> ok (assign k v m)"
begin

text \<open>A run of assignments keeps the invariant, and each key ends with its last value.\<close>

lemma ok_fold: "ok m \<Longrightarrow> ok (fold (\<lambda>(k, v). assign k v) kvs m)"
  by (induction kvs arbitrary: m) (auto simp: ok_assign)

lemma lookup_fold:
  "ok m \<Longrightarrow> lookup (fold (\<lambda>(k, v). assign k v) kvs m) k' =
     (case map_of (rev kvs) k' of Some v \<Rightarrow> Some v | None \<Rightarrow> lookup m k')"
  by (induction kvs arbitrary: m)
    (auto simp: ok_assign lookup_assign map_add_def split: option.splits)

lemma assign_twice: "ok m \<Longrightarrow> lookup (assign k v (assign k u m)) = lookup (assign k v m)"
  by (rule ext) (simp add: lookup_assign ok_assign)

lemma assign_commute:
  "ok m \<Longrightarrow> k \<noteq> k' \<Longrightarrow> lookup (assign k v (assign k' v' m)) = lookup (assign k' v' (assign k v m))"
  by (rule ext) (simp add: lookup_assign ok_assign)

end

section \<open>std::map\<close>

text \<open>
  \<open>std::map\<close> iterates in key order, and the order of the response headers on the wire
  is that order: an association list kept sorted by key. Strings compare byte by byte.
\<close>

fun map_set :: "'k::linorder \<Rightarrow> 'v \<Rightarrow> ('k \<times> 'v) list \<Rightarrow> ('k \<times> 'v) list" where
  "map_set k v [] = [(k, v)]"
| "map_set k v ((k', v') # kvs) =
     (if k = k' then (k, v) # kvs
      else if k < k' then (k, v) # (k', v') # kvs
      else (k', v') # map_set k v kvs)"

definition map_ok :: "('k::linorder \<times> 'v) list \<Rightarrow> bool" where
  "map_ok kvs \<longleftrightarrow> sorted_wrt (<) (map fst kvs)"

lemma map_of_map_set: "map_of (map_set k v kvs) k' = (if k' = k then Some v else map_of kvs k')"
  by (induction k v kvs rule: map_set.induct) auto

lemma fst_set_map_set: "fst ` set (map_set k v kvs) = insert k (fst ` set kvs)"
  by (induction k v kvs rule: map_set.induct) auto

lemma map_ok_map_set: "map_ok kvs \<Longrightarrow> map_ok (map_set k v kvs)"
proof (induction k v kvs rule: map_set.induct)
  case (2 k v k' v' kvs)
  have "\<forall>x \<in> fst ` set (map_set k v kvs). k' < x" if "k' < k"
    using 2 that by (auto simp: map_ok_def fst_set_map_set)
  with 2 show ?case by (auto simp: map_ok_def)
qed (simp add: map_ok_def)

lemma map_ok_distinct: "map_ok kvs \<Longrightarrow> distinct (map fst kvs)"
  unfolding map_ok_def by (induction kvs) auto

lemma map_ok_Nil [simp]: "map_ok []"
  by (simp add: map_ok_def)

interpretation std_map: keyed_store map_of map_set map_ok
  by unfold_locales (simp_all add: map_of_map_set map_ok_map_set)

text \<open>\<open>std::unordered_map\<close> is a map: nothing in the sources reads its order but one printer.\<close>

interpretation unordered_map: keyed_store "\<lambda>m. m" "\<lambda>k v m. m(k \<mapsto> v)" "\<lambda>_. True"
  by unfold_locales simp_all

lemma map_of_eq_sorted:
  assumes "map_ok xs" "map_ok ys" "map_of xs = map_of ys"
  shows "xs = ys"
proof -
  have d: "distinct (map fst xs)" "distinct (map fst ys)"
    using assms(1,2) by (auto dest: map_ok_distinct)
  have same: "set xs = set ys"
    using d assms(3) by (metis map_of_inject_set)
  have "sorted (map fst xs)" "sorted (map fst ys)"
    using assms(1,2) by (auto simp: map_ok_def strict_sorted_iff)
  moreover have "inj_on fst (set xs \<union> set ys)"
    using d same by (simp add: distinct_map)
  ultimately show ?thesis
    using d same by (intro map_sorted_distinct_set_unique)
qed

text \<open>Maps that share no value between two keys.\<close>

lemma inj_map_insert:
  assumes "inj_on m (dom m)" "b \<notin> ran m"
  shows "inj_on (m(a \<mapsto> b)) (dom (m(a \<mapsto> b)))"
  using assms by (auto simp: inj_on_def ran_def)

lemma inj_map_delete:
  assumes "inj_on m (dom m)"
  shows "inj_on (m(a := None)) (dom (m(a := None)))"
  using assms by (auto simp: inj_on_def)

lemma inj_map_key: "inj_on m (dom m) \<Longrightarrow> m a = Some b \<Longrightarrow> m a' = Some b \<Longrightarrow> a = a'"
  by (auto simp: inj_on_def dom_def)

lemma ran_map_delete:
  assumes "inj_on m (dom m)" "m a = Some b"
  shows "ran (m(a := None)) = ran m - {b}"
proof (intro set_eqI iffI)
  fix x assume "x \<in> ran m - {b}"
  then obtain a' where "m a' = Some x" "x \<noteq> b" by (auto simp: ran_def)
  with assms(2) show "x \<in> ran (m(a := None))" by (auto simp: ran_def intro!: exI [of _ a'])
next
  fix x assume "x \<in> ran (m(a := None))"
  then obtain a' where a': "m a' = Some x" "a' \<noteq> a" by (auto simp: ran_def split: if_splits)
  then have "x \<noteq> b" using inj_map_key [OF assms] by metis
  with a' show "x \<in> ran m - {b}" by (auto simp: ran_def)
qed

section \<open>Results of calls that act on the world\<close>

text \<open>
  A call returns, throws, or has used up the script of outcomes inside a retry loop: then
  the thread is still in that loop (\<open>Spin\<close>).
\<close>

datatype 'a exec = Ret 'a | Throw cpp_error | Spin

fun and_then :: "'a exec \<Rightarrow> ('a \<Rightarrow> 'b exec) \<Rightarrow> 'b exec" where
  "and_then (Ret x) f = f x"
| "and_then (Throw e) f = Throw e"
| "and_then Spin f = Spin"

fun of_result :: "'a result \<Rightarrow> 'a exec" where
  "of_result (Inl e) = Throw e"
| "of_result (Inr x) = Ret x"

lemma and_then_Ret: "and_then m f = Ret y \<longleftrightarrow> (\<exists>x. m = Ret x \<and> f x = Ret y)"
  by (cases m) auto

lemma and_then_Throw: "and_then m f = Throw e \<longleftrightarrow> m = Throw e \<or> (\<exists>x. m = Ret x \<and> f x = Throw e)"
  by (cases m) auto

lemma of_result_simps [simp]:
  "of_result r = Ret x \<longleftrightarrow> r = Inr x" "of_result r = Throw e \<longleftrightarrow> r = Inl e"
  by (cases r; simp)+

text \<open>
  Partial correctness with memory safety: a call that returns gives a value with the property,
  and a call that throws does not do so over an invalid pointer.
\<close>

definition yields :: "('a \<Rightarrow> bool) \<Rightarrow> 'a exec \<Rightarrow> bool" where
  "yields P m \<longleftrightarrow> (\<forall>x. m = Ret x \<longrightarrow> P x) \<and> m \<noteq> Throw Invalid_pointer"

lemma yields_simps [simp]:
  "yields P (Ret x) \<longleftrightarrow> P x" "yields P (Throw e) \<longleftrightarrow> e \<noteq> Invalid_pointer" "yields P Spin"
  by (auto simp: yields_def)

lemma yields_and_then:
  "yields Q m \<Longrightarrow> (\<And>x. Q x \<Longrightarrow> yields P (f x)) \<Longrightarrow> yields P (and_then m f)"
  by (cases m) auto

lemma yields_mono: "yields Q m \<Longrightarrow> (\<And>x. Q x \<Longrightarrow> P x) \<Longrightarrow> yields P m"
  by (auto simp: yields_def)

lemma yieldsD: "yields P m \<Longrightarrow> m = Ret x \<Longrightarrow> P x"
  by (simp add: yields_def)

section \<open>Invariants of step relations\<close>

text \<open>
  The event loops, the workers and the logger are step relations on their states. An invariant is a predicate that holds
  at the start and that every step keeps; then it holds in every state that can be reached.
\<close>

locale invariant_system =
  fixes start :: "'s \<Rightarrow> bool" and step :: "'s \<Rightarrow> 's \<Rightarrow> bool" and inv :: "'s \<Rightarrow> bool"
  assumes inv_start: "start s \<Longrightarrow> inv s"
    and inv_step: "inv s \<Longrightarrow> step s s' \<Longrightarrow> inv s'"
begin

lemma inv_steps: "step\<^sup>*\<^sup>* s s' \<Longrightarrow> inv s \<Longrightarrow> inv s'"
  by (induction rule: rtranclp_induct) (auto intro: inv_step)

lemma inv_reachable: "start s \<Longrightarrow> step\<^sup>*\<^sup>* s s' \<Longrightarrow> inv s'"
  using inv_steps inv_start by blast

end

end
