(* ===== verification/Wire_Text.thy ===== *)
theory Wire_Text
  imports Cpp_Prelude
begin

text \<open>
  The text an HTTP/1 message is made of, shared by the request parser, the response builder
  and the client: lines closed by CR LF, the blank line that ends the headers, and decimal
  numbers (\<open>std::to_string\<close>).
\<close>

section \<open>Lines\<close>

definition crlf_lines :: "string list \<Rightarrow> string" where
  "crlf_lines ls = concat (map (\<lambda>l. l @ crlf) ls)"

lemma crlf_lines_simps [simp]:
  "crlf_lines [] = []" "crlf_lines (l # ls) = l @ crlf @ crlf_lines ls"
  "crlf_lines (ks @ ls) = crlf_lines ks @ crlf_lines ls"
  by (simp_all add: crlf_lines_def)

text \<open>A line that the parsers take apart at the right places.\<close>

definition plain_line :: "string \<Rightarrow> bool" where
  "plain_line l \<longleftrightarrow> l \<noteq> [] \<and> CR \<notin> set l \<and> LF \<notin> set l"

lemma find_sub_skip:
  "a \<notin> set xs \<Longrightarrow> \<not> prefix (a # p) ys \<Longrightarrow>
   find_sub (a # p) (xs @ ys) = map_option (\<lambda>k. length xs + k) (find_sub (a # p) ys)"
proof (induction xs)
  case Nil
  then show ?case by (cases "find_sub (a # p) ys") auto
next
  case (Cons x xs)
  then show ?case by (auto simp: option.map_comp comp_def)
qed

lemma find_blank_line:
  assumes "ls \<noteq> []" "\<forall>l \<in> set ls. plain_line l"
  shows "find_sub (crlf @ crlf) (crlf_lines ls @ crlf @ rest) = Some (length (crlf_lines ls) - 2)"
  using assms
proof (induction ls rule: list_nonempty_induct)
  case (single l)
  then show ?case
    using find_sub_append [of CR l "[LF, CR, LF]" rest] by (simp add: plain_line_def)
next
  case (cons l ls)
  let ?tail = "crlf_lines ls @ crlf @ rest"
  from cons obtain m ms where ls: "ls = m # ms" by (cases ls) auto
  with cons have m: "plain_line m" by simp
  then obtain c cs where c: "m = c # cs" "c \<noteq> CR" by (cases m) (auto simp: plain_line_def)
  have len: "2 \<le> length (crlf_lines ls)" by (simp add: ls)
  have "\<not> prefix (CR # [LF, CR, LF]) (crlf @ ?tail)"
    by (simp add: ls c(1) c(2) [symmetric])
  then have "find_sub (crlf @ crlf) (l @ crlf @ ?tail) =
      map_option (\<lambda>k. length l + k) (find_sub (crlf @ crlf) (crlf @ ?tail))"
    using cons.prems find_sub_skip [of CR l "[LF, CR, LF]" "crlf @ ?tail"] by (simp add: plain_line_def)
  moreover have "find_sub (crlf @ crlf) (crlf @ ?tail) =
      map_option (\<lambda>k. 2 + k) (find_sub (crlf @ crlf) ?tail)"
    by (cases "find_sub (crlf @ crlf) ?tail") (auto simp: ls c(1) c(2) [symmetric])
  ultimately show ?case
    using cons len by simp
qed

section \<open>Decimal numbers\<close>

fun to_string :: "nat \<Rightarrow> string" where
  "to_string n =
     (if n < 10 then [char_of (48 + n)] else to_string (n div 10) @ [char_of (48 + n mod 10)])"

declare to_string.simps [simp del]

lemma to_string_digits: "c \<in> set (to_string n) \<Longrightarrow> 48 \<le> byte_of c \<and> byte_of c \<le> 57"
proof (induction n rule: to_string.induct)
  case (1 n)
  then show ?case
    by (subst (asm) (2) to_string.simps) (auto split: if_splits)
qed

lemma to_string_nonempty [simp]: "to_string n \<noteq> []"
  by (subst to_string.simps) simp

lemma to_string_plain: "plain_line (to_string n)"
  using to_string_digits [of CR n] to_string_digits [of LF n] by (auto simp: plain_line_def)

end
