(* ===== verification/Utils_Text.thy ===== *)
theory Utils_Text
  imports Cpp_Prelude "HOL-Library.Word"
begin

text \<open>
  The text routines of \<open>src/src/utils.cc\<close> and the typed environment reader of
  \<open>src/src/utils.h\<close>: URL decoding, trimming, hexadecimal numbers in both directions,
  entity tags, JSON output, command line arguments and \<open>getEnv\<close>.

  The loops of the sources walk a string from left to right; each is a recursion on the
  rest of the string. Hexadecimal sizes are 64-bit words, because \<open>parseHexSize\<close> wraps.
\<close>

unbundle bit_operations_syntax

section \<open>Hexadecimal digits\<close>

definition hex_value :: "char \<Rightarrow> nat option" where
  "hex_value c =
     (let b = byte_of c
      in if 48 \<le> b \<and> b \<le> 57 then Some (b - 48)
         else if 97 \<le> b \<and> b \<le> 102 then Some (b - 97 + 10)
         else if 65 \<le> b \<and> b \<le> 70 then Some (b - 65 + 10)
         else None)"

definition charset :: string where
  "charset = ''0123456789abcdef''"

lemma hex_value_less: "hex_value c = Some d \<Longrightarrow> d < 16"
  by (auto simp: hex_value_def Let_def split: if_splits)

lemma below_16: "n < 16 \<longleftrightarrow> n \<in> {0, 1, 2, 3, 4, 5, 6, 7, 8, 9, 10, 11, 12, 13, 14, 15}" for n :: nat
  unfolding insert_iff empty_iff by presburger

lemma hex_value_charset: "n < 16 \<Longrightarrow> hex_value (charset ! n) = Some n"
  unfolding below_16 by (elim insertE emptyE) (simp_all add: charset_def hex_value_def)

section \<open>urlDecode\<close>

definition is_space :: "char \<Rightarrow> bool" where
  "is_space c \<longleftrightarrow> byte_of c = 32 \<or> (9 \<le> byte_of c \<and> byte_of c \<le> 13)"

fun hex_digits :: "string \<Rightarrow> int \<Rightarrow> int" where
  "hex_digits [] n = n"
| "hex_digits (c # cs) n =
     (case hex_value c of None \<Rightarrow> n | Some d \<Rightarrow> hex_digits cs (16 * n + int d))"

text \<open>
  \<open>strtol(s, nullptr, 16)\<close> of the C library: leading white space, an optional sign, an
  optional \<open>0x\<close> that a digit follows, then digits up to the first other byte; 0 when there
  are none. The sources call it on two bytes, which cannot overflow a \<open>long\<close>.
\<close>

definition strtol16 :: "string \<Rightarrow> int" where
  "strtol16 s =
     (let t = dropWhile is_space s;
          neg = (t \<noteq> [] \<and> hd t = CHR ''-'');
          t = (if t \<noteq> [] \<and> (hd t = CHR ''-'' \<or> hd t = CHR ''+'') then tl t else t);
          t = (case t of
                 z # x # d # ds \<Rightarrow>
                   if z = CHR ''0'' \<and> (x = CHR ''x'' \<or> x = CHR ''X'') \<and> hex_value d \<noteq> None
                   then d # ds else t
               | _ \<Rightarrow> t);
          n = hex_digits t 0
      in if neg then - n else n)"

fun urlDecode :: "string \<Rightarrow> string" where
  "urlDecode [] = []"
| "urlDecode (c # cs) =
     (if c = CHR ''%'' \<and> 2 \<le> length cs then
        char_of (nat (strtol16 [cs ! 0, cs ! 1] mod 256)) # urlDecode (drop 2 cs)
      else if c = CHR ''+'' then CHR '' '' # urlDecode cs
      else c # urlDecode cs)"

text \<open>The percent-encoding the decoder is meant to undo (RFC 3986).\<close>

definition unreserved :: "char \<Rightarrow> bool" where
  "unreserved c \<longleftrightarrow>
     (let b = byte_of c
      in (48 \<le> b \<and> b \<le> 57) \<or> (65 \<le> b \<and> b \<le> 90) \<or> (97 \<le> b \<and> b \<le> 122) \<or>
         c \<in> set ''-._~'')"

definition percent :: "char \<Rightarrow> string" where
  "percent c = [CHR ''%'', charset ! (byte_of c div 16), charset ! (byte_of c mod 16)]"

definition url_encode :: "string \<Rightarrow> string" where
  "url_encode s = concat (map (\<lambda>c. if unreserved c then [c] else percent c) s)"

lemma hex_value_space: "hex_value c \<noteq> None \<Longrightarrow> \<not> is_space c \<and> c \<noteq> CHR ''-'' \<and> c \<noteq> CHR ''+''"
  by (auto simp: hex_value_def is_space_def Let_def split: if_splits)

lemma strtol16_two:
  assumes "hex_value a = Some d" "hex_value b = Some e"
  shows "strtol16 [a, b] = 16 * int d + int e"
  using assms hex_value_space [of a] by (simp add: strtol16_def)

lemma urlDecode_percent: "urlDecode (percent c @ s) = c # urlDecode s"
proof -
  have b: "byte_of c div 16 < 16" "byte_of c mod 16 < 16"
    by (auto intro: less_mult_imp_div_less)
  have "16 * (byte_of c div 16) + byte_of c mod 16 = byte_of c"
    by (rule mult_div_mod_eq)
  then have "16 * int (byte_of c div 16) + int (byte_of c mod 16) = int (byte_of c)"
    by (metis of_nat_add of_nat_mult of_nat_numeral)
  then have "strtol16 [charset ! (byte_of c div 16), charset ! (byte_of c mod 16)] = int (byte_of c)"
    using b by (simp only: strtol16_two hex_value_charset)
  moreover have "nat (int (byte_of c) mod 256) = byte_of c"
    using byte_of_less [of c] by (simp del: byte_of_less)
  ultimately show ?thesis
    by (simp add: percent_def)
qed

lemma urlDecode_unreserved: "unreserved c \<Longrightarrow> urlDecode (c # s) = c # urlDecode s"
  by (auto simp: unreserved_def)

lemma urlDecode_plain: "CHR ''%'' \<notin> set s \<Longrightarrow> CHR ''+'' \<notin> set s \<Longrightarrow> urlDecode s = s"
  by (induction s) auto

lemma urlDecode_length: "length (urlDecode s) \<le> length s"
  by (induction s rule: urlDecode.induct) auto

section \<open>trim\<close>

definition trim_chars :: "char list" where
  "trim_chars = [CHR '' '', CHR 0x09, CR, LF]"

definition trim :: "string \<Rightarrow> string" where
  "trim s =
     (case find_first_not_of trim_chars s of
        None \<Rightarrow> []
      | Some start \<Rightarrow>
          (let end_pos = pos_of (find_last_not_of trim_chars s)
           in sub s start (end_pos - start + 1)))"

lemma index_of_dropWhile:
  "(case index_of (\<lambda>x. \<not> P x) xs of None \<Rightarrow> [] | Some i \<Rightarrow> drop i xs) = dropWhile P xs"
  by (induction xs) (auto split: option.splits)

lemma index_of_takeWhile:
  "index_of (\<lambda>x. \<not> P x) xs = Some i \<Longrightarrow> i = length (takeWhile P xs)"
  by (induction xs arbitrary: i) (auto split: if_splits)

text \<open>The pair of searches is the textbook trim: drop the blanks in front, then behind.\<close>

lemma trim_dropWhile:
  "trim s = rev (dropWhile (\<lambda>c. c \<in> set trim_chars) (rev (dropWhile (\<lambda>c. c \<in> set trim_chars) s)))"
proof -
  let ?P = "\<lambda>c. c \<in> set trim_chars"
  show ?thesis
  proof (cases "index_of (\<lambda>c. \<not> ?P c) s")
    case None
    then have "\<forall>x \<in> set s. ?P x" by (simp add: index_of_None)
    then have "dropWhile ?P s = []" by simp
    then show ?thesis
      unfolding trim_def find_first_not_of_def None by (simp only: option.case) simp
  next
    case (Some i)
    have "dropWhile ?P s = drop i s"
      using index_of_dropWhile [where P = ?P and xs = s] unfolding Some by simp
    with Some have i: "i < length s" "\<not> ?P (s ! i)" "dropWhile ?P s = drop i s"
      by (auto simp: index_of_Some)
    then obtain k where k: "index_of (\<lambda>c. \<not> ?P c) (rev s) = Some k"
      by (cases "index_of (\<lambda>c. \<not> ?P c) (rev s)") (auto simp: index_of_None)
    then have kl: "k < length s" "\<not> ?P (rev s ! k)" "\<forall>j < k. ?P (rev s ! j)"
      by (auto simp: index_of_Some)
    have ki: "k \<le> length s - 1 - i"
    proof (rule ccontr)
      assume "\<not> k \<le> length s - 1 - i"
      then have "?P (rev s ! (length s - 1 - i))" using kl(3) by simp
      then show False using i by (simp add: rev_nth)
    qed
    have rd: "rev (drop i s) = take (length s - i) (rev s)" using i(1) by (simp add: take_rev)
    have kr: "index_of (\<lambda>c. \<not> ?P c) (rev (drop i s)) = Some k"
      unfolding rd index_of_Some using kl ki i(1) by auto
    have "dropWhile ?P (rev (drop i s)) = drop k (rev (drop i s))"
      using index_of_dropWhile [where P = ?P and xs = "rev (drop i s)"] unfolding kr by simp
    then have "rev (dropWhile ?P (rev (dropWhile ?P s))) = take (length s - i - k) (drop i s)"
      unfolding i(3) by (simp only: rev_drop [of k "rev (drop i s)"] rev_rev_ident length_rev length_drop)
    moreover have "trim s = sub s i (length s - k - 1 - i + 1)"
      using Some k by (simp add: trim_def find_first_not_of_def find_last_not_of_def)
    moreover have "length s - k - 1 - i + 1 = length s - i - k"
      using ki kl(1) i(1) by linarith
    ultimately show ?thesis by (simp add: sub_def)
  qed
qed

lemma trim_id: "(s = [] \<or> hd s \<notin> set trim_chars \<and> last s \<notin> set trim_chars) \<Longrightarrow> trim s = s"
proof -
  assume h: "s = [] \<or> hd s \<notin> set trim_chars \<and> last s \<notin> set trim_chars"
  have "dropWhile P xs = xs" if "xs = [] \<or> \<not> P (hd xs)" for P and xs :: string
    using that by (cases xs) auto
  with h show ?thesis by (auto simp: trim_dropWhile hd_rev)
qed

lemma trim_blank_around:
  assumes "\<forall>c \<in> set a. c \<in> set trim_chars" "\<forall>c \<in> set b. c \<in> set trim_chars"
  shows "trim (a @ s @ b) = trim s"
proof -
  let ?P = "\<lambda>c. c \<in> set trim_chars"
  have "dropWhile ?P (a @ s @ b) = dropWhile ?P (s @ b)"
    using assms(1) by (simp add: dropWhile_append2)
  moreover have "rev (dropWhile ?P (rev (dropWhile ?P (s @ b)))) = rev (dropWhile ?P (rev (dropWhile ?P s)))"
  proof (cases "\<forall>c \<in> set s. ?P c")
    case True
    then have "dropWhile ?P (s @ b) = []" "dropWhile ?P s = []"
      using assms(2) by (auto simp: dropWhile_append)
    then show ?thesis by (simp only:)
  next
    case False
    then have "dropWhile ?P (s @ b) = dropWhile ?P s @ b"
      by (auto simp: dropWhile_append1)
    moreover have "dropWhile ?P (rev b @ x) = dropWhile ?P x" for x
      using assms(2) by (intro dropWhile_append2) auto
    ultimately show ?thesis by simp
  qed
  ultimately show ?thesis by (simp add: trim_dropWhile)
qed

section \<open>Hexadecimal sizes\<close>

fun parseHexSize_loop :: "string \<Rightarrow> 64 word \<Rightarrow> bool \<times> 64 word" where
  "parseHexSize_loop [] out = (True, out)"
| "parseHexSize_loop (c # cs) out =
     (let out = push_bit 4 out
      in case hex_value c of
           Some d \<Rightarrow> parseHexSize_loop cs (out + of_nat d)
         | None \<Rightarrow> (False, out))"

definition parseHexSize :: "string \<Rightarrow> bool \<times> 64 word" where
  "parseHexSize s = parseHexSize_loop s 0"

lemma unat_drop_bit_4: "unat (drop_bit 4 n) = unat n div 16" for n :: "64 word"
  by (simp add: drop_bit_eq_div unat_div)

lemma unat_and_15: "unat (n AND 15) = unat n mod 16" for n :: "64 word"
proof -
  have "n AND 15 = take_bit 4 n" by (simp add: take_bit_eq_mask mask_numeral)
  then show ?thesis by (simp add: unat_mod_distrib take_bit_eq_mod)
qed

function fromIntToHex_loop :: "64 word \<Rightarrow> string \<Rightarrow> string" where
  "fromIntToHex_loop n ret =
     (let ret = charset ! unat (n AND 15) # ret; n = drop_bit 4 n
      in if 0 < n then fromIntToHex_loop n ret else ret)"
  by pat_completeness auto

termination
proof (relation "measure (\<lambda>(n, ret). unat n)", goal_cases)
  case (2 n ret x xa)
  then have "unat n div 16 \<noteq> 0"
    by (metis unat_drop_bit_4 unat_0 less_irrefl unat_eq_zero word_gt_0)
  with 2 show ?case by (auto simp: unat_drop_bit_4)
qed simp

declare fromIntToHex_loop.simps [simp del]

definition fromIntToHex :: "64 word \<Rightarrow> string" where
  "fromIntToHex n = fromIntToHex_loop n []"

text \<open>The number a string of hexadecimal digits denotes.\<close>

fun hex_num :: "string \<Rightarrow> nat \<Rightarrow> nat" where
  "hex_num [] n = n"
| "hex_num (c # cs) n = hex_num cs (16 * n + the (hex_value c))"

definition all_hex :: "string \<Rightarrow> bool" where
  "all_hex s \<longleftrightarrow> (\<forall>c \<in> set s. hex_value c \<noteq> None)"

lemma parseHexSize_loop_True:
  "all_hex s \<Longrightarrow> parseHexSize_loop s (of_nat n) = (True, of_nat (hex_num s n))"
proof (induction s arbitrary: n)
  case (Cons c cs)
  then obtain d where d: "hex_value c = Some d" by (auto simp: all_hex_def)
  have "push_bit 4 (of_nat n) + of_nat d = (of_nat (16 * n + d) :: 64 word)"
    by (simp add: push_bit_eq_mult)
  moreover have "all_hex cs" using Cons.prems by (simp add: all_hex_def)
  ultimately show ?case using Cons.IH [of "16 * n + d"] d by simp
qed simp

lemma parseHexSize_loop_False: "\<not> all_hex s \<Longrightarrow> \<not> fst (parseHexSize_loop s out)"
  by (induction s arbitrary: out) (auto simp: all_hex_def Let_def split: option.splits)

lemma parseHexSize_hex:
  "all_hex s \<Longrightarrow> parseHexSize s = (True, of_nat (hex_num s 0))"
  using parseHexSize_loop_True [of s 0] by (simp add: parseHexSize_def)

lemma fst_parseHexSize: "fst (parseHexSize s) \<longleftrightarrow> all_hex s"
  using parseHexSize_hex [of s] parseHexSize_loop_False [of s 0] by (auto simp: parseHexSize_def)

lemma hex_num_append: "hex_num (s @ t) n = hex_num t (hex_num s n)"
  by (induction s arbitrary: n) auto

lemma hex_num_shift: "hex_num s n = n * 16 ^ length s + hex_num s 0"
proof (induction s arbitrary: n)
  case (Cons c cs)
  show ?case
    using Cons [of "16 * n + the (hex_value c)"] Cons [of "the (hex_value c)"]
    by (simp add: algebra_simps)
qed simp

lemma hex_num_less: "all_hex s \<Longrightarrow> hex_num s 0 < 16 ^ length s"
proof (induction s)
  case (Cons c cs)
  then obtain d where d: "hex_value c = Some d" "d < 16"
    by (auto simp: all_hex_def dest: hex_value_less)
  have "hex_num cs d < d * 16 ^ length cs + 16 ^ length cs"
    using Cons d by (subst hex_num_shift) (simp add: all_hex_def)
  also have "\<dots> = (d + 1) * 16 ^ length cs" by simp
  also have "\<dots> \<le> 16 * 16 ^ length cs" using d(2) by (intro mult_right_mono) auto
  finally show ?case using d by simp
qed simp

lemma fromIntToHex_loop_inv:
  "all_hex ret \<Longrightarrow>
     all_hex (fromIntToHex_loop n ret) \<and>
     hex_num (fromIntToHex_loop n ret) 0 = unat n * 16 ^ length ret + hex_num ret 0 \<and>
     fromIntToHex_loop n ret \<noteq> []"
proof (induction n ret rule: fromIntToHex_loop.induct)
  case (1 n ret)
  let ?c = "charset ! unat (n AND 15)"
  have v: "hex_value ?c = Some (unat n mod 16)"
    by (simp add: unat_and_15 hex_value_charset)
  then have ok: "all_hex (?c # ret)" using "1.prems" by (simp add: all_hex_def)
  have num: "hex_num (?c # ret) 0 = (unat n mod 16) * 16 ^ length ret + hex_num ret 0"
    using v by (simp add: hex_num_shift [of ret "unat n mod 16"])
  show ?case
  proof (cases "0 < drop_bit 4 n")
    case True
    have "unat n = unat n div 16 * 16 + unat n mod 16" by simp
    then have "unat n * 16 ^ length ret =
        unat n div 16 * 16 ^ Suc (length ret) + unat n mod 16 * 16 ^ length ret"
      by (metis distrib_right mult.assoc power_Suc)
    with "1.IH" [OF refl refl True ok] True show ?thesis
      unfolding num unat_drop_bit_4 by (subst (1 2 3) fromIntToHex_loop.simps) (simp del: hex_num.simps)
  next
    case False
    then have "unat n div 16 = 0"
      by (metis unat_0 unat_drop_bit_4 word_gt_0)
    then have "unat n mod 16 = unat n" by simp
    with False ok num show ?thesis
      by (subst (1 2 3) fromIntToHex_loop.simps) (simp del: hex_num.simps)
  qed
qed

lemma fromIntToHex_props:
  "all_hex (fromIntToHex n)" "hex_num (fromIntToHex n) 0 = unat n" "fromIntToHex n \<noteq> []"
  using fromIntToHex_loop_inv [of "[]" n] by (auto simp: fromIntToHex_def all_hex_def)

definition hex_decode :: "string \<Rightarrow> 64 word option" where
  "hex_decode s = (case parseHexSize s of (ok, n) \<Rightarrow> if ok then Some n else None)"

lemma parse_fromIntToHex: "parseHexSize (fromIntToHex n) = (True, n)"
  using parseHexSize_hex [OF fromIntToHex_props(1) [of n]] by (simp add: fromIntToHex_props(2))

interpretation hex_size: codec fromIntToHex hex_decode "\<lambda>_. True"
  by unfold_locales (simp add: hex_decode_def parse_fromIntToHex)

text \<open>
  Hexadecimal sizes: what \<open>fromIntToHex\<close> prints \<open>parseHexSize\<close> reads back, for every 64-bit value;
  a text is accepted exactly when every character is a hex digit (the empty text included), and
  its value is reduced modulo 2^64, so sizes of more than sixteen digits wrap silently.
\<close>

lemma hex_sizes:
  "parseHexSize (fromIntToHex n) = (True, n) \<and> (fst (parseHexSize s) \<longleftrightarrow> all_hex s) \<and>
   (all_hex s \<longrightarrow> unat (snd (parseHexSize s)) = hex_num s 0 mod 2 ^ 64)"
  by (simp add: parse_fromIntToHex fst_parseHexSize parseHexSize_hex unat_of_nat)

lemma hex_sizes_witness: "unat (snd (parseHexSize ''10000000000000001'')) = 1"
  using hex_sizes [of 0 "''10000000000000001''"] by (simp add: all_hex_def hex_value_def)

section \<open>Entity tags\<close>

text \<open>
  \<open>computeEtag(int mtime, size_t size)\<close>: the caller casts the 64-bit modification time,
  and the parameter keeps its low 32 bits as a signed number.
\<close>

definition to_int32 :: "int \<Rightarrow> int" where
  "to_int32 n = sint (word_of_int n :: 32 word)"

definition computeEtag :: "int \<Rightarrow> 64 word \<Rightarrow> string" where
  "computeEtag mtime sz =
     (if mtime < 0 then []
      else ''W/'' @ [CHR 0x22] @ fromIntToHex (word_of_int mtime) @ ''-'' @
           fromIntToHex sz @ [CHR 0x22])"

section \<open>JSON output\<close>

text \<open>
  \<open>mapToJson\<close> prints the entries in the iteration order of an \<open>unordered_map\<close>, which is
  the list it is given here.
\<close>

fun mapToJson_loop :: "(string \<times> string) list \<Rightarrow> bool \<Rightarrow> string \<Rightarrow> string" where
  "mapToJson_loop [] first ss = ss"
| "mapToJson_loop ((k, v) # ps) first ss =
     (let ss = (if \<not> first then ss @ '', '' else ss);
          ss = ss @ [CHR 0x22] @ k @ [CHR 0x22] @ '': '';
          ss = ss @ [CHR 0x22] @ v @ [CHR 0x22]
      in mapToJson_loop ps False ss)"

definition mapToJson :: "(string \<times> string) list \<Rightarrow> string" where
  "mapToJson ps = mapToJson_loop ps True ''{'' @ ''}''"

definition json_entry :: "string \<times> string \<Rightarrow> string" where
  "json_entry kv = [CHR 0x22] @ fst kv @ [CHR 0x22] @ '': '' @ [CHR 0x22] @ snd kv @ [CHR 0x22]"

fun join_with :: "string \<Rightarrow> string list \<Rightarrow> string" where
  "join_with sep [] = []"
| "join_with sep [w] = w"
| "join_with sep (w # ws) = w @ sep @ join_with sep ws"

lemma mapToJson_loop_rest:
  "mapToJson_loop ps False ss = ss @ concat (map (\<lambda>kv. '', '' @ json_entry kv) ps)"
  by (induction ps arbitrary: ss) (auto simp: json_entry_def)

lemma join_with_Cons: "join_with sep (w # ws) = w @ concat (map (\<lambda>v. sep @ v) ws)"
  by (induction ws arbitrary: w) auto

lemma mapToJson_join: "mapToJson ps = ''{'' @ join_with '', '' (map json_entry ps) @ ''}''"
proof (cases ps)
  case (Cons kv rest)
  have "mapToJson_loop ps True ''{'' =
      ''{'' @ json_entry kv @ concat (map (\<lambda>kv. '', '' @ json_entry kv) rest)"
    unfolding Cons by (cases kv) (simp add: mapToJson_loop_rest json_entry_def)
  then show ?thesis
    unfolding Cons by (simp add: mapToJson_def join_with_Cons comp_def del: mapToJson_loop.simps)
qed (simp add: mapToJson_def)

section \<open>Command line arguments\<close>

text \<open>
  The loop over \<open>argv[1..]\<close>: an option with a value consumes two arguments, and only when
  a second one is there.
\<close>

fun parseArguments_loop :: "string list \<Rightarrow> (string \<times> string) list \<Rightarrow> (string \<times> string) list" where
  "parseArguments_loop [] args = args"
| "parseArguments_loop (arg # rest) args =
     (if arg = ''--host'' \<and> rest \<noteq> [] then
        parseArguments_loop (tl rest) (map_set ''--host'' (hd rest) args)
      else if arg = ''--port'' \<and> rest \<noteq> [] then
        parseArguments_loop (tl rest) (map_set ''--port'' (hd rest) args)
      else if arg = ''--help'' then
        parseArguments_loop rest (map_set ''--help'' ''true'' args)
      else parseArguments_loop rest args)"

definition parseArguments :: "string list \<Rightarrow> (string \<times> string) list" where
  "parseArguments argv =
     (let args = map_set ''--host'' ''0.0.0.0'' [];
          args = map_set ''--port'' ''8080'' args;
          args = map_set ''--help'' ''false'' args
      in parseArguments_loop (tl argv) args)"

lemma parseArguments_loop_ok: "map_ok args \<Longrightarrow> map_ok (parseArguments_loop as args)"
  by (induction as args rule: parseArguments_loop.induct) (auto simp: map_ok_map_set)

lemma parseArguments_loop_dom:
  "{''--host'', ''--port'', ''--help''} \<subseteq> A \<Longrightarrow> fst ` set args = A \<Longrightarrow>
   fst ` set (parseArguments_loop as args) = A"
  by (induction as args rule: parseArguments_loop.induct) (simp_all add: fst_set_map_set insert_absorb)

section \<open>getEnv\<close>

text \<open>
  \<open>getEnv<T>\<close> for strings, booleans, the signed (\<open>int\<close>: 32 bits, \<open>long\<close>: 64) and unsigned
  integers, and floating point. The process environment is the parameter \<open>env\<close>. The digit loop
  computes in the type without a range check: a signed value that leaves it is undefined
  behaviour, an unsigned one wraps. For floating point \<open>strtod\<close> is an argument: the number and
  how many bytes were used.
\<close>

definition getEnv_string :: "(string \<rightharpoonup> string) \<Rightarrow> string \<Rightarrow> string \<Rightarrow> string" where
  "getEnv_string env key default_value =
     (case env key of None \<Rightarrow> default_value | Some sv \<Rightarrow> sv)"

definition tolower :: "char \<Rightarrow> char" where
  "tolower c = (if 65 \<le> byte_of c \<and> byte_of c \<le> 90 then char_of (byte_of c + 32) else c)"

definition getEnv_bool :: "(string \<rightharpoonup> string) \<Rightarrow> string \<Rightarrow> bool \<Rightarrow> bool" where
  "getEnv_bool env key default_value =
     (case env key of
        None \<Rightarrow> default_value
      | Some sv \<Rightarrow>
          if sv = [] then default_value
          else (let lower = map tolower sv;
                    result = (lower = ''true'' \<or> lower = ''1'' \<or> lower = ''yes'' \<or> lower = ''on'')
                in if result \<or> lower = ''false'' \<or> lower = ''0'' \<or> lower = ''no'' \<or> lower = ''off''
                   then result else default_value))"

fun getEnv_digits :: "nat \<Rightarrow> string \<Rightarrow> int \<Rightarrow> int option result" where
  "getEnv_digits w [] res = Inr (Some res)"
| "getEnv_digits w (c # cs) res =
     (if byte_of c < 48 \<or> 57 < byte_of c then Inr None
      else if 2 ^ (w - 1) \<le> res * 10 + int (byte_of c - 48) then Inl Undefined_behaviour
      else getEnv_digits w cs (res * 10 + int (byte_of c - 48)))"

text \<open>The loop's early \<open>return default_value\<close> is \<open>None\<close>; the sign comes after the loop.\<close>

definition getEnv_int :: "nat \<Rightarrow> (string \<rightharpoonup> string) \<Rightarrow> string \<Rightarrow> int \<Rightarrow> int result" where
  "getEnv_int w env key default_value =
     (case env key of
        None \<Rightarrow> Inr default_value
      | Some sv \<Rightarrow>
          if sv = [] then Inr default_value
          else (let negative = (hd sv = CHR ''-'')
                in case getEnv_digits w (if negative then tl sv else sv) 0 of
                     Inl e \<Rightarrow> Inl e
                   | Inr None \<Rightarrow> Inr default_value
                   | Inr (Some r) \<Rightarrow> Inr (if negative then - r else r)))"

fun getEnv_digits_unsigned :: "string \<Rightarrow> 'w::len word \<Rightarrow> 'w word option" where
  "getEnv_digits_unsigned [] res = Some res"
| "getEnv_digits_unsigned (c # cs) res =
     (if byte_of c < 48 \<or> 57 < byte_of c then None
      else getEnv_digits_unsigned cs (res * 10 + of_nat (byte_of c - 48)))"

definition getEnv_unsigned :: "(string \<rightharpoonup> string) \<Rightarrow> string \<Rightarrow> 'w::len word \<Rightarrow> 'w word" where
  "getEnv_unsigned env key default_value =
     (case env key of
        None \<Rightarrow> default_value
      | Some sv \<Rightarrow>
          if sv = [] then default_value
          else (case getEnv_digits_unsigned sv 0 of None \<Rightarrow> default_value | Some result \<Rightarrow> result))"

definition getEnv_float :: "(string \<Rightarrow> 'f \<times> nat) \<Rightarrow> (string \<rightharpoonup> string) \<Rightarrow> string \<Rightarrow> 'f \<Rightarrow> 'f" where
  "getEnv_float strtod env key default_value =
     (case env key of
        None \<Rightarrow> default_value
      | Some value \<Rightarrow>
          (let (result, end) = strtod value in if end \<noteq> length value then default_value else result))"

definition is_digit :: "char \<Rightarrow> bool" where
  "is_digit c \<longleftrightarrow> 48 \<le> byte_of c \<and> byte_of c \<le> 57"

fun dec_num :: "string \<Rightarrow> int \<Rightarrow> int" where
  "dec_num [] n = n"
| "dec_num (c # cs) n = dec_num cs (n * 10 + int (byte_of c - 48))"

lemma dec_num_mono: "0 \<le> n \<Longrightarrow> n \<le> dec_num s n"
proof (induction s arbitrary: n)
  case (Cons c cs)
  have "n * 10 + int (byte_of c - 48) \<le> dec_num (c # cs) n"
    using Cons by simp
  moreover have "n \<le> n * 10 + int (byte_of c - 48)" using Cons.prems by simp
  ultimately show ?case by linarith
qed simp

lemma getEnv_digits_in_range:
  "list_all is_digit s \<Longrightarrow> 0 \<le> n \<Longrightarrow> dec_num s n < 2 ^ (w - 1) \<Longrightarrow>
   getEnv_digits w s n = Inr (Some (dec_num s n))"
proof (induction s arbitrary: n)
  case (Cons c cs)
  let ?m = "n * 10 + int (byte_of c - 48)"
  have "?m \<le> dec_num cs ?m" using Cons.prems(2) by (intro dec_num_mono) simp
  with Cons show ?case by (simp add: is_digit_def)
qed simp

lemma getEnv_digits_overflow:
  "list_all is_digit s \<Longrightarrow> 0 \<le> n \<Longrightarrow> n < 2 ^ (w - 1) \<Longrightarrow> 2 ^ (w - 1) \<le> dec_num s n \<Longrightarrow>
   getEnv_digits w s n = Inl Undefined_behaviour"
  by (induction s arbitrary: n) (auto simp: is_digit_def)

lemma getEnv_digits_total:
  "0 \<le> n \<Longrightarrow> n < 2 ^ (w - 1) \<Longrightarrow> getEnv_digits w s n = Inr (Some r) \<Longrightarrow> 0 \<le> r \<and> r < 2 ^ (w - 1)"
proof (induction s arbitrary: n)
  case (Cons c cs)
  have "0 \<le> n * 10 + int (byte_of c - 48)" using Cons.prems(1) by simp
  with Cons.prems(3) Cons.IH [of "n * 10 + int (byte_of c - 48)"] show ?case
    by (simp split: if_splits del: of_nat_diff)
qed simp

text \<open>
  Reading an integer from the environment: a number that fits the type is read exactly, with or
  without a minus sign; one that does not is undefined behaviour; a lone minus is 0.
\<close>

lemma getEnv_int_range:
  assumes "list_all is_digit s" "s \<noteq> []"
  shows "env key = Some s \<Longrightarrow> dec_num s 0 < 2 ^ (w - 1) \<Longrightarrow> getEnv_int w env key d = Inr (dec_num s 0)"
    and "env key = Some (CHR ''-'' # s) \<Longrightarrow> dec_num s 0 < 2 ^ (w - 1) \<Longrightarrow> getEnv_int w env key d = Inr (- dec_num s 0)"
    and "env key = Some s \<Longrightarrow> 2 ^ (w - 1) \<le> dec_num s 0 \<Longrightarrow> getEnv_int w env key d = Inl Undefined_behaviour"
    and "env key = Some ''-'' \<Longrightarrow> getEnv_int w env key d = Inr 0"
proof -
  have "is_digit (hd s)" using assms by (cases s) simp_all
  then have h: "hd s \<noteq> CHR ''-''" by (auto simp: is_digit_def)
  note d = getEnv_digits_in_range [OF assms(1), of 0 w] getEnv_digits_overflow [OF assms(1), of 0 w]
  show "env key = Some s \<Longrightarrow> dec_num s 0 < 2 ^ (w - 1) \<Longrightarrow> getEnv_int w env key d = Inr (dec_num s 0)"
    "env key = Some (CHR ''-'' # s) \<Longrightarrow> dec_num s 0 < 2 ^ (w - 1) \<Longrightarrow> getEnv_int w env key d = Inr (- dec_num s 0)"
    "env key = Some s \<Longrightarrow> 2 ^ (w - 1) \<le> dec_num s 0 \<Longrightarrow> getEnv_int w env key d = Inl Undefined_behaviour"
    "env key = Some ''-'' \<Longrightarrow> getEnv_int w env key d = Inr 0"
    using d assms(2) h by (simp_all add: getEnv_int_def)
qed

text \<open>An unsigned number is read modulo the width, and a minus sign is no digit.\<close>

lemma getEnv_digits_unsigned_wraps:
  "list_all is_digit s \<Longrightarrow> getEnv_digits_unsigned s (word_of_int n :: 'w::len word) = Some (word_of_int (dec_num s n))"
proof (induction s arbitrary: n)
  case (Cons c cs)
  have "getEnv_digits_unsigned cs (word_of_int n * 10 + of_nat (byte_of c - 48) :: 'w word) =
      Some (word_of_int (dec_num cs (n * 10 + int (byte_of c - 48))))"
    using Cons.IH [of "n * 10 + int (byte_of c - 48)"] Cons.prems by simp
  with Cons.prems show ?case by (simp add: is_digit_def)
qed simp

lemma getEnv_unsigned_wraps:
  assumes "list_all is_digit s" "s \<noteq> []" "env key = Some s"
  shows "getEnv_unsigned env key (d :: 'w::len word) = word_of_int (dec_num s 0)"
  using getEnv_digits_unsigned_wraps [OF assms(1), of 0, where 'w = 'w] assms(2,3)
  by (simp add: getEnv_unsigned_def)

text \<open>
  For floating point an empty value is not taken for a missing one: \<open>strtod\<close> uses no byte of it,
  which is all there is, and its zero is returned.
\<close>

lemma getEnv_float_empty:
  assumes "strtod [] = (zero, 0)" "env key = Some []"
  shows "getEnv_float strtod env key d = zero"
  using assms by (simp add: getEnv_float_def)

end
