(* ===== verification/Request.thy ===== *)
theory Request
  imports Wire_Text Utils_Text
begin

text \<open>
  \<open>src/src/request.h\<close> and \<open>src/src/request.cc\<close>: the \<open>Request\<close> class, the parsers its
  constructor runs over the raw bytes (request line, headers, query string, body), and the
  reading operations. The loops keep the source's positions into the raw string.
\<close>

record Request =
  req_method :: string
  req_path :: string
  req_normalize_path :: string
  req_query_string :: string
  req_version :: string
  req_mime_type :: string
  req_body :: string
  req_headers :: "string \<rightharpoonup> string"
  req_params :: "string \<rightharpoonup> string"
  req_query :: "string \<rightharpoonup> string"

definition empty_request :: Request where
  "empty_request =
     \<lparr>req_method = [], req_path = [], req_normalize_path = [], req_query_string = [],
      req_version = [], req_mime_type = [], req_body = [],
      req_headers = Map.empty, req_params = Map.empty, req_query = Map.empty\<rparr>"

definition setMethod :: "string \<Rightarrow> Request \<Rightarrow> Request" where
  "setMethod m r = r\<lparr>req_method := m\<rparr>"

definition setPath :: "string \<Rightarrow> Request \<Rightarrow> Request" where
  "setPath p r = r\<lparr>req_path := p\<rparr>"

definition setVersion :: "string \<Rightarrow> Request \<Rightarrow> Request" where
  "setVersion v r = r\<lparr>req_version := v\<rparr>"

definition setMimeType :: "string \<Rightarrow> Request \<Rightarrow> Request" where
  "setMimeType m r = r\<lparr>req_mime_type := m\<rparr>"

definition setParam :: "string \<Rightarrow> string \<Rightarrow> Request \<Rightarrow> Request" where
  "setParam key v r = r\<lparr>req_params := (req_params r)(key \<mapsto> v)\<rparr>"

definition setQuery :: "string \<Rightarrow> string \<Rightarrow> Request \<Rightarrow> Request" where
  "setQuery key v r = r\<lparr>req_query := (req_query r)(key \<mapsto> v)\<rparr>"

definition mimeType :: "Request \<Rightarrow> string option" where
  "mimeType r = (if req_mime_type r = [] then None else Some (req_mime_type r))"

definition isKeepAlive :: "Request \<Rightarrow> bool" where
  "isKeepAlive r =
     (case req_headers r ''Connection'' of None \<Rightarrow> True | Some v \<Rightarrow> v \<noteq> ''close'')"

section \<open>MIME types\<close>

definition mimeTypes :: "(string \<times> string) list" where
  "mimeTypes =
     [(''html'', ''text/html''), (''htm'', ''text/html''),
      (''css'', ''text/css''), (''js'', ''text/javascript''),
      (''jpg'', ''image/jpeg''), (''jpeg'', ''image/jpeg''),
      (''png'', ''image/png''), (''gif'', ''image/gif''),
      (''svg'', ''image/svg+xml''), (''xml'', ''application/xml''),
      (''json'', ''application/json''), (''txt'', ''text/plain''),
      (''pdf'', ''application/pdf''), (''mp3'', ''audio/mpeg''),
      (''mp4'', ''video/mp4''), (''webm'', ''video/webm''),
      (''woff'', ''font/woff''), (''woff2'', ''font/woff2''),
      (''ttf'', ''font/ttf''), (''eot'', ''application/vnd.ms-fontobject'')]"

text \<open>
  \<open>clean_path.find_last_of(".") + 1\<close> is 0 when there is no dot, since \<open>npos + 1\<close> wraps:
  the whole path is then taken for the extension.
\<close>

definition getMimeType :: "string \<Rightarrow> string" where
  "getMimeType path =
     (let clean_path = (case find_char CHR ''?'' path 0 of None \<Rightarrow> path | Some q \<Rightarrow> sub path 0 q);
          start = (case find_last CHR ''.'' clean_path of None \<Rightarrow> 0 | Some d \<Rightarrow> d + 1);
          ext = map tolower (drop start clean_path)
      in if ext = [] then [] else (case map_of mimeTypes ext of Some m \<Rightarrow> m | None \<Rightarrow> []))"

section \<open>The query string\<close>

function parseQuery_loop :: "string \<Rightarrow> nat \<Rightarrow> (string \<rightharpoonup> string) \<Rightarrow> (string \<rightharpoonup> string)" where
  "parseQuery_loop qs start q =
     (if start < length qs then
        (let amp = (case find_char CHR ''&'' qs start of None \<Rightarrow> length qs | Some a \<Rightarrow> a);
             (key, val) =
               (case find_char CHR ''='' qs start of
                  Some e \<Rightarrow>
                    if e < amp then (sub qs start (e - start), sub qs (e + 1) (amp - e - 1))
                    else (sub qs start (amp - start), [])
                | None \<Rightarrow> (sub qs start (amp - start), []))
         in parseQuery_loop qs (amp + 1) (q(urlDecode key \<mapsto> urlDecode val)))
      else q)"
  by pat_completeness auto
termination
  by (relation "measure (\<lambda>(qs, start, q). length qs - start)")
    (auto dest: find_char_length split: option.splits)

declare parseQuery_loop.simps [simp del]

definition parseQueryString :: "string \<Rightarrow> Request \<Rightarrow> Request" where
  "parseQueryString qs r =
     (if qs = [] then r else r\<lparr>req_query := parseQuery_loop qs 0 (req_query r)\<rparr>)"

section \<open>The request line\<close>

text \<open>
  \<open>line.find(' ', m1 + 1)\<close> starts at 0 when the first search failed, since \<open>npos + 1\<close>
  wraps; the code returns in that case whatever the second search finds.
\<close>

definition parseRequestLine :: "string \<Rightarrow> Request \<Rightarrow> Request" where
  "parseRequestLine line r =
     (let m1 = find_char CHR '' '' line 0;
          m2 = find_char CHR '' '' line (case m1 of None \<Rightarrow> 0 | Some m \<Rightarrow> m + 1)
      in case (m1, m2) of
           (Some m1, Some m2) \<Rightarrow>
             (let path = sub line (m1 + 1) (m2 - m1 - 1);
                  r = r\<lparr>req_method := sub line 0 m1, req_path := path,
                        req_version := drop (m2 + 1) line, req_mime_type := getMimeType path,
                        req_params := Map.empty, req_query := Map.empty\<rparr>
              in case find_char CHR ''?'' path 0 of
                   Some q \<Rightarrow>
                     parseQueryString (drop (q + 1) path)
                       (r\<lparr>req_normalize_path := sub path 0 q, req_query_string := drop (q + 1) path\<rparr>)
                 | None \<Rightarrow> r\<lparr>req_normalize_path := path\<rparr>)
         | _ \<Rightarrow> r)"

section \<open>The headers\<close>

function parseHeaders :: "string \<Rightarrow> nat \<Rightarrow> (string \<rightharpoonup> string) \<Rightarrow> (string \<rightharpoonup> string) \<times> nat" where
  "parseHeaders raw pos hs =
     (if pos < length raw then
        (case find_str crlf raw pos of
           None \<Rightarrow> (hs, pos)
         | Some e \<Rightarrow>
             if e = pos then (hs, e + 2)
             else parseHeaders raw (e + 2)
               (case find_char CHR '':'' raw pos of
                  None \<Rightarrow> hs
                | Some colon \<Rightarrow>
                    if colon < e then
                      (let name = sub raw pos (colon - pos);
                           value_start = colon + 1;
                           value_start =
                             (if value_start < e \<and> raw ! value_start = CHR '' ''
                              then value_start + 1 else value_start)
                       in hs(name \<mapsto> sub raw value_start (e - value_start)))
                    else hs))
      else (hs, pos))"
  by pat_completeness auto
termination
  by (relation "measure (\<lambda>(raw, pos, hs). length raw - pos)") (auto dest!: find_str_bounds)

declare parseHeaders.simps [simp del]

section \<open>The constructor\<close>

definition Request_new :: "string \<Rightarrow> Request" where
  "Request_new raw =
     (case find_str crlf raw 0 of
        None \<Rightarrow> empty_request
      | Some line_end \<Rightarrow>
          (let r = parseRequestLine (sub raw 0 line_end) empty_request;
               r = r\<lparr>req_headers := fst (parseHeaders raw (line_end + 2) (req_headers r))\<rparr>
           in case find_str (crlf @ crlf) raw 0 of
                None \<Rightarrow> r
              | Some header_end \<Rightarrow> r\<lparr>req_body := drop (header_end + 4) raw\<rparr>))"

section \<open>Parameters and query as keyed stores\<close>

interpretation request_params: keyed_store req_params setParam "\<lambda>_. True"
  by unfold_locales (simp_all add: setParam_def)

interpretation request_query: keyed_store req_query setQuery "\<lambda>_. True"
  by unfold_locales (simp_all add: setQuery_def)

lemma setParam_frame [simp]:
  "req_method (setParam k v r) = req_method r" "req_path (setParam k v r) = req_path r"
  "req_query (setParam k v r) = req_query r" "req_headers (setParam k v r) = req_headers r"
  "req_mime_type (setParam k v r) = req_mime_type r"
  by (simp_all add: setParam_def)

section \<open>What the header loop computes\<close>

definition header_of_line :: "string \<Rightarrow> (string \<times> string) option" where
  "header_of_line l =
     (case find_char CHR '':'' l 0 of
        None \<Rightarrow> None
      | Some c \<Rightarrow>
          Some (take c l,
            (case drop (c + 1) l of [] \<Rightarrow> [] | x # xs \<Rightarrow> if x = CHR '' '' then xs else x # xs)))"

definition apply_header :: "(string \<rightharpoonup> string) \<Rightarrow> string \<Rightarrow> (string \<rightharpoonup> string)" where
  "apply_header hs l = (case header_of_line l of None \<Rightarrow> hs | Some (k, v) \<Rightarrow> hs(k \<mapsto> v))"

lemma header_of_line_colon:
  "CHR '':'' \<notin> set k \<Longrightarrow>
   header_of_line (k @ CHR '':'' # v) =
     Some (k, case v of [] \<Rightarrow> [] | x # xs \<Rightarrow> if x = CHR '' '' then xs else x # xs)"
  by (simp add: header_of_line_def find_char_append)

lemma header_of_line_pair:
  "CHR '':'' \<notin> set k \<Longrightarrow> header_of_line (k @ '': '' @ v) = Some (k, v)"
  by (simp add: header_of_line_colon)

lemma parseHeaders_line:
  assumes l: "plain_line l" and raw: "raw = pre @ l @ crlf @ rest"
  shows "parseHeaders raw (length pre) hs = parseHeaders raw (length pre + length l + 2) (apply_header hs l)"
proof -
  have e: "find_str crlf raw (length pre) = Some (length pre + length l)"
    using l find_str_append [of CR l "length pre" pre "[LF]" rest] by (simp add: raw plain_line_def)
  have pos: "length pre < length raw" "l \<noteq> []"
    using l by (auto simp: raw plain_line_def)
  show ?thesis
  proof (cases "CHR '':'' \<in> set l")
    case True
    then obtain k v where kv: "l = k @ CHR '':'' # v" "CHR '':'' \<notin> set k"
      by (meson split_list_first)
    have c: "find_char CHR '':'' raw (length pre) = Some (length pre + length k)"
      using kv find_char_at [of "CHR '':''" k "length pre" pre "v @ crlf @ rest"] by (simp add: raw)
    have name: "sub raw (length pre) (length k) = k"
      by (simp add: raw kv sub_def)
    have tail: "raw ! Suc (length pre + length k) = hd v"
      "sub raw (Suc (Suc (length pre + length k))) (length v - 1) = tl v" if "v \<noteq> []"
      using that by (cases v; simp add: raw kv sub_def nth_append)+
    have val: "sub raw (Suc (length pre + length k)) (length v) = v"
      by (simp add: raw kv sub_def)
    have empty: "sub raw n 0 = []" for n
      by (simp add: sub_def)
    show ?thesis
    proof (cases v)
      case Nil
      then show ?thesis
        using pos empty by (subst parseHeaders.simps)
          (simp add: e c kv name apply_header_def header_of_line_colon Let_def)
    next
      case (Cons x xs)
      then show ?thesis
        using pos tail val by (subst parseHeaders.simps)
          (simp add: e c kv name apply_header_def header_of_line_colon Let_def)
    qed
  next
    case False
    have "find_char CHR '':'' raw (length pre) = None \<or>
        (\<exists>c. find_char CHR '':'' raw (length pre) = Some c \<and> length pre + length l \<le> c)"
    proof (cases "find_char CHR '':'' raw (length pre)")
      case (Some c)
      then have c: "length pre \<le> c" "raw ! c = CHR '':''" by (auto simp: find_char_Some)
      have "length pre + length l \<le> c"
      proof (rule ccontr)
        assume "\<not> length pre + length l \<le> c"
        with c(1) have "raw ! c = l ! (c - length pre)" "c - length pre < length l"
          by (auto simp: raw nth_append)
        with c(2) False show False by (metis nth_mem)
      qed
      with Some show ?thesis by auto
    qed auto
    then have "(case find_char CHR '':'' raw (length pre) of
          None \<Rightarrow> hs
        | Some colon \<Rightarrow> if colon < length pre + length l then X colon else hs) = hs" for X
      by auto
    moreover have "find_char CHR '':'' l 0 = None"
      using False by (simp add: find_char_None)
    then have "apply_header hs l = hs"
      by (simp add: apply_header_def header_of_line_def)
    ultimately show ?thesis
      using pos by (subst parseHeaders.simps) (simp add: e)
  qed
qed

lemma parseHeaders_lines:
  "\<forall>l \<in> set ls. plain_line l \<Longrightarrow>
   parseHeaders (pre @ crlf_lines ls @ crlf @ rest) (length pre) hs =
     (foldl apply_header hs ls, length pre + length (crlf_lines ls) + 2)"
proof (induction ls arbitrary: pre hs)
  case Nil
  have "find_str crlf (pre @ crlf @ rest) (length pre) = Some (length pre)"
    using find_str_append [of CR "[]" "length pre" pre "[LF]" rest] by simp
  then show ?case by (subst parseHeaders.simps) simp
next
  case (Cons l ls)
  let ?pre = "pre @ l @ crlf"
  have "parseHeaders (pre @ crlf_lines (l # ls) @ crlf @ rest) (length pre) hs =
      parseHeaders (?pre @ crlf_lines ls @ crlf @ rest) (length ?pre) (apply_header hs l)"
    using Cons.prems parseHeaders_line [of l _ pre "crlf_lines ls @ crlf @ rest" hs] by simp
  also have "\<dots> = (foldl apply_header (apply_header hs l) ls, length ?pre + length (crlf_lines ls) + 2)"
    using Cons.prems by (intro Cons.IH) simp
  finally show ?case by simp
qed

section \<open>What the query loop computes\<close>

definition query_pieces :: "string \<Rightarrow> string list" where
  "query_pieces s =
     (let ws = split_on CHR ''&'' s in if last ws = [] then butlast ws else ws)"

definition apply_piece :: "(string \<rightharpoonup> string) \<Rightarrow> string \<Rightarrow> (string \<rightharpoonup> string)" where
  "apply_piece q p =
     (case find_char CHR ''='' p 0 of
        Some e \<Rightarrow> q(urlDecode (take e p) \<mapsto> urlDecode (drop (e + 1) p))
      | None \<Rightarrow> q(urlDecode p \<mapsto> []))"

lemma query_pieces_simps:
  "query_pieces [] = []"
  "CHR ''&'' \<notin> set s \<Longrightarrow> s \<noteq> [] \<Longrightarrow> query_pieces s = [s]"
  "CHR ''&'' \<notin> set p \<Longrightarrow> query_pieces (p @ CHR ''&'' # s) = p # query_pieces s"
  by (simp_all add: query_pieces_def Let_def split_on_absent split_on_append)

lemma parseQuery_piece:
  assumes "CHR ''&'' \<notin> set p" and len: "length s = length pre + length p \<or> s ! (length pre + length p) = CHR ''&''"
    and s: "s = pre @ p @ rest" and ne: "length pre < length s"
  shows "parseQuery_loop s (length pre) q = parseQuery_loop s (length pre + length p + 1) (apply_piece q p)"
proof -
  have amp: "(case find_char CHR ''&'' s (length pre) of None \<Rightarrow> length s | Some a \<Rightarrow> a) = length pre + length p"
  proof (cases rest)
    case Nil
    with assms(1) have "find_char CHR ''&'' s (length pre) = None"
      by (simp add: s find_char_None)
    with Nil show ?thesis by (simp add: s)
  next
    case (Cons c cs)
    with len have "c = CHR ''&''" by (auto simp: s nth_append)
    with assms(1) Cons show ?thesis by (simp add: s find_char_at)
  qed
  show ?thesis
  proof (cases "find_char CHR ''='' p 0")
    case None
    then have ne_p: "CHR ''='' \<notin> set p" by (simp add: find_char_None)
    have "\<not> e < length pre + length p" if "find_char CHR ''='' s (length pre) = Some e" for e
    proof
      assume "e < length pre + length p"
      moreover have e: "length pre \<le> e" "s ! e = CHR ''=''" using that by (auto simp: find_char_Some)
      ultimately have less: "e - length pre < length p" by linarith
      with e have "p ! (e - length pre) = CHR ''=''"
        by (auto simp: s nth_append)
      moreover note less
      ultimately have "p ! (e - length pre) = CHR ''=''" "e - length pre < length p" by blast+
      with ne_p show False by (metis nth_mem)
    qed
    then show ?thesis
      using ne None
      by (subst parseQuery_loop.simps, simp only: amp Let_def)
        (auto simp: apply_piece_def s sub_def split: option.splits)
  next
    case (Some e)
    then obtain k v where kv: "p = k @ CHR ''='' # v" "CHR ''='' \<notin> set k" "e = length k"
      by (metis find_char_append find_char_None drop_0 option.distinct(1) option.inject split_list_first)
    have "find_char CHR ''='' s (length pre) = Some (length pre + length k)"
      using kv by (simp add: s find_char_at)
    moreover have "sub s (length pre) (length k) = k"
      "sub s (length pre + length k + 1) (length p - length k - 1) = v"
      by (simp_all add: s kv sub_def)
    ultimately show ?thesis
      using ne Some kv(1,3)
      by (subst parseQuery_loop.simps, simp only: amp Let_def) (simp add: apply_piece_def)
  qed
qed

lemma parseQuery_end: "length s \<le> start \<Longrightarrow> parseQuery_loop s start q = q"
  by (subst parseQuery_loop.simps) simp

lemma parseQuery_pieces:
  "parseQuery_loop (pre @ s) (length pre) q = foldl apply_piece q (query_pieces s)"
proof (induction s arbitrary: pre q rule: length_induct)
  case (1 s)
  show ?case
  proof (cases "s = []")
    case True
    then show ?thesis by (simp add: query_pieces_simps parseQuery_end)
  next
    case False
    show ?thesis
    proof (cases "CHR ''&'' \<in> set s")
      case True
      then obtain p t where p: "s = p @ CHR ''&'' # t" "CHR ''&'' \<notin> set p"
        by (meson split_list_first)
      let ?pre = "pre @ p @ [CHR ''&'']"
      have "parseQuery_loop (pre @ s) (length pre) q = parseQuery_loop (?pre @ t) (length ?pre) (apply_piece q p)"
        using parseQuery_piece [of p "pre @ s" pre "CHR ''&'' # t" q] p by simp
      also have "\<dots> = foldl apply_piece (apply_piece q p) (query_pieces t)"
        using 1 [rule_format, of t ?pre "apply_piece q p"] p by simp
      finally show ?thesis using p by (simp add: query_pieces_simps)
    next
      case none: False
      have "parseQuery_loop (pre @ s) (length pre) q =
          parseQuery_loop (pre @ s) (length pre + length s + 1) (apply_piece q s)"
        by (rule parseQuery_piece [of _ _ _ "[]"]) (use none False in auto)
      then show ?thesis
        using none False
        by (simp add: query_pieces_simps parseQuery_end)
    qed
  qed
qed

lemma parseQueryString_pieces:
  "parseQueryString qs r = r\<lparr>req_query := foldl apply_piece (req_query r) (query_pieces qs)\<rparr>"
  using parseQuery_pieces [of "[]" qs "req_query r"]
  by (auto simp: parseQueryString_def query_pieces_simps)

section \<open>What the constructor computes\<close>

text \<open>A request message, and the parts of its target before and after the question mark.\<close>

definition http_message :: "string \<Rightarrow> string \<Rightarrow> string \<Rightarrow> string list \<Rightarrow> string \<Rightarrow> string" where
  "http_message m p v ls body = crlf_lines ((m @ '' '' @ p @ '' '' @ v) # ls) @ crlf @ body"

definition target_path :: "string \<Rightarrow> string" where
  "target_path p = (case find_char CHR ''?'' p 0 of None \<Rightarrow> p | Some q \<Rightarrow> take q p)"

definition target_query :: "string \<Rightarrow> string" where
  "target_query p = (case find_char CHR ''?'' p 0 of None \<Rightarrow> [] | Some q \<Rightarrow> drop (q + 1) p)"

definition parsed_request ::
  "string \<Rightarrow> string \<Rightarrow> string \<Rightarrow> (string \<rightharpoonup> string) \<Rightarrow> string \<Rightarrow> Request" where
  "parsed_request m p v hs body =
     \<lparr>req_method = m, req_path = p, req_normalize_path = target_path p,
      req_query_string = target_query p, req_version = v, req_mime_type = getMimeType p,
      req_body = body, req_headers = hs, req_params = Map.empty,
      req_query = foldl apply_piece Map.empty (query_pieces (target_query p))\<rparr>"

lemma parseRequestLine_parts:
  assumes "CHR '' '' \<notin> set m" "CHR '' '' \<notin> set p"
  shows "parseRequestLine (m @ '' '' @ p @ '' '' @ v) empty_request = parsed_request m p v Map.empty []"
proof -
  let ?line = "m @ '' '' @ p @ '' '' @ v"
  have m1: "find_char CHR '' '' ?line 0 = Some (length m)"
    using assms(1) by (simp add: find_char_append)
  have m2: "find_char CHR '' '' ?line (length m + 1) = Some (length m + 1 + length p)"
    using assms(2) find_char_at [of "CHR '' ''" p "length m + 1" "m @ '' ''" v] by simp
  have parts: "sub ?line 0 (length m) = m" "sub ?line (Suc (length m)) (length p) = p"
    "drop (Suc (Suc (length m + length p))) ?line = v"
    by (simp_all add: sub_def)
  have start: "sub s 0 n = take n s" for s n by (simp add: sub_def)
  show ?thesis
  proof (cases "find_char CHR ''?'' p 0")
    case None
    then show ?thesis
      using m1 m2 parts
      by (simp add: parseRequestLine_def parsed_request_def target_path_def target_query_def
          empty_request_def query_pieces_simps)
  next
    case (Some q)
    then show ?thesis
      using m1 m2 parts
      by (simp add: parseRequestLine_def parsed_request_def target_path_def target_query_def
          empty_request_def parseQueryString_pieces start)
  qed
qed

lemma Request_new_parsed:
  assumes "CHR '' '' \<notin> set m" "CHR '' '' \<notin> set p"
    and "plain_line (m @ '' '' @ p @ '' '' @ v)" "\<forall>l \<in> set ls. plain_line l"
  shows "Request_new (http_message m p v ls body) =
     parsed_request m p v (foldl apply_header Map.empty ls) body"
proof -
  let ?line = "m @ '' '' @ p @ '' '' @ v"
  let ?raw = "http_message m p v ls body"
  have raw: "?raw = (?line @ crlf) @ crlf_lines ls @ crlf @ body"
    by (simp add: http_message_def)
  have line: "find_str crlf ?raw 0 = Some (length ?line)"
    using assms(3) find_sub_append [of CR ?line "[LF]" "crlf_lines ls @ crlf @ body"]
    by (simp add: http_message_def find_str_def plain_line_def)
  have first: "sub ?raw 0 (length ?line) = ?line"
    by (simp add: http_message_def sub_def)
  have hs: "fst (parseHeaders ?raw (length ?line + 2) Map.empty) = foldl apply_header Map.empty ls"
    using parseHeaders_lines [OF assms(4), of "?line @ crlf" body Map.empty] by (simp only: raw) simp
  have blank: "find_str (crlf @ crlf) ?raw 0 = Some (length (crlf_lines (?line # ls)) - 2)"
    unfolding find_str_def http_message_def
    using find_blank_line [of "?line # ls" body] assms(3,4) by simp
  have "length (crlf_lines (?line # ls)) - 2 + 4 = length (crlf_lines (?line # ls) @ crlf)"
    by simp
  moreover have "drop (length (xs @ crlf)) (xs @ crlf @ body) = body" for xs
    by simp
  ultimately have body: "drop (length (crlf_lines (?line # ls)) - 2 + 4) ?raw = body"
    unfolding http_message_def by (simp only:)
  have empty: "req_headers (parsed_request m p v Map.empty []) = Map.empty"
    by (simp add: parsed_request_def)
  have "Request_new ?raw = (parsed_request m p v Map.empty [])
      \<lparr>req_headers := foldl apply_header Map.empty ls, req_body := body\<rparr>"
    unfolding Request_new_def line option.case first blank body Let_def
      parseRequestLine_parts [OF assms(1,2)] empty hs by (rule refl)
  also have "\<dots> = parsed_request m p v (foldl apply_header Map.empty ls) body"
    by (simp add: parsed_request_def)
  finally show ?thesis .
qed

text \<open>
  C10. A well-formed request is taken apart completely: method, target, version, the header
  lines in order (a later line for the same name wins), the decoded query parameters and the
  body, whatever bytes the body holds.
\<close>

theorem Request_new_message:
  assumes "CHR '' '' \<notin> set m" "CHR '' '' \<notin> set p"
    and "plain_line (m @ '' '' @ p @ '' '' @ v)" "\<forall>l \<in> set ls. plain_line l"
  shows "Request_new (http_message m p v ls body) =
     parsed_request m p v (foldl apply_header Map.empty ls) body"
  using assms by (rule Request_new_parsed)

theorem Request_new_message_witness:
  "Request_new (http_message ''GET'' ''/a?x=1'' ''HTTP/1.1'' [''Host: h''] ''hi'') =
     parsed_request ''GET'' ''/a?x=1'' ''HTTP/1.1'' [''Host'' \<mapsto> ''h''] ''hi''"
proof -
  have "foldl apply_header Map.empty [''Host: h''] = [''Host'' \<mapsto> ''h'']"
    by (simp add: apply_header_def header_of_line_def find_char_def)
  then show ?thesis
    using Request_new_message [of "''GET''" "''/a?x=1''" "''HTTP/1.1''" "[''Host: h'']" "''hi''"]
    by (simp add: plain_line_def)
qed

section \<open>Query strings\<close>

definition encode_query :: "(string \<times> string) list \<Rightarrow> string" where
  "encode_query kvs =
     join_with ''&'' (map (\<lambda>(k, v). url_encode k @ ''='' @ url_encode v) kvs)"

lemma url_encode_chars: "c \<in> set (url_encode s) \<Longrightarrow> c \<noteq> CHR ''&'' \<and> c \<noteq> CHR ''=''"
proof -
  assume "c \<in> set (url_encode s)"
  then obtain x where x: "c \<in> set (if unreserved x then [x] else percent x)"
    unfolding url_encode_def set_concat set_map by blast
  show ?thesis
  proof (cases "unreserved x")
    case True
    with x show ?thesis by (auto simp: unreserved_def Let_def)
  next
    case False
    have "byte_of x div 16 < 16" "byte_of x mod 16 < 16"
      by (auto intro: less_mult_imp_div_less)
    then have "charset ! (byte_of x div 16) \<in> set charset" "charset ! (byte_of x mod 16) \<in> set charset"
      by (intro nth_mem; simp add: charset_def)+
    with x False have "c \<in> insert CHR ''%'' (set charset)" by (auto simp: percent_def)
    then show ?thesis by (auto simp: charset_def)
  qed
qed

lemma urlDecode_url_encode: "urlDecode (url_encode s) = s"
proof (induction s)
  case (Cons c s)
  then show ?case
    by (cases "unreserved c")
      (simp_all add: url_encode_def urlDecode_percent urlDecode_unreserved del: urlDecode.simps(2))
qed (simp add: url_encode_def)

lemma query_pieces_join:
  "\<forall>w \<in> set ws. CHR ''&'' \<notin> set w \<and> w \<noteq> [] \<Longrightarrow> query_pieces (join_with ''&'' ws) = ws"
  by (induction "''&''" ws rule: join_with.induct) (auto simp: query_pieces_simps)

lemma apply_piece_encoded:
  "apply_piece q (url_encode k @ ''='' @ url_encode v) = q(k \<mapsto> v)"
proof -
  have "CHR ''='' \<notin> set (url_encode k)" using url_encode_chars by blast
  then show ?thesis
    by (simp add: apply_piece_def find_char_append urlDecode_url_encode)
qed

text \<open>
  C27. A query string that encodes a list of key and value pairs parses back to exactly those
  assignments, in order, for keys and values of any bytes.
\<close>
theorem parseQueryString_roundtrip:
  "req_query (parseQueryString (encode_query kvs) r) =
     foldl (\<lambda>q (k, v). q(k \<mapsto> v)) (req_query r) kvs"
proof -
  have "query_pieces (encode_query kvs) = map (\<lambda>(k, v). url_encode k @ ''='' @ url_encode v) kvs"
    unfolding encode_query_def
    by (rule query_pieces_join) (auto dest: url_encode_chars)
  moreover have "foldl apply_piece q (map (\<lambda>(k, v). url_encode k @ ''='' @ url_encode v) kvs) =
      foldl (\<lambda>q (k, v). q(k \<mapsto> v)) q kvs" for q
    by (induction kvs arbitrary: q) (auto simp: apply_piece_encoded [simplified])
  ultimately show ?thesis by (simp add: parseQueryString_pieces)
qed

end
