(* ===== verification/Router.thy ===== *)
theory Router
  imports Request
begin

text \<open>
  \<open>src/src/router.h\<close> and \<open>src/src/router.cc\<close>: the routing trie, \<open>registerHandler\<close> and
  \<open>match\<close>. A node's \<open>unordered_map\<close>s are maps; the handlers are of any type \<open>'h\<close>, since the
  router only stores and returns them. The abstract view of a trie is the table of the
  patterns registered in it, \<open>routes\<close>; \<open>registerHandler\<close> is proved to refine insertion into
  that table and \<open>match\<close> to find entries of it.
\<close>

section \<open>The trie\<close>

datatype 'h node =
  Node (static_children: "string \<Rightarrow> 'h node option")
       (param_child: "'h node option")
       (param_name: string)
       (handlers: "string \<Rightarrow> 'h option")

definition empty_node :: "'h node" where
  "empty_node = Node Map.empty None [] Map.empty"

definition splitPath :: "string \<Rightarrow> string list" where
  "splitPath path = filter (\<lambda>r. r \<noteq> []) (split_on CHR ''/'' path)"

fun set_param_name :: "string \<Rightarrow> 'h node \<Rightarrow> 'h node" where
  "set_param_name s (Node st pc pn hs) = Node st pc s hs"

text \<open>
  The fold over the parts walks down from the root with a pointer, creating the nodes that
  are missing and renaming every parameter node it passes; then \<open>try_emplace\<close> adds the
  handler unless the method is taken. Here the walk is a recursion that rebuilds the path.
\<close>

fun register_parts :: "string list \<Rightarrow> string \<Rightarrow> 'h \<Rightarrow> 'h node \<Rightarrow> int \<times> 'h node" where
  "register_parts [] method handler (Node st pc pn hs) =
     (case hs method of
        Some _ \<Rightarrow> (- 1, Node st pc pn hs)
      | None \<Rightarrow> (0, Node st pc pn (hs(method \<mapsto> handler))))"
| "register_parts (part # parts) method handler (Node st pc pn hs) =
     (if starts_with part '':'' then
        (let child = set_param_name (drop 1 part) (case pc of None \<Rightarrow> empty_node | Some c \<Rightarrow> c);
             (res, child) = register_parts parts method handler child
         in (res, Node st (Some child) pn hs))
      else
        (let child = (case st part of None \<Rightarrow> empty_node | Some c \<Rightarrow> c);
             (res, child) = register_parts parts method handler child
         in (res, Node (st(part \<mapsto> child)) pc pn hs)))"

definition registerHandler :: "string \<Rightarrow> string \<Rightarrow> 'h \<Rightarrow> 'h node \<Rightarrow> int \<times> 'h node" where
  "registerHandler method path handler root = register_parts (splitPath path) method handler root"

definition match_step :: "'h node option \<times> Request \<Rightarrow> string \<Rightarrow> 'h node option \<times> Request" where
  "match_step = (\<lambda>(current, req) part.
     case current of
       None \<Rightarrow> (None, req)
     | Some n \<Rightarrow>
         (case static_children n part of
            Some c \<Rightarrow> (Some c, req)
          | None \<Rightarrow>
              (case param_child n of
                 Some c \<Rightarrow> (Some c, setParam (param_name c) part req)
               | None \<Rightarrow> (None, req))))"

text \<open>
  \<open>match\<close> returns the handler, \<open>None\<close> for \<open>false\<close>, and the request it has written to. On
  success each query parameter is assigned to itself.
\<close>

definition match_route :: "'h node \<Rightarrow> Request \<Rightarrow> 'h option \<times> Request" where
  "match_route root req =
     (let full_path = req_path req;
          path_without_query =
            (case find_char CHR ''?'' full_path 0 of None \<Rightarrow> full_path | Some q \<Rightarrow> sub full_path 0 q);
          (final_node, req) = foldl match_step (Some root, req) (splitPath path_without_query)
      in case final_node of
           None \<Rightarrow> (None, req)
         | Some n \<Rightarrow>
             (case handlers n (req_method req) of
                None \<Rightarrow> (None, req)
              | Some h \<Rightarrow> (Some h, req\<lparr>req_query := req_query req ++ req_query req\<rparr>)))"

section \<open>The table of routes\<close>

datatype seg = Static string | Param

definition seg_of :: "string \<Rightarrow> seg" where
  "seg_of part = (if starts_with part '':'' then Param else Static part)"

definition pattern :: "string \<Rightarrow> seg list" where
  "pattern path = map seg_of (splitPath path)"

fun child_at :: "seg \<Rightarrow> 'h node \<Rightarrow> 'h node option" where
  "child_at (Static s) n = static_children n s"
| "child_at Param n = param_child n"

fun node_at :: "'h node \<Rightarrow> seg list \<Rightarrow> 'h node option" where
  "node_at n [] = Some n"
| "node_at n (s # ss) = (case child_at s n of None \<Rightarrow> None | Some c \<Rightarrow> node_at c ss)"

definition routes :: "'h node \<Rightarrow> seg list \<times> string \<Rightarrow> 'h option" where
  "routes n k = (case node_at n (fst k) of None \<Rightarrow> None | Some c \<Rightarrow> handlers c (snd k))"

lemma routes_simps:
  "routes n ([], m) = handlers n m"
  "routes n (s # ss, m) = (case child_at s n of None \<Rightarrow> None | Some c \<Rightarrow> routes c (ss, m))"
  by (simp_all add: routes_def split: option.split)

lemma routes_empty [simp]: "routes empty_node k = None"
proof (cases k)
  case (Pair ss m)
  then show ?thesis
    by (cases ss; cases "hd ss") (auto simp: routes_simps empty_node_def)
qed

lemma set_param_name_routes [simp]: "routes (set_param_name s n) k = routes n k"
proof (cases k)
  case (Pair ss m)
  have "child_at x (set_param_name s n) = child_at x n" for x
    by (cases n; cases x) auto
  with Pair show ?thesis
    by (cases ss; cases n) (auto simp: routes_simps)
qed

lemma register_parts_refines:
  "register_parts parts m h n = (res, n') \<Longrightarrow>
   routes n' = (case routes n (map seg_of parts, m) of
                  None \<Rightarrow> (routes n)((map seg_of parts, m) \<mapsto> h) | Some _ \<Rightarrow> routes n) \<and>
   res = (case routes n (map seg_of parts, m) of None \<Rightarrow> 0 | Some _ \<Rightarrow> - 1)"
proof (induction parts arbitrary: n res n')
  case Nil
  obtain st pc pn hs where n: "n = Node st pc pn hs" by (cases n)
  have "routes n' k = (if k = ([], m) then (case hs m of None \<Rightarrow> Some h | Some x \<Rightarrow> Some x) else routes n k)" for k
  proof (cases k)
    case (Pair ss m')
    have "child_at s n' = child_at s n" for s
      using Nil n by (cases s) (auto split: option.splits)
    then show ?thesis
      using Nil n Pair by (cases ss) (auto simp: routes_simps split: option.splits)
  qed
  with Nil n show ?case
    by (auto simp: routes_simps fun_eq_iff split: option.splits)
next
  case (Cons part parts)
  obtain st pc pn hs where n: "n = Node st pc pn hs" by (cases n)
  let ?s = "seg_of part"
  let ?old = "case child_at ?s n of None \<Rightarrow> empty_node | Some c \<Rightarrow> c"
  define child where "child = (if ?s = Param then set_param_name (drop 1 part) ?old else ?old)"
  obtain r c where c: "register_parts parts m h child = (r, c)" by fastforce
  have res: "res = r" and hs: "handlers n' = handlers n"
    and at: "child_at s n' = (if s = ?s then Some c else child_at s n)" for s
    using Cons.prems c n by (cases s; auto simp: seg_of_def child_def split: if_splits)+
  have old: "routes child k = (case child_at ?s n of None \<Rightarrow> None | Some d \<Rightarrow> routes d k)" for k
    by (auto simp: child_def split: option.split)
  have here: "routes n (?s # ss, m') = routes child (ss, m')" for ss m'
    unfolding old by (simp add: routes_simps)
  have nil: "routes n' ([], m') = routes n ([], m')" for m'
    by (simp add: routes_simps hs)
  have cons: "routes n' (s # ss, m') = (if s = ?s then routes c (ss, m') else routes n (s # ss, m'))"
    for s ss m' by (simp add: routes_simps at)
  have "routes n' (ss, m') =
      (if (ss, m') = (?s # map seg_of parts, m) then
         (case routes n (?s # map seg_of parts, m) of None \<Rightarrow> Some h | Some x \<Rightarrow> Some x)
       else routes n (ss, m'))" for ss m'
    using Cons.IH [OF c] by (cases ss) (auto simp: nil cons here split: option.splits)
  then show ?case
    using Cons.IH [OF c] res by (auto simp: fun_eq_iff here split: option.splits)
qed

section \<open>The registration interface\<close>

text \<open>
  What a client of a route table may rely on: an addition under a free key succeeds and adds
  just that entry, an addition under a taken key fails and changes no entry.
\<close>

locale route_table =
  fixes table :: "'t \<Rightarrow> 'k \<Rightarrow> 'h option"
    and key :: "'p \<Rightarrow> 'k"
    and add :: "'p \<Rightarrow> 'h \<Rightarrow> 't \<Rightarrow> int \<times> 't"
  assumes add_free: "table t (key p) = None \<Longrightarrow>
      fst (add p h t) = 0 \<and> table (snd (add p h t)) = (table t)(key p \<mapsto> h)"
    and add_taken: "table t (key p) = Some x \<Longrightarrow>
      fst (add p h t) = - 1 \<and> table (snd (add p h t)) = table t"
begin

lemma add_result: "fst (add p h t) = 0 \<longleftrightarrow> table t (key p) = None"
  using add_free [of t p h] add_taken [of t p _ h] by (cases "table t (key p)") auto

lemma table_add:
  "table (snd (add p h t)) k =
     (if k = key p \<and> table t k = None then Some h else table t k)"
  using add_free [of t p h] add_taken [of t p _ h] by (cases "table t (key p)") auto

lemma add_keeps: "table t k = Some x \<Longrightarrow> table (snd (add p h t)) k = Some x"
  by (simp add: table_add)

text \<open>Of several registrations under one key the first one stays.\<close>

lemma add_all:
  "table (fold (\<lambda>(p, h) t. snd (add p h t)) phs t) k =
     (case table t k of
        Some x \<Rightarrow> Some x
      | None \<Rightarrow> map_of (map (\<lambda>(p, h). (key p, h)) phs) k)"
  by (induction phs arbitrary: t) (auto simp: table_add split: option.splits)

end

interpretation router: route_table routes "\<lambda>(m, p). (pattern p, m)" "\<lambda>(m, p) h t. registerHandler m p h t"
proof
  fix t :: "'a node" and p :: "string \<times> string" and h x
  obtain m q where p: "p = (m, q)" by (cases p)
  obtain r t' where r: "registerHandler m q h t = (r, t')" by fastforce
  note refines = register_parts_refines [OF r [unfolded registerHandler_def], folded pattern_def]
  show "routes t (case p of (m, p) \<Rightarrow> (pattern p, m)) = None \<Longrightarrow>
      fst ((case p of (m, p) \<Rightarrow> registerHandler m p) h t) = 0 \<and>
      routes (snd ((case p of (m, p) \<Rightarrow> registerHandler m p) h t)) =
        (routes t)((case p of (m, p) \<Rightarrow> (pattern p, m)) \<mapsto> h)"
    using refines by (simp add: p r)
  show "routes t (case p of (m, p) \<Rightarrow> (pattern p, m)) = Some x \<Longrightarrow>
      fst ((case p of (m, p) \<Rightarrow> registerHandler m p) h t) = - 1 \<and>
      routes (snd ((case p of (m, p) \<Rightarrow> registerHandler m p) h t)) = routes t"
    using refines by (simp add: p r)
qed

section \<open>What match finds\<close>

fun seg_matches :: "seg \<Rightarrow> string \<Rightarrow> bool" where
  "seg_matches (Static s) part = (part = s)"
| "seg_matches Param part = True"

fun greedy :: "'h node \<Rightarrow> string list \<Rightarrow> seg list option" where
  "greedy n [] = Some []"
| "greedy n (s # ss) =
     (case static_children n s of
        Some c \<Rightarrow> map_option ((#) (Static s)) (greedy c ss)
      | None \<Rightarrow>
          (case param_child n of
             Some c \<Rightarrow> map_option ((#) Param) (greedy c ss)
           | None \<Rightarrow> None))"

text \<open>The parameter values a walk along a pattern binds.\<close>

fun bindings :: "'h node \<Rightarrow> seg list \<Rightarrow> string list \<Rightarrow> (string \<times> string) list" where
  "bindings n (x # xs) (s # ss) =
     (case child_at x n of
        None \<Rightarrow> []
      | Some c \<Rightarrow> (if x = Param then [(param_name c, s)] else []) @ bindings c xs ss)"
| "bindings n _ _ = []"

text \<open>No static child stands in the way of a parameter of the pattern.\<close>

fun unshadowed :: "'h node \<Rightarrow> seg list \<Rightarrow> string list \<Rightarrow> bool" where
  "unshadowed n (x # xs) (s # ss) =
     ((x = Param \<longrightarrow> static_children n s = None) \<and>
      (case child_at x n of None \<Rightarrow> True | Some c \<Rightarrow> unshadowed c xs ss))"
| "unshadowed n _ _ = True"

definition set_params :: "(string \<times> string) list \<Rightarrow> Request \<Rightarrow> Request" where
  "set_params = fold (\<lambda>(k, v). setParam k v)"

lemma set_params_simps [simp]:
  "set_params [] r = r" "set_params ((k, v) # kvs) r = set_params kvs (setParam k v r)"
  by (simp_all add: set_params_def)

lemma set_params_frame [simp]:
  "req_method (set_params kvs r) = req_method r" "req_path (set_params kvs r) = req_path r"
  "req_query (set_params kvs r) = req_query r"
  by (induction kvs arbitrary: r) auto

lemma match_step_simps [simp]:
  "match_step (None, req) s = (None, req)"
  "match_step (Some n, req) s =
     (case static_children n s of
        Some c \<Rightarrow> (Some c, req)
      | None \<Rightarrow>
          (case param_child n of
             Some c \<Rightarrow> (Some c, setParam (param_name c) s req)
           | None \<Rightarrow> (None, req)))"
  by (simp_all add: match_step_def)

lemma foldl_match_None: "fst (foldl match_step (None, req) ss) = None"
  by (induction ss arbitrary: req) auto

lemma foldl_match_Some:
  "greedy n ss = Some p \<Longrightarrow>
   foldl match_step (Some n, req) ss = (node_at n p, set_params (bindings n p ss) req)"
  by (induction ss arbitrary: n p req) (auto split: option.splits)

lemma foldl_match_stuck:
  "greedy n ss = None \<Longrightarrow> fst (foldl match_step (Some n, req) ss) = None"
  by (induction ss arbitrary: n req)
    (auto simp: foldl_match_None split: option.splits)

lemma greedy_matches: "greedy n ss = Some p \<Longrightarrow> list_all2 seg_matches p ss"
  by (induction ss arbitrary: n p) (auto split: option.splits)

lemma greedy_unshadowed:
  "node_at n p = Some c \<Longrightarrow> list_all2 seg_matches p ss \<Longrightarrow> unshadowed n p ss \<Longrightarrow> greedy n ss = Some p"
proof (induction p arbitrary: n ss)
  case (Cons x xs)
  then obtain s ss' where ss: "ss = s # ss'" by (cases ss) auto
  with Cons show ?case by (cases x) (auto split: option.splits)
qed auto

definition request_parts :: "Request \<Rightarrow> string list" where
  "request_parts req = splitPath (target_path (req_path req))"

lemma match_route_eq:
  "match_route root req =
     (case greedy root (request_parts req) of
        None \<Rightarrow> (None, snd (foldl match_step (Some root, req) (request_parts req)))
      | Some p \<Rightarrow>
          (routes root (p, req_method req),
           set_params (bindings root p (request_parts req)) req))"
proof -
  have path: "(case find_char CHR ''?'' (req_path req) 0 of None \<Rightarrow> req_path req
      | Some q \<Rightarrow> sub (req_path req) 0 q) = target_path (req_path req)"
    by (simp add: target_path_def sub_def split: option.split)
  show ?thesis
  proof (cases "greedy root (request_parts req)")
    case None
    obtain r where "foldl match_step (Some root, req) (request_parts req) = (None, r)"
      using foldl_match_stuck [OF None] by (metis fst_conv surj_pair)
    with None show ?thesis
      by (simp add: match_route_def path request_parts_def)
  next
    case (Some p)
    have self: "m ++ m = m" for m :: "string \<rightharpoonup> string"
      by (auto simp: map_add_def fun_eq_iff split: option.split)
    show ?thesis
      using foldl_match_Some [OF Some, of req] Some
      by (simp add: match_route_def path request_parts_def routes_def Let_def self split: option.split)
  qed
qed

lemma bindings_static: "bindings n (map Static ss) ss = []"
  by (induction ss arbitrary: n) (auto split: option.split)

lemma static_matches: "list_all2 seg_matches (map Static ss) ss"
  by (induction ss) auto

lemma static_unshadowed: "unshadowed n (map Static ss) ss"
  by (induction ss arbitrary: n) (auto split: option.split)

lemma match_route_found:
  assumes "routes root (p, req_method req) = Some h" "list_all2 seg_matches p (request_parts req)"
    and "unshadowed root p (request_parts req)"
  shows "match_route root req = (Some h, set_params (bindings root p (request_parts req)) req)"
proof -
  obtain c where "node_at root p = Some c"
    using assms(1) by (auto simp: routes_def split: option.splits)
  with assms show ?thesis
    using greedy_unshadowed [of root p c "request_parts req"] by (simp add: match_route_eq)
qed

section \<open>Properties\<close>

text \<open>
  C11. Registration refines insertion into the table of routes: a new pattern and method is
  added and reported with 0, a taken one is reported with -1 and keeps its first handler, and
  no other route changes.
\<close>
theorem registerHandler_refines:
  "fst (registerHandler m p h t) = (if routes t (pattern p, m) = None then 0 else - 1) \<and>
   routes (snd (registerHandler m p h t)) =
     (if routes t (pattern p, m) = None then (routes t)((pattern p, m) \<mapsto> h) else routes t)"
  using router.add_free [of t "(m, p)" h] router.add_taken [of t "(m, p)" _ h]
  by auto

text \<open>
  C13. Whatever \<open>match\<close> returns was registered: the handler stands in the table under the
  request's method and a pattern that the path matches segment by segment, and the request
  has gained exactly the parameters that walk binds.
\<close>
theorem match_route_sound:
  assumes "match_route root req = (Some h, req')"
  shows "\<exists>p. list_all2 seg_matches p (request_parts req) \<and>
     routes root (p, req_method req) = Some h \<and>
     req' = set_params (bindings root p (request_parts req)) req"
  using assms greedy_matches
  by (auto simp: match_route_eq split: option.splits)

lemma static_route_match:
  assumes "routes t (pattern p, m) = Some h" and "\<forall>s \<in> set (splitPath p). \<not> starts_with s '':''"
    and "req_method req = m" and "target_path (req_path req) = p"
  shows "match_route t req = (Some h, req)"
proof -
  have "pattern p = map Static (splitPath p)"
    using assms(2) by (simp add: pattern_def seg_of_def)
  then show ?thesis
    using match_route_found [of t "map Static (splitPath p)" req h] assms(1,3,4)
    by (simp add: request_parts_def static_matches static_unshadowed bindings_static)
qed

lemma registered_route:
  "registerHandler m p h t = (0, t') \<Longrightarrow> routes t' (pattern p, m) = Some h"
  using router.table_add [of "(m, p)" h t "(pattern p, m)"] router.add_result [of "(m, p)" h t]
  by simp

text \<open>
  C12. A route that was registered without parameters is found for its own path whatever else
  is registered before or after it: no other pattern can shadow it, and no parameter is set.
\<close>

theorem static_route_found:
  assumes "registerHandler m p h t = (0, t')" and "\<forall>s \<in> set (splitPath p). \<not> starts_with s '':''"
    and "req_method req = m" and "target_path (req_path req) = p"
  shows "match_route (fold (\<lambda>((m, p), h) t. snd (registerHandler m p h t)) later t') req = (Some h, req)"
proof (rule static_route_match [OF _ assms(2-4)])
  show "routes (fold (\<lambda>((m, p), h) t. snd (registerHandler m p h t)) later t') (pattern p, m) = Some h"
    using router.add_all [where t = t' and phs = later and k = "(pattern p, m)"] registered_route [OF assms(1)]
    by (simp add: case_prod_unfold)
qed

definition get_request :: "string \<Rightarrow> Request" where
  "get_request path = setPath path (setMethod ''GET'' empty_request)"

lemma get_request_simps [simp]:
  "req_method (get_request p) = ''GET''" "req_path (get_request p) = p"
  "req_params (get_request p) = Map.empty"
  by (simp_all add: get_request_def setPath_def setMethod_def empty_request_def)

lemmas router_eval =
  registerHandler_def splitPath_def starts_with_def empty_node_def target_path_def
  find_char_def pattern_def seg_of_def request_parts_def

theorem match_route_sound_witness:
  "\<exists>p. list_all2 seg_matches p [''a'', ''b''] \<and>
     routes (snd (registerHandler ''GET'' ''/a/:x'' (7 :: nat) empty_node)) (p, ''GET'') = Some 7"
proof -
  let ?t = "snd (registerHandler ''GET'' ''/a/:x'' (7 :: nat) empty_node)"
  have "fst (match_route ?t (get_request ''/a/b'')) = Some 7"
    by (simp add: match_route_eq router_eval routes_simps)
  then obtain r where r: "match_route ?t (get_request ''/a/b'') = (Some 7, r)"
    by (metis prod.collapse)
  have "request_parts (get_request ''/a/b'') = [''a'', ''b'']"
    by (simp add: router_eval)
  with match_route_sound [OF r] show ?thesis by auto
qed

theorem static_route_found_witness:
  "match_route (snd (registerHandler ''GET'' ''/:x'' 8 (snd (registerHandler ''GET'' ''/a'' (7 :: nat) empty_node))))
     (get_request ''/a'') = (Some 7, get_request ''/a'')"
  using static_route_found [of "''GET''" "''/a''" 7 empty_node "snd (registerHandler ''GET'' ''/a'' 7 empty_node)"
      "get_request ''/a''" "[((''GET'', ''/:x''), 8)]"]
  by (simp add: router_eval)

subsection \<open>Parameters\<close>

definition param_values :: "string list \<Rightarrow> string list \<Rightarrow> (string \<times> string) list" where
  "param_values parts ss =
     concat (map2 (\<lambda>p s. if starts_with p '':'' then [(drop 1 p, s)] else []) parts ss)"

lemma unshadowed_empty: "unshadowed empty_node p ss"
  by (cases p; cases ss; cases "hd p") (auto simp: empty_node_def)

lemma set_param_name_walk [simp]:
  "param_name (set_param_name s n) = s" "unshadowed (set_param_name s n) p ss = unshadowed n p ss"
  "bindings (set_param_name s n) p ss = bindings n p ss"
proof -
  have c: "child_at x (set_param_name s n) = child_at x n" "static_children (set_param_name s n) = static_children n" for x
    by (cases n; cases x; simp)+
  show "param_name (set_param_name s n) = s" by (cases n) simp
  show "unshadowed (set_param_name s n) p ss = unshadowed n p ss" by (cases p; cases ss) (simp_all add: c)
  show "bindings (set_param_name s n) p ss = bindings n p ss" by (cases p; cases ss) (simp_all add: c)
qed

text \<open>
  Registering a pattern gives every parameter node on its way the pattern's name, and puts no static
  child beside one.
\<close>

lemma register_parts_params:
  "list_all2 seg_matches (map seg_of parts) ss \<Longrightarrow> register_parts parts m h n = (res, n') \<Longrightarrow>
   (unshadowed n' (map seg_of parts) ss \<longleftrightarrow> unshadowed n (map seg_of parts) ss) \<and>
   bindings n' (map seg_of parts) ss = param_values parts ss \<and> param_name n' = param_name n"
proof (induction parts arbitrary: n n' res ss)
  case Nil
  then show ?case by (cases n) (auto simp: param_values_def split: option.splits)
next
  case (Cons part parts)
  obtain st pc pn hs where n: "n = Node st pc pn hs" by (cases n)
  obtain s ss' where ss: "ss = s # ss'" "list_all2 seg_matches (map seg_of parts) ss'"
    using Cons.prems(1) by (cases ss) auto
  show ?case
  proof (cases "starts_with part '':''")
    case True
    let ?c = "case pc of None \<Rightarrow> empty_node | Some c \<Rightarrow> c"
    obtain r c where c: "register_parts parts m h (set_param_name (drop 1 part) ?c) = (r, c)" by fastforce
    then have "n' = Node st (Some c) pn hs" using Cons.prems(2) n True by (simp add: Let_def)
    with Cons.IH [OF ss(2) c] True n ss(1) show ?thesis
      by (simp add: seg_of_def param_values_def unshadowed_empty split: option.split)
  next
    case False
    let ?c = "case st part of None \<Rightarrow> empty_node | Some c \<Rightarrow> c"
    obtain r c where c: "register_parts parts m h ?c = (r, c)" by fastforce
    then have "n' = Node (st(part \<mapsto> c)) pc pn hs" using Cons.prems(2) n False by (simp add: Let_def)
    with Cons.IH [OF ss(2) c] False n ss(1) show ?thesis
      by (simp add: seg_of_def param_values_def unshadowed_empty split: option.split)
  qed
qed

text \<open>
  C14. A route registered in any router where its pattern and method are free matches every path with
  the right static segments, and each \<open>:name\<close> segment of the pattern becomes a parameter of the request
  under that name, as long as no static segment registered at the place of one of its parameters
  stands in the path there, and until a later registration adds such a segment or renames a parameter.
\<close>
theorem registered_route_params:
  assumes "routes t (pattern p, req_method req) = None" "list_all2 seg_matches (pattern p) (request_parts req)"
    and "unshadowed t (pattern p) (request_parts req)"
  shows "match_route (snd (registerHandler (req_method req) p h t)) req =
     (Some h, set_params (param_values (splitPath p) (request_parts req)) req)"
proof -
  obtain res t' where t': "registerHandler (req_method req) p h t = (res, t')" by fastforce
  have "routes t' (pattern p, req_method req) = Some h"
    using router.add_free [of t "(req_method req, p)" h] assms(1) t' by simp
  then show ?thesis
    using match_route_found [of t' "pattern p" req h] assms(2,3) t'
      register_parts_params [of "splitPath p" "request_parts req" "req_method req" h t res t']
    by (simp add: registerHandler_def pattern_def)
qed

text \<open>The witness: a route beside a static one and one for another method.\<close>

definition users_router :: "nat node" where
  "users_router = snd (registerHandler ''POST'' ''/users/:name'' 1 (snd (registerHandler ''GET'' ''/users/me'' 0 empty_node)))"

theorem registered_route_params_witness:
  "req_params (snd (match_route (snd (registerHandler ''GET'' ''/users/:id'' 2 users_router))
     (get_request ''/users/42?full=1''))) ''id'' = Some ''42'' \<and>
   fst (match_route (snd (registerHandler ''GET'' ''/users/:id'' 2 users_router)) (get_request ''/users/42?full=1'')) = Some 2"
  using registered_route_params [of users_router "''/users/:id''" "get_request ''/users/42?full=1''" 2]
  by (simp add: users_router_def router_eval routes_simps param_values_def setParam_def)

subsection \<open>Limits of the trie\<close>

definition two_routes :: "string \<Rightarrow> string \<Rightarrow> nat node" where
  "two_routes p q = snd (registerHandler ''GET'' q 2 (snd (registerHandler ''GET'' p 1 empty_node)))"

text \<open>
  The walk never goes back: a static sibling hides a registered parameter route. With
  \<open>/users/me\<close> and \<open>/users/:id/posts\<close> registered, \<open>/users/me/posts\<close> matches the second
  pattern and is in the table, but \<open>match\<close> fails.
\<close>
lemma static_sibling_hides_route:
  "routes (two_routes ''/users/me'' ''/users/:id/posts'') (pattern ''/users/:id/posts'', ''GET'') = Some 2 \<and>
   list_all2 seg_matches (pattern ''/users/:id/posts'') (request_parts (get_request ''/users/me/posts'')) \<and>
   fst (match_route (two_routes ''/users/me'' ''/users/:id/posts'') (get_request ''/users/me/posts'')) = None"
  by (simp add: two_routes_def match_route_eq router_eval routes_simps)

text \<open>
  Parameter names belong to the node, not to the route: registering
  \<open>/users/:name/posts\<close> after \<open>/users/:id\<close> renames the parameter of the first route, whose
  handler then finds no \<open>id\<close>.
\<close>
lemma later_route_renames_parameter:
  "fst (match_route (two_routes ''/users/:id'' ''/users/:name/posts'') (get_request ''/users/5'')) = Some 1 \<and>
   req_params (snd (match_route (two_routes ''/users/:id'' ''/users/:name/posts'') (get_request ''/users/5''))) =
     [''name'' \<mapsto> ''5'']"
  by (simp add: two_routes_def match_route_eq router_eval routes_simps setParam_def)

end
