(* ===== verification/Response.thy ===== *)
theory Response
  imports Wire_Text
begin

text \<open>
  \<open>src/src/status.h\<close>, \<open>src/src/response.h\<close> and \<open>src/src/response.cc\<close>: status codes and
  their status lines, content types, and the \<open>Response\<close> class with its headers (a
  \<open>std::map\<close>, so kept sorted), its setters and streaming operators, and \<open>build\<close>.

  \<open>content_type_\<close> has no initialiser. The constructors take the value that happens to be
  there as an argument, \<open>None\<close> when it is none of the enumerators, and every statement holds
  for all of them. Files are read through the parameter \<open>fs\<close>: \<open>fs p\<close> is the content of the
  file at \<open>p\<close>, or \<open>None\<close> where it cannot be opened.
\<close>

section \<open>Status codes\<close>

datatype Status =
    S_continue | S_switching_protocol | S_processing | S_early_hints
  | S_ok | S_created | S_accepted | S_non_authoritative_information | S_no_content
  | S_reset_content | S_partial_content | S_multi_status | S_already_reported
  | S_multiple_choices | S_moved_permanently | S_moved_temporarily | S_not_modified
  | S_use_proxy | S_unused | S_temporary_tedirect | S_permanent_redirect
  | S_bad_request | S_unauthorized | S_forbidden | S_not_found | S_method_not_allowed
  | S_not_acceptable | S_proxy_authentication_required | S_request_timeout | S_conflict
  | S_gone | S_length_required | S_precondition_failed | S_payload_too_large | S_uri_too_long
  | S_unsupported_media_type | S_range_not_satisfiable | S_expectation_failed | S_im_A_teapot
  | S_misdirected_request | S_unprocessable_content | S_locked | S_failed_dependency
  | S_too_early | S_upgrade_required | S_precondition_required | S_too_many_requests
  | S_request_header_fields_too_large | S_unavailable_for_legal_reasons
  | S_internal_server_error | S_not_implemented | S_bad_gateway | S_service_unavailable
  | S_gateway_timeout | S_http_version_not_supported | S_variant_also_negotiates
  | S_insufficient_storage | S_loop_detected | S_not_extended
  | S_network_authentication_required

fun status_code :: "Status \<Rightarrow> nat" where
  "status_code S_continue = 100"
| "status_code S_switching_protocol = 101"
| "status_code S_processing = 102"
| "status_code S_early_hints = 103"
| "status_code S_ok = 200"
| "status_code S_created = 201"
| "status_code S_accepted = 202"
| "status_code S_non_authoritative_information = 203"
| "status_code S_no_content = 204"
| "status_code S_reset_content = 205"
| "status_code S_partial_content = 206"
| "status_code S_multi_status = 207"
| "status_code S_already_reported = 208"
| "status_code S_multiple_choices = 300"
| "status_code S_moved_permanently = 301"
| "status_code S_moved_temporarily = 302"
| "status_code S_not_modified = 304"
| "status_code S_use_proxy = 305"
| "status_code S_unused = 306"
| "status_code S_temporary_tedirect = 307"
| "status_code S_permanent_redirect = 308"
| "status_code S_bad_request = 400"
| "status_code S_unauthorized = 401"
| "status_code S_forbidden = 403"
| "status_code S_not_found = 404"
| "status_code S_method_not_allowed = 405"
| "status_code S_not_acceptable = 406"
| "status_code S_proxy_authentication_required = 407"
| "status_code S_request_timeout = 408"
| "status_code S_conflict = 409"
| "status_code S_gone = 410"
| "status_code S_length_required = 411"
| "status_code S_precondition_failed = 412"
| "status_code S_payload_too_large = 413"
| "status_code S_uri_too_long = 414"
| "status_code S_unsupported_media_type = 415"
| "status_code S_range_not_satisfiable = 416"
| "status_code S_expectation_failed = 417"
| "status_code S_im_A_teapot = 418"
| "status_code S_misdirected_request = 421"
| "status_code S_unprocessable_content = 422"
| "status_code S_locked = 423"
| "status_code S_failed_dependency = 424"
| "status_code S_too_early = 425"
| "status_code S_upgrade_required = 426"
| "status_code S_precondition_required = 428"
| "status_code S_too_many_requests = 429"
| "status_code S_request_header_fields_too_large = 431"
| "status_code S_unavailable_for_legal_reasons = 451"
| "status_code S_internal_server_error = 500"
| "status_code S_not_implemented = 501"
| "status_code S_bad_gateway = 502"
| "status_code S_service_unavailable = 503"
| "status_code S_gateway_timeout = 504"
| "status_code S_http_version_not_supported = 505"
| "status_code S_variant_also_negotiates = 506"
| "status_code S_insufficient_storage = 507"
| "status_code S_loop_detected = 508"
| "status_code S_not_extended = 510"
| "status_code S_network_authentication_required = 511"

text \<open>The sixteen status lines of \<open>namespace statusToStrings\<close>; each ends with CR LF.\<close>

definition line_of :: "string \<Rightarrow> string" where
  "line_of s = ''HTTP/1.0 '' @ s @ crlf"

fun statusToString :: "Status \<Rightarrow> string" where
  "statusToString S_ok = line_of ''200 OK''"
| "statusToString S_created = line_of ''201 Created''"
| "statusToString S_accepted = line_of ''202 Accepted''"
| "statusToString S_no_content = line_of ''204 No Content''"
| "statusToString S_multiple_choices = line_of ''300 Multiple Choices''"
| "statusToString S_moved_permanently = line_of ''301 Moved Permanently''"
| "statusToString S_moved_temporarily = line_of ''302 Moved Temporarily''"
| "statusToString S_not_modified = line_of ''304 Not Modified''"
| "statusToString S_bad_request = line_of ''400 Bad Request''"
| "statusToString S_unauthorized = line_of ''401 Unauthorized''"
| "statusToString S_forbidden = line_of ''403 Forbidden''"
| "statusToString S_not_found = line_of ''404 Not Found''"
| "statusToString S_internal_server_error = line_of ''500 Internal Server Error''"
| "statusToString S_not_implemented = line_of ''501 Not Implemented''"
| "statusToString S_bad_gateway = line_of ''502 Bad Gateway''"
| "statusToString S_service_unavailable = line_of ''503 Service Unavailable''"
| "statusToString _ = line_of ''500 Internal Server Error''"

section \<open>Content types\<close>

datatype ContentType =
    HTML | CSS | JAVASCRIPT | JPEG | PNG | XML | JSON | PLAIN_TEXT | GIF | SVG | PDF
  | MP3 | MP4 | WEBM | WOFF2 | TTF | EOT | SSE | UNKNOWN

fun ContentTypeToString :: "ContentType option \<Rightarrow> string" where
  "ContentTypeToString (Some JSON) = ''application/json''"
| "ContentTypeToString (Some HTML) = ''text/html''"
| "ContentTypeToString (Some PLAIN_TEXT) = ''text/plain; charset=utf-8''"
| "ContentTypeToString (Some CSS) = ''text/css''"
| "ContentTypeToString (Some JAVASCRIPT) = ''text/javascript''"
| "ContentTypeToString (Some JPEG) = ''image/jpeg''"
| "ContentTypeToString (Some PNG) = ''image/png''"
| "ContentTypeToString (Some GIF) = ''image/gif''"
| "ContentTypeToString (Some SVG) = ''image/svg+xml''"
| "ContentTypeToString (Some PDF) = ''application/pdf''"
| "ContentTypeToString (Some MP3) = ''audio/mpeg''"
| "ContentTypeToString (Some MP4) = ''video/mp4''"
| "ContentTypeToString (Some WEBM) = ''video/webm''"
| "ContentTypeToString (Some WOFF2) = ''font/woff2''"
| "ContentTypeToString (Some TTF) = ''font/ttf''"
| "ContentTypeToString (Some EOT) = ''application/vnd.ms-fontobject''"
| "ContentTypeToString (Some XML) = ''application/xml''"
| "ContentTypeToString (Some SSE) = ''text/event-stream''"
| "ContentTypeToString (Some UNKNOWN) = ''application/octet-stream''"
| "ContentTypeToString None = ''application/octet-stream''"

section \<open>The response\<close>

record Response =
  res_status :: Status
  res_content_type :: "ContentType option"
  res_content :: string
  res_version :: string
  res_static_directory :: string
  res_headers :: "(string \<times> string) list"
  res_sockfd :: int
  res_ssl :: "nat option"

definition setHeader :: "string \<Rightarrow> string \<Rightarrow> Response \<Rightarrow> Response" where
  "setHeader key val r = r\<lparr>res_headers := map_set key val (res_headers r)\<rparr>"

definition blank_response :: "ContentType option \<Rightarrow> int \<Rightarrow> Response" where
  "blank_response g fd =
     \<lparr>res_status = S_ok, res_content_type = g, res_content = [], res_version = [],
      res_static_directory = [], res_headers = [], res_sockfd = fd, res_ssl = None\<rparr>"

definition Response_default :: "ContentType option \<Rightarrow> int \<Rightarrow> Response" where
  "Response_default g fd = setHeader ''Connection'' ''keep-alive'' (blank_response g fd)"

definition Response_new :: "(string \<times> string) list \<Rightarrow> int \<Rightarrow> ContentType option \<Rightarrow> Response" where
  "Response_new default_headers sockfd g =
     setHeader ''Connection'' ''keep-alive''
       (fold (\<lambda>(k, v). setHeader k v) default_headers (blank_response g sockfd))"

text \<open>The constructor for a TLS connection leaves the descriptor uninitialised: \<open>fd\<close>.\<close>

definition Response_new_ssl ::
  "(string \<times> string) list \<Rightarrow> nat option \<Rightarrow> ContentType option \<Rightarrow> int \<Rightarrow> Response" where
  "Response_new_ssl default_headers ssl g fd =
     setHeader ''Connection'' ''keep-alive''
       (fold (\<lambda>(k, v). setHeader k v) default_headers ((blank_response g fd)\<lparr>res_ssl := ssl\<rparr>))"

definition setContent :: "ContentType \<Rightarrow> Status \<Rightarrow> string \<Rightarrow> Response \<Rightarrow> Response" where
  "setContent t s c r = r\<lparr>res_status := s, res_content_type := Some t, res_content := c\<rparr>"

definition setContentType :: "ContentType \<Rightarrow> Response \<Rightarrow> Response" where
  "setContentType t r = r\<lparr>res_content_type := Some t\<rparr>"

definition setStatus :: "Status \<Rightarrow> Response \<Rightarrow> Response" where
  "setStatus s r = r\<lparr>res_status := s\<rparr>"

definition put_type :: "ContentType \<Rightarrow> Response \<Rightarrow> Response" where
  "put_type t r = r\<lparr>res_content_type := Some t\<rparr>"

definition put_status :: "Status \<Rightarrow> Response \<Rightarrow> Response" where
  "put_status s r = r\<lparr>res_status := s\<rparr>"

definition put_content :: "string \<Rightarrow> Response \<Rightarrow> Response" where
  "put_content c r = r\<lparr>res_content := res_content r @ c\<rparr>"

definition put_number :: "int \<Rightarrow> Response \<Rightarrow> Response" where
  "put_number n r = r\<lparr>res_content := res_content r @
     (if n < 0 then ''-'' @ to_string (nat (- n)) else to_string (nat n))\<rparr>"

definition setStaticDirectory :: "string \<Rightarrow> Response \<Rightarrow> Response" where
  "setStaticDirectory d r = r\<lparr>res_static_directory := d\<rparr>"

definition readFile :: "(string \<rightharpoonup> string) \<Rightarrow> string \<Rightarrow> string" where
  "readFile fs path = (case fs path of None \<Rightarrow> [] | Some content \<Rightarrow> content)"

subsection \<open>build\<close>

definition load_content :: "(string \<rightharpoonup> string) \<Rightarrow> Response \<Rightarrow> Response" where
  "load_content fs r =
     (if res_content_type r = Some HTML \<and> ends_with (res_content r) ''.html''
      then r\<lparr>res_content := readFile fs (res_static_directory r @ ''/'' @ res_content r)\<rparr>
      else r)"

definition add_type_headers :: "Response \<Rightarrow> Response" where
  "add_type_headers r =
     (if map_of (res_headers r) ''Content-Type'' = None
      then (let r = setHeader ''Content-Type'' (ContentTypeToString (res_content_type r)) r
            in if res_content_type r = Some SSE then setHeader ''Cache-Control'' ''no-cache'' r else r)
      else r)"

definition add_length_header :: "bool \<Rightarrow> Response \<Rightarrow> Response" where
  "add_length_header chunked r =
     (if \<not> chunked \<and> map_of (res_headers r) ''Content-Length'' = None
      then setHeader ''Content-Length'' (to_string (length (res_content r))) r else r)"

definition header_text :: "string \<times> string \<Rightarrow> string" where
  "header_text h = fst h @ '': '' @ snd h @ crlf"

definition build :: "(string \<rightharpoonup> string) \<Rightarrow> bool \<Rightarrow> Response \<Rightarrow> string option \<times> Response" where
  "build fs chunked r =
     (if res_content r = [] then (None, r)
      else (let body = statusToString (res_status r);
                r = load_content fs r;
                r = add_type_headers r;
                r = add_length_header chunked r;
                body = body @ concat (map header_text (res_headers r));
                body = body @ crlf @ res_content r
            in (Some body, r)))"

text \<open>
  \<open>stream\<close> sends one event: \<open>send fd data\<close> is what the system call returns.
\<close>

definition stream ::
  "(string \<rightharpoonup> string) \<Rightarrow> (int \<Rightarrow> string \<Rightarrow> int) \<Rightarrow> string \<Rightarrow> Response \<Rightarrow> bool \<times> Response" where
  "stream fs send c r =
     (let r = r\<lparr>res_content := c, res_content_type := Some SSE\<rparr>
      in case build fs True r of
           (None, r) \<Rightarrow> (False, r)
         | (Some data, r) \<Rightarrow> (send (res_sockfd r) data = int (length data), r))"

text \<open>The same in a build with TLS, where the event goes to \<open>SSL_write\<close>.\<close>

definition stream_ssl ::
  "(string \<rightharpoonup> string) \<Rightarrow> (nat option \<Rightarrow> string \<Rightarrow> int) \<Rightarrow> string \<Rightarrow> Response \<Rightarrow> bool \<times> Response" where
  "stream_ssl fs ssl_write c r =
     (let r = r\<lparr>res_content := c, res_content_type := Some SSE\<rparr>
      in case build fs True r of
           (None, r) \<Rightarrow> (False, r)
         | (Some data, r) \<Rightarrow> (ssl_write (res_ssl r) data = int (length data), r))"

section \<open>The headers as a keyed store\<close>

interpretation response_headers: keyed_store "\<lambda>r. map_of (res_headers r)" setHeader "\<lambda>r. map_ok (res_headers r)"
  by unfold_locales (simp_all add: setHeader_def map_of_map_set map_ok_map_set)

lemma setHeader_frame [simp]:
  "res_status (setHeader k v r) = res_status r"
  "res_content (setHeader k v r) = res_content r"
  "res_content_type (setHeader k v r) = res_content_type r"
  "res_static_directory (setHeader k v r) = res_static_directory r"
  "res_sockfd (setHeader k v r) = res_sockfd r"
  by (simp_all add: setHeader_def)

lemma setHeader_update [simp]:
  "setHeader k v r = r\<lparr>res_headers := map_set k v (res_headers r)\<rparr>"
  by (simp add: setHeader_def)

lemma fold_setHeader_frame:
  "res_content (fold (\<lambda>(k, v). setHeader k v) hs r) = res_content r \<and>
   res_status (fold (\<lambda>(k, v). setHeader k v) hs r) = res_status r \<and>
   res_content_type (fold (\<lambda>(k, v). setHeader k v) hs r) = res_content_type r \<and>
   res_sockfd (fold (\<lambda>(k, v). setHeader k v) hs r) = res_sockfd r"
  by (induction hs arbitrary: r) auto

lemma Response_new_ok: "map_ok (res_headers (Response_new hs fd g))"
  using response_headers.ok_assign [OF response_headers.ok_fold [of "blank_response g fd" hs]]
  by (simp add: Response_new_def blank_response_def)

lemma Response_new_headers:
  "map_of (res_headers (Response_new hs fd g)) k =
     (if k = ''Connection'' then Some ''keep-alive'' else map_of (rev hs) k)"
proof -
  let ?b = "blank_response g fd"
  have ok: "map_ok (res_headers ?b)" by (simp add: blank_response_def)
  have "map_of (res_headers (fold (\<lambda>(k, v). setHeader k v) hs ?b)) k = map_of (rev hs) k"
    using response_headers.lookup_fold [OF ok, of hs k]
    by (auto simp: blank_response_def split: option.splits)
  then show ?thesis
    using response_headers.lookup_assign [OF response_headers.ok_fold [OF ok]]
    by (simp add: Response_new_def del: setHeader_update)
qed

section \<open>What build sends\<close>

lemma header_text_lines:
  "concat (map header_text hs) = crlf_lines (map (\<lambda>h. fst h @ '': '' @ snd h) hs)"
  by (induction hs) (auto simp: header_text_def)

lemma add_type_headers_lookup:
  assumes "map_ok (res_headers r)"
  shows "map_ok (res_headers (add_type_headers r))"
    and "map_of (res_headers r) k = Some v \<Longrightarrow> k \<noteq> ''Cache-Control'' \<Longrightarrow>
         map_of (res_headers (add_type_headers r)) k = Some v"
    and "map_of (res_headers (add_type_headers r)) ''Content-Type'' \<noteq> None"
    and "map_of (res_headers (add_type_headers r)) ''Content-Length'' = map_of (res_headers r) ''Content-Length''"
    and "add_type_headers r = r\<lparr>res_headers := res_headers (add_type_headers r)\<rparr>"
  using assms by (auto simp: add_type_headers_def Let_def map_ok_map_set map_of_map_set)

lemma add_length_header_lookup:
  assumes "map_ok (res_headers r)"
  shows "map_ok (res_headers (add_length_header c r))"
    and "map_of (res_headers r) k = Some v \<Longrightarrow> map_of (res_headers (add_length_header c r)) k = Some v"
    and "\<not> c \<Longrightarrow> map_of (res_headers r) ''Content-Length'' = None \<Longrightarrow>
         map_of (res_headers (add_length_header c r)) ''Content-Length'' = Some (to_string (length (res_content r)))"
    and "add_length_header c r = r\<lparr>res_headers := res_headers (add_length_header c r)\<rparr>"
  using assms by (auto simp: add_length_header_def map_ok_map_set map_of_map_set)

lemma load_content_frame:
  "load_content fs r = r\<lparr>res_content := res_content (load_content fs r)\<rparr>"
  by (simp add: load_content_def)

definition built :: "(string \<rightharpoonup> string) \<Rightarrow> bool \<Rightarrow> Response \<Rightarrow> Response" where
  "built fs chunked r = add_length_header chunked (add_type_headers (load_content fs r))"

lemma build_eq:
  "res_content r \<noteq> [] \<Longrightarrow>
   build fs chunked r =
     (Some (statusToString (res_status r) @
            crlf_lines (map (\<lambda>h. fst h @ '': '' @ snd h) (res_headers (built fs chunked r))) @
            crlf @ res_content (load_content fs r)),
      built fs chunked r)"
proof -
  assume ne: "res_content r \<noteq> []"
  have "res_content (built fs chunked r) = res_content (load_content fs r)"
    by (auto simp: built_def add_length_header_def add_type_headers_def Let_def)
  with ne show ?thesis
    by (simp add: build_def Let_def header_text_lines built_def)
qed

lemma build_empty: "res_content r = [] \<Longrightarrow> build fs chunked r = (None, r)"
  by (simp add: build_def)

lemma built_headers:
  assumes "map_ok (res_headers r)"
  shows "map_ok (res_headers (built fs c r))"
    and "map_of (res_headers r) k = Some v \<Longrightarrow> k \<noteq> ''Cache-Control'' \<Longrightarrow>
         map_of (res_headers (built fs c r)) k = Some v"
    and "map_of (res_headers (built fs c r)) ''Content-Type'' \<noteq> None"
    and "\<not> c \<Longrightarrow> map_of (res_headers r) ''Content-Length'' = None \<Longrightarrow>
         map_of (res_headers (built fs c r)) ''Content-Length'' =
           Some (to_string (length (res_content (load_content fs r))))"
proof -
  let ?l = "load_content fs r"
  let ?t = "add_type_headers ?l"
  have l: "res_headers ?l = res_headers r" by (simp add: load_content_def)
  then have okl: "map_ok (res_headers ?l)" using assms by simp
  note t = add_type_headers_lookup [OF okl] and ok = add_type_headers_lookup(1) [OF okl]
  note a = add_length_header_lookup [OF ok]
  show "map_ok (res_headers (built fs c r))" using a(1) by (simp add: built_def)
  show "map_of (res_headers r) k = Some v \<Longrightarrow> k \<noteq> ''Cache-Control'' \<Longrightarrow>
         map_of (res_headers (built fs c r)) k = Some v"
    using a(2) t(2) by (simp add: built_def l)
  show "map_of (res_headers (built fs c r)) ''Content-Type'' \<noteq> None"
    using a(2) [of "''Content-Type''"] t(3) by (auto simp: built_def)
  have "res_content ?t = res_content ?l" by (subst t(5)) simp
  then show "\<not> c \<Longrightarrow> map_of (res_headers r) ''Content-Length'' = None \<Longrightarrow>
         map_of (res_headers (built fs c r)) ''Content-Length'' =
           Some (to_string (length (res_content ?l)))"
    using a(3) t(4) by (simp add: built_def l)
qed

section \<open>Well-formed responses\<close>

text \<open>Every response the program can have: one of the constructors, then any of the operations.\<close>

inductive response_value :: "Response \<Rightarrow> bool" where
  from_default: "response_value (Response_default g fd)"
| from_socket: "response_value (Response_new hs fd g)"
| from_ssl: "response_value (Response_new_ssl hs ssl g fd)"
| by_header: "response_value r \<Longrightarrow> response_value (setHeader k v r)"
| by_content: "response_value r \<Longrightarrow> response_value (setContent t st c r)"
| by_type: "response_value r \<Longrightarrow> response_value (setContentType t r)"
| by_status: "response_value r \<Longrightarrow> response_value (setStatus st r)"
| by_put: "response_value r \<Longrightarrow> response_value (put_content c r)"
| by_number: "response_value r \<Longrightarrow> response_value (put_number n r)"
| by_directory: "response_value r \<Longrightarrow> response_value (setStaticDirectory d r)"
| by_build: "response_value r \<Longrightarrow> response_value (snd (build fs chunked r))"
| by_stream: "response_value r \<Longrightarrow> response_value (snd (stream fs send c r))"
| by_stream_ssl: "response_value r \<Longrightarrow> response_value (snd (stream_ssl fs write c r))"

definition response_wf :: "Response \<Rightarrow> bool" where
  "response_wf r \<longleftrightarrow> map_ok (res_headers r) \<and> map_of (res_headers r) ''Connection'' \<noteq> None"

lemma response_wf_setHeader: "response_wf r \<Longrightarrow> response_wf (setHeader k v r)"
  by (simp add: response_wf_def map_ok_map_set map_of_map_set)

lemma response_wf_connection: "map_ok (res_headers r) \<Longrightarrow> response_wf (setHeader ''Connection'' v r)"
  by (simp add: response_wf_def map_ok_map_set map_of_map_set)

lemma response_wf_build: "response_wf r \<Longrightarrow> response_wf (snd (build fs chunked r))"
  using built_headers(1,2) [of r]
  by (cases "res_content r = []") (fastforce simp: build_empty build_eq response_wf_def)+

lemma response_wf_stream:
  assumes "response_wf r"
  shows "response_wf (snd (stream fs send c r))" "response_wf (snd (stream_ssl fs write c r))"
proof -
  have "response_wf (snd (build fs True (r\<lparr>res_content := c, res_content_type := Some SSE\<rparr>)))"
    using assms by (intro response_wf_build) (simp add: response_wf_def)
  then show "response_wf (snd (stream fs send c r))" "response_wf (snd (stream_ssl fs write c r))"
    by (cases "build fs True (r\<lparr>res_content := c, res_content_type := Some SSE\<rparr>)";
        cases "fst (build fs True (r\<lparr>res_content := c, res_content_type := Some SSE\<rparr>))";
        simp add: stream_def stream_ssl_def Let_def)+
qed

lemma response_value_wf: "response_value r \<Longrightarrow> response_wf r"
proof (induction rule: response_value.induct)
  case (from_socket hs fd g)
  show ?case
    using response_headers.ok_fold [of "blank_response g fd" hs]
    unfolding Response_new_def by (intro response_wf_connection) (simp add: blank_response_def)
next
  case (from_ssl hs ssl g fd)
  show ?case
    using response_headers.ok_fold [of "(blank_response g fd)\<lparr>res_ssl := ssl\<rparr>" hs]
    unfolding Response_new_ssl_def by (intro response_wf_connection) (simp add: blank_response_def)
qed (simp_all add: response_wf_build response_wf_stream response_wf_setHeader del: setHeader_update,
     simp_all add: Response_default_def response_wf_def blank_response_def setContent_def setContentType_def
       setStatus_def put_content_def put_number_def setStaticDirectory_def map_ok_def)

text \<open>
  C35. Every response is well formed on the wire: however it was put together, what \<open>build\<close> returns is
  the status line, header lines with distinct names in order, among them \<open>Connection\<close>,
  \<open>Content-Type\<close> and, unless the response is streamed, \<open>Content-Length\<close>, a blank line and the content.
\<close>

theorem response_well_formed:
  assumes "response_value r" "fst (build fs chunked r) = Some wire"
  shows "\<exists>hs. wire = statusToString (res_status r) @ crlf_lines (map (\<lambda>h. fst h @ '': '' @ snd h) hs) @
      crlf @ res_content (load_content fs r) \<and>
    sorted (map fst hs) \<and> distinct (map fst hs) \<and> map_of hs ''Connection'' \<noteq> None \<and>
    map_of hs ''Content-Type'' \<noteq> None \<and> (chunked \<or> map_of hs ''Content-Length'' \<noteq> None)"
proof -
  have wf: "map_ok (res_headers r)" "map_of (res_headers r) ''Connection'' \<noteq> None"
    using response_value_wf [OF assms(1)] by (simp_all add: response_wf_def)
  have "res_content r \<noteq> []" using assms(2) build_empty by fastforce
  note b = build_eq [OF this, of fs chunked]
  note h = built_headers [OF wf(1), where fs = fs and c = chunked]
  have "map_of (res_headers (built fs chunked r)) ''Connection'' \<noteq> None"
    using h(2) wf(2) by fastforce
  moreover have "chunked \<or> map_of (res_headers (built fs chunked r)) ''Content-Length'' \<noteq> None"
    using h(2) [of "''Content-Length''"] h(4) by (cases "map_of (res_headers r) ''Content-Length''") auto
  moreover have "sorted (map fst (res_headers (built fs chunked r)))" "distinct (map fst (res_headers (built fs chunked r)))"
    using h(1) by (simp_all add: map_ok_def strict_sorted_iff)
  ultimately show ?thesis
    using b assms(2) h(3) by (intro exI [of _ "res_headers (built fs chunked r)"]) simp
qed

theorem response_well_formed_witness:
  "\<exists>wire hs. fst (build Map.empty False (put_content ''hi'' (Response_new [] 4 None))) = Some wire \<and>
     wire = statusToString S_ok @ crlf_lines (map (\<lambda>h. fst h @ '': '' @ snd h) hs) @ crlf @ ''hi'' \<and>
     map_of hs ''Content-Type'' \<noteq> None"
proof -
  let ?r = "put_content ''hi'' (Response_new [] 4 None)"
  have r: "response_value ?r" by (intro response_value.intros)
  have c: "res_content ?r = ''hi''" "res_status ?r = S_ok" "load_content Map.empty ?r = ?r"
    by (simp_all add: put_content_def Response_new_def blank_response_def load_content_def)
  then obtain wire where t: "fst (build Map.empty False ?r) = Some wire"
    using build_eq [of ?r Map.empty False] by simp
  from response_well_formed [OF r this] c t show ?thesis by auto
qed

end
