(* ===== verification/Utils_Codec.thy ===== *)
theory Utils_Codec
  imports Cpp_Prelude "HOL-Library.Word"
begin

text \<open>
  The two codecs of \<open>src/src/utils.cc\<close> the WebSocket handshake is built on:
  \<open>base64_encode\<close>, with its 32-bit accumulator kept at its width, and \<open>sha1\<close>, with its
  padding, message schedule, rounds and output order. For Base64 the file also holds the
  RFC 4648 encoding it is meant to compute and a decoder.
\<close>

unbundle bit_operations_syntax

section \<open>base64_encode\<close>

definition lookup :: string where
  "lookup = ''ABCDEFGHIJKLMNOPQRSTUVWXYZabcdefghijklmnopqrstuvwxyz0123456789+/''"

text \<open>
  The source's \<open>val\<close> and \<open>valb\<close> are \<open>int\<close>. \<open>val << 8\<close> drops the high byte (C++20 shifts
  are modulo 2^32), \<open>val >> valb\<close> is the arithmetic shift.
\<close>

function base64_while :: "32 word \<Rightarrow> int \<Rightarrow> string \<Rightarrow> int \<times> string" where
  "base64_while val valb out =
     (if 0 \<le> valb
      then base64_while val (valb - 6) (out @ [lookup ! unat (signed_drop_bit (nat valb) val AND 0x3F)])
      else (valb, out))"
  by pat_completeness auto
termination
  by (relation "measure (\<lambda>(val, valb, out). nat (valb + 6))") auto

declare base64_while.simps [simp del]

fun base64_loop :: "string \<Rightarrow> 32 word \<Rightarrow> int \<Rightarrow> string \<Rightarrow> 32 word \<times> int \<times> string" where
  "base64_loop [] val valb out = (val, valb, out)"
| "base64_loop (c # cs) val valb out =
     (let val = push_bit 8 val + of_nat (byte_of c);
          (valb, out) = base64_while val (valb + 8) out
      in base64_loop cs val valb out)"

function base64_pad :: "string \<Rightarrow> string" where
  "base64_pad out = (if length out mod 4 \<noteq> 0 then base64_pad (out @ ''='') else out)"
  by pat_completeness auto
termination
proof (relation "measure (\<lambda>out. 3 * length out mod 4)", goal_cases)
  case (2 out)
  have "3 * (n + 1) mod 4 < 3 * n mod 4" if "n mod 4 \<noteq> 0" for n :: nat
    using that by presburger
  with 2 show ?case by simp
qed simp

declare base64_pad.simps [simp del]

definition base64_finish :: "32 word \<times> int \<times> string \<Rightarrow> string" where
  "base64_finish = (\<lambda>(val, valb, out).
     base64_pad
       (if - 6 < valb
        then out @ [lookup ! unat (signed_drop_bit (nat (valb + 8)) (push_bit 8 val) AND 0x3F)]
        else out))"

definition base64_encode :: "string \<Rightarrow> string" where
  "base64_encode input = base64_finish (base64_loop input 0 (- 6) [])"

subsection \<open>The encoding of RFC 4648\<close>

fun rfc4648 :: "string \<Rightarrow> string" where
  "rfc4648 (a # b # c # rest) =
     [lookup ! (byte_of a div 4),
      lookup ! (byte_of a mod 4 * 16 + byte_of b div 16),
      lookup ! (byte_of b mod 16 * 4 + byte_of c div 64),
      lookup ! (byte_of c mod 64)] @ rfc4648 rest"
| "rfc4648 [a, b] =
     [lookup ! (byte_of a div 4),
      lookup ! (byte_of a mod 4 * 16 + byte_of b div 16),
      lookup ! (byte_of b mod 16 * 4)] @ ''=''"
| "rfc4648 [a] =
     [lookup ! (byte_of a div 4), lookup ! (byte_of a mod 4 * 16)] @ ''==''"
| "rfc4648 [] = []"

definition sextet :: "nat \<Rightarrow> 32 word \<Rightarrow> nat" where
  "sextet k w = unat (signed_drop_bit k w AND 0x3F)"

lemma sextet_of_nat:
  assumes "k \<le> 26"
  shows "sextet k (of_nat x) = x div 2 ^ k mod 64"
proof -
  let ?w = "of_nat x :: 32 word"
  have "signed_drop_bit k ?w AND 0x3F = take_bit 6 (signed_drop_bit k ?w)"
    by (simp add: take_bit_eq_mask mask_numeral)
  also have "\<dots> = take_bit 6 (drop_bit k ?w)"
    using assms
    by (intro bit_word_eqI) (auto simp: bit_take_bit_iff bit_signed_drop_bit_iff bit_drop_bit_eq)
  finally have "sextet k ?w = unat (take_bit 6 (drop_bit k ?w))"
    by (simp add: sextet_def)
  also have "\<dots> = take_bit 6 (drop_bit k (x mod 2 ^ LENGTH(32)))"
    by (simp only: unsigned_take_bit_eq unat_drop_bit_eq unat_of_nat)
  also have "\<dots> = take_bit 6 (drop_bit k (take_bit 32 x))"
    by (simp add: take_bit_eq_mod)
  also have "\<dots> = take_bit 6 (drop_bit k x)"
    using assms by (intro bit_eqI) (auto simp: bit_take_bit_iff bit_drop_bit_eq)
  finally show ?thesis
    by (simp add: take_bit_eq_mod drop_bit_eq_div)
qed

lemma low_sextet: "unat (of_nat x AND 0x3F :: 32 word) = x mod 64"
  using sextet_of_nat [of 0 x] by (simp add: sextet_def)

lemma base64_step:
  assumes "valb \<in> {- 6, - 4, - 2}"
  shows "base64_loop (c # cs) (of_nat x) valb out =
     (let y = 256 * x + byte_of c in
      if valb = - 6 then base64_loop cs (of_nat y) (- 4) (out @ [lookup ! (y div 4 mod 64)])
      else if valb = - 4 then base64_loop cs (of_nat y) (- 2) (out @ [lookup ! (y div 16 mod 64)])
      else base64_loop cs (of_nat y) (- 6) (out @ [lookup ! (y div 64 mod 64), lookup ! (y mod 64)]))"
proof -
  have v: "push_bit 8 (of_nat x) + of_nat (byte_of c) = (of_nat (256 * x + byte_of c) :: 32 word)"
    by (simp add: push_bit_eq_mult)
  note fold_sextet = sextet_def [symmetric]
  show ?thesis
    using assms
    unfolding base64_loop.simps v Let_def
    by (elim insertE emptyE)
      (simp_all add: base64_while.simps [of _ "2"] base64_while.simps [of _ "4"]
        base64_while.simps [of _ "6"] base64_while.simps [of _ "0"] base64_while.simps [of _ "- 2"]
        base64_while.simps [of _ "- 4"] base64_while.simps [of _ "- 6"] fold_sextet sextet_of_nat
        low_sextet
        del: of_nat_add of_nat_mult)
qed

lemma base64_pad_cases:
  "length out mod 4 = 0 \<Longrightarrow> base64_pad out = out"
  "length out mod 4 = 3 \<Longrightarrow> base64_pad out = out @ ''=''"
  "length out mod 4 = 2 \<Longrightarrow> base64_pad out = out @ ''==''"
proof -
  show *: "length out mod 4 = 0 \<Longrightarrow> base64_pad out = out" for out
    by (subst base64_pad.simps) simp
  show **: "length out mod 4 = 3 \<Longrightarrow> base64_pad out = out @ ''=''" for out
    by (subst base64_pad.simps) (simp add: * mod_Suc)
  show "length out mod 4 = 2 \<Longrightarrow> base64_pad out = out @ ''==''"
    by (subst base64_pad.simps) (simp add: ** mod_Suc)
qed

text \<open>What each of the four output characters of a group depends on.\<close>

lemma slot: "n = k * (64 * m + r) + v \<Longrightarrow> v < k \<Longrightarrow> r < 64 \<Longrightarrow> n div k mod 64 = r" for n :: nat
  by simp

lemma group_chars:
  fixes b x :: nat
  assumes "b < 256"
  shows "(256 * x + b) div 4 mod 64 = b div 4"
    and "(256 * x + b) div 16 mod 64 = x mod 4 * 16 + b div 16"
    and "(256 * x + b) div 64 mod 64 = x mod 16 * 4 + b div 64"
    and "(256 * x + b) mod 64 = b mod 64"
    and "(256 * x + b) mod 4 = b mod 4"
    and "(256 * x + b) mod 16 = b mod 16"
proof -
  have d: "b div 4 < 64" "b div 16 < 16" "b div 64 < 4" "x mod 4 < 4" "x mod 16 < 16"
    using assms by (auto intro: less_mult_imp_div_less)
  have e: "b = 4 * (b div 4) + b mod 4" "b = 16 * (b div 16) + b mod 16"
    "b = 64 * (b div 64) + b mod 64" "x = 4 * (x div 4) + x mod 4" "x = 16 * (x div 16) + x mod 16"
    by simp_all
  have sum: "256 * x + b = 16 * (64 * X + (Y * 16 + B)) + R" if "b = 16 * B + R" "x = 4 * X + Y"
    for B R X Y using that by simp
  have sum': "256 * x + b = 64 * (64 * X + (Y * 4 + B)) + R" if "b = 64 * B + R" "x = 16 * X + Y"
    for B R X Y using that by simp
  show "(256 * x + b) div 4 mod 64 = b div 4"
    using d(1) e(1) by (intro slot [where m = x and v = "b mod 4"]) auto
  show "(256 * x + b) div 16 mod 64 = x mod 4 * 16 + b div 16"
    by (rule slot [OF sum [OF e(2) e(4)]]) (simp, use d in linarith)
  show "(256 * x + b) div 64 mod 64 = x mod 16 * 4 + b div 64"
    by (rule slot [OF sum' [OF e(3) e(5)]]) (simp, use d in linarith)
  have m: "(k * y + b) mod k = b mod k" for k y :: nat by simp
  show "(256 * x + b) mod 64 = b mod 64" "(256 * x + b) mod 4 = b mod 4"
    "(256 * x + b) mod 16 = b mod 16"
    using m [of 64 "4 * x"] m [of 4 "64 * x"] m [of 16 "16 * x"] by simp_all
qed

lemma tail_chars:
  fixes x :: nat
  shows "(256 * x) div 16 mod 64 = x mod 4 * 16" and "(256 * x) div 64 mod 64 = x mod 16 * 4"
  using group_chars(2,3) [of 0 x] by simp_all

lemma base64_tail:
  "unat (signed_drop_bit 4 (push_bit 8 (of_nat x)) AND 0x3F :: 32 word) = x mod 4 * 16"
  "unat (signed_drop_bit 6 (push_bit 8 (of_nat x)) AND 0x3F :: 32 word) = x mod 16 * 4"
proof -
  have "push_bit 8 (of_nat x) = (of_nat (256 * x) :: 32 word)"
    by (simp add: push_bit_eq_mult)
  then have *: "unat (signed_drop_bit k (push_bit 8 (of_nat x)) AND 0x3F :: 32 word) =
      (256 * x) div 2 ^ k mod 64" if "k \<le> 26" for k
    using sextet_of_nat [of k "256 * x"] that by (simp only: sextet_def)
  have four: "(2 :: nat) ^ 4 = 16" and six: "(2 :: nat) ^ 6 = 64" by simp_all
  show "unat (signed_drop_bit 4 (push_bit 8 (of_nat x)) AND 0x3F :: 32 word) = x mod 4 * 16"
    using * [of 4, unfolded four tail_chars(1)] by simp
  show "unat (signed_drop_bit 6 (push_bit 8 (of_nat x)) AND 0x3F :: 32 word) = x mod 16 * 4"
    using * [of 6, unfolded six tail_chars(2)] by simp
qed

lemma base64_loop_rfc4648:
  "length out mod 4 = 0 \<Longrightarrow>
   base64_finish (base64_loop s (of_nat x) (- 6) out) = out @ rfc4648 s"
proof (induction s arbitrary: x out rule: rfc4648.induct)
  case (1 a b c rest)
  then show ?case
    by (simp add: base64_step group_chars mod_Suc Let_def del: base64_loop.simps(2) of_nat_add of_nat_mult distrib_left_numeral)
next
  case (2 a b)
  then show ?case
    by (simp add: base64_step group_chars Let_def base64_finish_def base64_tail tail_chars
        base64_pad_cases mod_Suc del: base64_loop.simps(2) of_nat_add of_nat_mult distrib_left_numeral)
next
  case (3 a)
  then show ?case
    by (simp add: base64_step group_chars Let_def base64_finish_def base64_tail tail_chars
        base64_pad_cases mod_Suc del: base64_loop.simps(2) of_nat_add of_nat_mult distrib_left_numeral)
next
  case 4
  then show ?case by (simp add: base64_finish_def base64_pad_cases)
qed

lemma base64_encode_rfc4648: "base64_encode s = rfc4648 s"
  using base64_loop_rfc4648 [of "[]" s 0] by (simp add: base64_encode_def)

subsection \<open>Decoding\<close>

definition b64_value :: "char \<Rightarrow> nat option" where
  "b64_value c = index_of (\<lambda>x. x = c) lookup"

fun base64_decode :: "string \<Rightarrow> string option" where
  "base64_decode [] = Some []"
| "base64_decode (p # q # r # t # rest) =
     (case (b64_value p, b64_value q) of
        (Some i, Some j) \<Rightarrow>
          if r = CHR ''='' \<and> t = CHR ''='' \<and> rest = [] then Some [char_of (i * 4 + j div 16)]
          else (case b64_value r of
             None \<Rightarrow> None
           | Some k \<Rightarrow>
               if t = CHR ''='' \<and> rest = []
               then Some [char_of (i * 4 + j div 16), char_of (j mod 16 * 16 + k div 4)]
               else (case (b64_value t, base64_decode rest) of
                   (Some l, Some bs) \<Rightarrow>
                     Some (char_of (i * 4 + j div 16) # char_of (j mod 16 * 16 + k div 4) #
                           char_of (k mod 4 * 64 + l) # bs)
                 | _ \<Rightarrow> None))
      | _ \<Rightarrow> None)"
| "base64_decode _ = None"

lemma index_of_nth: "distinct xs \<Longrightarrow> n < length xs \<Longrightarrow> index_of (\<lambda>x. x = xs ! n) xs = Some n"
  by (auto simp: index_of_Some nth_eq_iff_index_eq)

lemma length_lookup: "length lookup = 64"
  by (simp add: lookup_def)

lemma lookup_facts:
  assumes "n < 64"
  shows "b64_value (lookup ! n) = Some n" "lookup ! n \<noteq> CHR ''=''"
proof -
  have "distinct lookup" by (simp add: lookup_def)
  with assms show "b64_value (lookup ! n) = Some n"
    by (simp add: b64_value_def index_of_nth length_lookup)
  have "CHR ''='' \<notin> set lookup" by (simp add: lookup_def)
  with assms show "lookup ! n \<noteq> CHR ''=''" by (metis nth_mem length_lookup)
qed

lemma sextets_less:
  fixes a b :: nat
  shows "a < 256 \<Longrightarrow> a div 4 < 64" "b < 256 \<Longrightarrow> a mod 4 * 16 + b div 16 < 64"
    "b < 256 \<Longrightarrow> a mod 16 * 4 + b div 64 < 64"
    "a mod 4 * 16 < 64" "a mod 16 * 4 < 64" "a mod 64 < 64"
proof -
  have m: "a mod 4 < 4" "a mod 16 < 16" by simp_all
  show "a mod 4 * 16 < 64" "a mod 16 * 4 < 64" using m by linarith+
  show "a < 256 \<Longrightarrow> a div 4 < 64" by (simp add: less_mult_imp_div_less)
  assume "b < 256"
  then have "b div 16 < 16" "b div 64 < 4" by (auto intro: less_mult_imp_div_less)
  with m show "a mod 4 * 16 + b div 16 < 64" "a mod 16 * 4 + b div 64 < 64" by linarith+
qed simp

lemma high_bits:
  fixes b :: nat
  assumes "b < 256"
  shows "b div 16 div 16 = 0" "b div 16 mod 16 = b div 16" "b div 64 div 4 = 0"
    "b div 64 mod 4 = b div 64"
  using assms less_mult_imp_div_less [of b 16 16] less_mult_imp_div_less [of b 4 64] by simp_all

lemma base64_decode_rfc4648: "base64_decode (rfc4648 s) = Some s"
  by (induction s rule: rfc4648.induct)
    (simp_all add: lookup_facts sextets_less high_bits)

lemma length_rfc4648: "length (rfc4648 s) = (length s + 2) div 3 * 4"
proof (induction s rule: rfc4648.induct)
  case (1 a b c rest)
  have "(n + 5) div 3 = Suc ((n + 2) div 3)" for n :: nat
    by presburger
  with 1 show ?case by (simp add: add.commute)
qed auto

lemma rfc4648_chars: "c \<in> set (rfc4648 s) \<Longrightarrow> c \<in> set lookup \<or> c = CHR ''=''"
  by (induction s rule: rfc4648.induct) (auto intro!: nth_mem simp: length_lookup sextets_less)

interpretation base64: codec base64_encode base64_decode "\<lambda>_. True"
  by unfold_locales (simp add: base64_encode_rfc4648 base64_decode_rfc4648)

text \<open>
  C29. \<open>base64_encode\<close> is the standard encoding: the bit-buffer loop agrees with the encoding of RFC 4648 by
  groups of three bytes, on every byte string; the result has the padded length, only characters
  of the alphabet, and decodes to the input.
\<close>

theorem base64_standard:
  "base64_encode s = rfc4648 s \<and> base64_decode (base64_encode s) = Some s \<and>
   length (base64_encode s) = (length s + 2) div 3 * 4 \<and> set (base64_encode s) \<subseteq> insert (CHR ''='') (set lookup)"
  using rfc4648_chars [of _ s] by (auto simp: base64_encode_rfc4648 base64_decode_rfc4648 length_rfc4648)

section \<open>sha1\<close>

type_synonym u32 = "32 word"

definition left_rotate :: "u32 \<Rightarrow> nat \<Rightarrow> u32" where
  "left_rotate x n = push_bit n x OR drop_bit (32 - n) x"

text \<open>
  Padding: the byte \<open>0x80\<close>, zero bytes up to 56 modulo 64, then the length in bits as eight
  bytes, most significant first.
\<close>

function sha1_zeros :: "string \<Rightarrow> string" where
  "sha1_zeros msg = (if length msg mod 64 \<noteq> 56 then sha1_zeros (msg @ [CHR 0x00]) else msg)"
  by pat_completeness auto
termination
proof (relation "measure (\<lambda>msg. (56 + 63 * length msg) mod 64)", goal_cases)
  case (2 msg)
  let ?n = "length msg" and ?r = "(56 + 63 * length msg) mod 64"
  have "?r \<noteq> 0"
  proof
    assume r: "?r = 0"
    have "?n mod 64 = (?r + ?n) mod 64" by (simp only: r add_0)
    also have "\<dots> = (56 + 63 * ?n + ?n) mod 64" by (rule mod_add_left_eq)
    also have "56 + 63 * ?n + ?n = 56 + 64 * ?n" by simp
    also have "(56 + 64 * ?n) mod 64 = 56" by simp
    finally show False using 2 by simp
  qed
  moreover have "(56 + 63 * Suc ?n) mod 64 = (?r + 63) mod 64"
  proof -
    have "56 + 63 * Suc ?n = (56 + 63 * ?n) + 63" by simp
    then show ?thesis by (simp only: mod_add_left_eq)
  qed
  moreover have "(r + 63) mod 64 = r - 1" if "r \<noteq> 0" "r < 64" for r :: nat
  proof -
    have "r + 63 = (r - 1) + 64" using that by simp
    then have "(r + 63) mod 64 = (r - 1) mod 64" by (simp only: mod_add_self2)
    with that show ?thesis by simp
  qed
  ultimately have "(56 + 63 * Suc ?n) mod 64 = ?r - 1" by simp
  with \<open>?r \<noteq> 0\<close> show ?case by simp
qed simp

declare sha1_zeros.simps [simp del]

definition sha1_pad :: "string \<Rightarrow> string" where
  "sha1_pad input =
     (let original_bit_len = of_nat (length input) * 8 :: 64 word;
          msg = sha1_zeros (input @ [CHR 0x80])
      in msg @ map (\<lambda>i. char_of (unat (drop_bit i original_bit_len AND 0xFF)))
                   [56, 48, 40, 32, 24, 16, 8, 0])"

definition sha1_word :: "string \<Rightarrow> nat \<Rightarrow> u32" where
  "sha1_word chunk i =
     push_bit 24 (of_nat (byte_of (chunk ! (i * 4)))) OR
     push_bit 16 (of_nat (byte_of (chunk ! (i * 4 + 1)))) OR
     push_bit 8 (of_nat (byte_of (chunk ! (i * 4 + 2)))) OR
     of_nat (byte_of (chunk ! (i * 4 + 3)))"

definition sha1_schedule :: "string \<Rightarrow> u32 list" where
  "sha1_schedule chunk =
     fold (\<lambda>i w. w @ [left_rotate (w ! (i - 3) XOR w ! (i - 8) XOR w ! (i - 14) XOR w ! (i - 16)) 1])
       [16..<80] (map (sha1_word chunk) [0..<16])"

definition sha1_fk :: "nat \<Rightarrow> u32 \<Rightarrow> u32 \<Rightarrow> u32 \<Rightarrow> u32 \<times> u32" where
  "sha1_fk i b c d =
     (if i < 20 then ((b AND c) OR (NOT b AND d), 0x5A827999)
      else if i < 40 then (b XOR c XOR d, 0x6ED9EBA1)
      else if i < 60 then ((b AND c) OR (b AND d) OR (c AND d), 0x8F1BBCDC)
      else (b XOR c XOR d, 0xCA62C1D6))"

type_synonym sha1_state = "u32 \<times> u32 \<times> u32 \<times> u32 \<times> u32"

definition sha1_round :: "u32 list \<Rightarrow> nat \<Rightarrow> sha1_state \<Rightarrow> sha1_state" where
  "sha1_round w i = (\<lambda>(a, b, c, d, e).
     let (f, k) = sha1_fk i b c d;
         temp = left_rotate a 5 + f + e + k + w ! i
     in (temp, a, left_rotate b 30, c, d))"

definition sha1_chunk :: "string \<Rightarrow> sha1_state \<Rightarrow> sha1_state" where
  "sha1_chunk chunk = (\<lambda>(h0, h1, h2, h3, h4).
     let w = sha1_schedule chunk;
         (a, b, c, d, e) = fold (sha1_round w) [0..<80] (h0, h1, h2, h3, h4)
     in (h0 + a, h1 + b, h2 + c, h3 + d, h4 + e))"

fun sha1_chunks :: "string \<Rightarrow> sha1_state \<Rightarrow> sha1_state" where
  "sha1_chunks msg h =
     (if msg = [] then h else sha1_chunks (drop 64 msg) (sha1_chunk (take 64 msg) h))"

declare sha1_chunks.simps [simp del]

definition sha1_init :: sha1_state where
  "sha1_init = (0x67452301, 0xEFCDAB89, 0x98BADCFE, 0x10325476, 0xC3D2E1F0)"

definition be_bytes :: "u32 \<Rightarrow> string" where
  "be_bytes h = map (\<lambda>i. char_of (unat (drop_bit (24 - i * 8) h AND 0xFF))) [0..<4]"

definition sha1 :: "string \<Rightarrow> string" where
  "sha1 input =
     (let (h0, h1, h2, h3, h4) = sha1_chunks (sha1_pad input) sha1_init
      in be_bytes h0 @ be_bytes h1 @ be_bytes h2 @ be_bytes h3 @ be_bytes h4)"

lemma length_sha1: "length (sha1 s) = 20"
  by (simp add: sha1_def be_bytes_def split: prod.split)

lemma left_rotate_rotl: "n < 32 \<Longrightarrow> left_rotate x n = word_rotl n x"
proof (intro bit_word_eqI)
  fix m assume n: "n < 32" and "m < LENGTH(32)"
  then have m: "m < 32" by simp
  have "(m + 32 - n) mod 32 = (if n \<le> m then m - n else 32 - n + m)"
    using n m by (auto simp: mod_if)
  with m n show "bit (left_rotate x n) m = bit (word_rotl n x) m"
    by (auto simp: left_rotate_def bit_word_rotl_iff bit_or_iff bit_push_bit_iff bit_drop_bit_eq
      dest: bit_imp_le_length)
qed

lemma sha1_zeros_shape:
  "\<exists>k. sha1_zeros msg = msg @ replicate k (CHR 0x00) \<and> (length msg + k) mod 64 = 56"
proof (induction msg rule: sha1_zeros.induct)
  case (1 msg)
  show ?case
  proof (cases "length msg mod 64 = 56")
    case True
    then show ?thesis by (intro exI [of _ 0]) (simp add: sha1_zeros.simps [of msg])
  next
    case False
    with 1 obtain k where "sha1_zeros (msg @ [CHR 0x00]) = (msg @ [CHR 0x00]) @ replicate k (CHR 0x00)"
      "(length (msg @ [CHR 0x00]) + k) mod 64 = 56" by blast
    with False show ?thesis
      by (intro exI [of _ "Suc k"]) (simp add: sha1_zeros.simps [of msg])
  qed
qed

lemma length_sha1_pad: "length (sha1_pad s) mod 64 = 0"
proof -
  obtain k where "sha1_zeros (s @ [CHR 0x80]) = s @ [CHR 0x80] @ replicate k (CHR 0x00)"
    "(length (s @ [CHR 0x80]) + k) mod 64 = 56"
    using sha1_zeros_shape [of "s @ [CHR 0x80]"] by auto
  then have "(length (sha1_zeros (s @ [CHR 0x80])) + 8) mod 64 = 0"
    using mod_add_left_eq [of "length (s @ [CHR 0x80]) + k" 64 8] by simp
  then show ?thesis by (simp add: sha1_pad_def Let_def add.commute)
qed

end
