(* ===== verification/WebSocket.thy ===== *)
theory WebSocket
  imports Cpp_Prelude "HOL-Library.Word"
begin

text \<open>
  \<open>src/src/websocket.h\<close> and \<open>src/src/websocket.cc\<close>: opcodes, the frame parser
  \<open>readFrame\<close>, the frame builders \<open>send\<close> and \<open>writeFrame\<close>, the opcode probe
  \<open>getWebSocketFrame\<close>, and the operations of the \<open>WebSocket\<close> class. Bytes are 8-bit words,
  lengths 64-bit words; the bound checks of the parser add \<open>size_t\<close> values and so wrap.
  The reference is the frame layout of RFC 6455, section 5.2 (\<open>ws_encode\<close>).
\<close>

unbundle bit_operations_syntax

type_synonym byte = "8 word"

definition to_bytes :: "string \<Rightarrow> byte list" where
  "to_bytes s = map (\<lambda>c. of_nat (byte_of c)) s"

definition from_bytes :: "byte list \<Rightarrow> string" where
  "from_bytes bs = map (\<lambda>b. char_of (unat b)) bs"

lemma from_to_bytes [simp]: "from_bytes (to_bytes s) = s"
proof -
  have "unat (of_nat (byte_of c) :: byte) = byte_of c" for c
    by (simp add: unat_of_nat)
  then show ?thesis by (simp add: to_bytes_def from_bytes_def comp_def)
qed

lemma length_bytes [simp]:
  "length (to_bytes s) = length s" "length (from_bytes bs) = length bs"
  by (simp_all add: to_bytes_def from_bytes_def)

section \<open>Opcodes\<close>

text \<open>
  \<open>WsOpcode\<close> has a fixed underlying type, so the cast of a four-bit value that is no
  enumerator is a value of the type: \<open>Reserved\<close>.
\<close>

datatype WsOpcode = Continuation | Text | Binary | Close | Ping | Pong | Reserved byte

definition opcode_of :: "byte \<Rightarrow> WsOpcode" where
  "opcode_of b =
     (if b = 0 then Continuation else if b = 1 then Text else if b = 2 then Binary
      else if b = 8 then Close else if b = 9 then Ping else if b = 10 then Pong else Reserved b)"

fun opcode_byte :: "WsOpcode \<Rightarrow> byte" where
  "opcode_byte Continuation = 0"
| "opcode_byte Text = 1"
| "opcode_byte Binary = 2"
| "opcode_byte Close = 8"
| "opcode_byte Ping = 9"
| "opcode_byte Pong = 10"
| "opcode_byte (Reserved b) = b"

fun toWsOpcodeString :: "WsOpcode \<Rightarrow> string" where
  "toWsOpcodeString Continuation = ''Continuation''"
| "toWsOpcodeString Text = ''Text''"
| "toWsOpcodeString Binary = ''Binary''"
| "toWsOpcodeString Close = ''Close''"
| "toWsOpcodeString Ping = ''Ping''"
| "toWsOpcodeString Pong = ''Pong''"
| "toWsOpcodeString (Reserved _) = ''Unknown''"

definition getWebSocketFrame :: "string \<Rightarrow> WsOpcode option" where
  "getWebSocketFrame data =
     (if length data < 2 then None
      else (let first_byte = to_bytes data ! 0;
                opcode = first_byte AND 0x0F;
                fin = (first_byte AND 0x80 \<noteq> 0)
            in if 0xA < opcode then None
               else if fin \<and> opcode \<le> 0xA then Some (opcode_of opcode)
               else None))"

section \<open>Reading a frame\<close>

record Frame =
  f_fin :: bool
  f_opcode :: WsOpcode
  f_mask :: bool
  f_payload_length :: "64 word"
  f_masking_key :: "byte list"
  f_payload_data :: "byte list"
  f_text_payload :: string
  f_sockfd :: int
  f_ssl :: "nat option"

definition new_frame :: "int \<Rightarrow> byte list \<Rightarrow> Frame" where
  "new_frame sfd key =
     \<lparr>f_fin = False, f_opcode = Continuation, f_mask = False, f_payload_length = 0,
      f_masking_key = key, f_payload_data = [], f_text_payload = [], f_sockfd = sfd, f_ssl = None\<rparr>"

text \<open>\<open>Frame(sfd, ssl)\<close>: a socket with a TLS object.\<close>

definition new_frame_ssl :: "int \<Rightarrow> nat option \<Rightarrow> byte list \<Rightarrow> Frame" where
  "new_frame_ssl sfd ssl key = (new_frame sfd key)\<lparr>f_ssl := ssl\<rparr>"

text \<open>
  The extended length: the parser has read two bytes, \<open>offset\<close> is 2. The result is the
  new offset, \<open>None\<close> for the early \<open>return false\<close>, and the frame as it stands.
\<close>

definition be64 :: "byte list \<Rightarrow> 64 word" where
  "be64 bs = foldl (\<lambda>acc i. acc OR push_bit (56 - 8 * i) (ucast (bs ! i))) 0 [0..<8]"

definition read_length :: "byte list \<Rightarrow> nat \<Rightarrow> Frame \<Rightarrow> nat option \<times> Frame" where
  "read_length data offset f =
     (if f_payload_length f = 126 then
        (if length data < offset + 2 then (None, f)
         else (Some (offset + 2),
               f\<lparr>f_payload_length := push_bit 8 (ucast (data ! offset)) OR ucast (data ! (offset + 1))\<rparr>))
      else if f_payload_length f = 127 then
        (if length data < offset + 8 then (None, f)
         else (Some (offset + 8), f\<lparr>f_payload_length := be64 (drop offset data)\<rparr>))
      else (Some offset, f))"

definition read_key :: "byte list \<Rightarrow> nat \<Rightarrow> Frame \<Rightarrow> nat option \<times> Frame" where
  "read_key data offset f =
     (if f_mask f then
        (if length data < offset + 4 then (None, f)
         else (Some (offset + 4), f\<lparr>f_masking_key := map (\<lambda>i. data ! (offset + i)) [0..<4]\<rparr>))
      else (Some offset, f))"

text \<open>\<open>vector::resize\<close> throws \<open>length_error\<close> beyond \<open>max_size()\<close>, which is 2^63 - 1 bytes.\<close>

definition max_size :: nat where
  "max_size = 2 ^ 63 - 1"

definition read_payload :: "byte list \<Rightarrow> nat \<Rightarrow> Frame \<Rightarrow> (bool \<times> Frame) result" where
  "read_payload data offset f =
     (let n = unat (f_payload_length f)
      in if length data < add_sz offset n then Inr (False, f)
         else if max_size < n then Inl Length_error
         else (let bs = map (\<lambda>i. if f_mask f then data ! (offset + i) XOR f_masking_key f ! (i mod 4)
                                else data ! (offset + i)) [0..<n];
                   f = f\<lparr>f_payload_data := bs\<rparr>
               in Inr (True, if f_opcode f = Text then f\<lparr>f_text_payload := from_bytes bs\<rparr> else f)))"

definition readFrame :: "byte list \<Rightarrow> Frame \<Rightarrow> (bool \<times> Frame) result" where
  "readFrame data f =
     (if length data < 2 then Inr (False, f)
      else (let first_byte = data ! 0;
                f = f\<lparr>f_fin := (first_byte AND 0x80 \<noteq> 0), f_opcode := opcode_of (first_byte AND 0x0F)\<rparr>
            in if f_opcode f = Close then Inr (False, f)
               else (let second_byte = data ! 1;
                         f = f\<lparr>f_mask := (second_byte AND 0x80 \<noteq> 0),
                               f_payload_length := ucast (second_byte AND 0x7F)\<rparr>
                     in case read_length data 2 f of
                          (None, f) \<Rightarrow> Inr (False, f)
                        | (Some offset, f) \<Rightarrow>
                            (case read_key data offset f of
                               (None, f) \<Rightarrow> Inr (False, f)
                             | (Some offset, f) \<Rightarrow> read_payload data offset f))))"

section \<open>Building frames\<close>

datatype FrameType = Text_frame | Binary_frame

fun frame_type_byte :: "FrameType \<Rightarrow> byte" where
  "frame_type_byte Text_frame = 1"
| "frame_type_byte Binary_frame = 2"

text \<open>
  The buffer \<open>WebSocket::send\<close> hands to the transport. Above 65535 bytes it writes the
  marker 127 and no length at all.
\<close>

definition send_buffer :: "string \<Rightarrow> FrameType \<Rightarrow> byte list" where
  "send_buffer msg ty =
     [0x80 OR frame_type_byte ty] @
     (if length msg < 126 then [of_nat (length msg)]
      else if length msg \<le> 0xFFFF then
        [126, of_nat (length msg div 256), of_nat (length msg)]
      else [127]) @
     to_bytes msg"

text \<open>
  \<open>writeFrame\<close> writes the markers 126 and 127 but never an extended length. The four
  \<open>rand()\<close> values are the argument \<open>mask_key\<close>.
\<close>

definition writeFrame :: "string \<Rightarrow> bool \<Rightarrow> WsOpcode \<Rightarrow> byte list option \<Rightarrow> byte list" where
  "writeFrame message fin opcode mask_key =
     (let n = length message;
          len = (if n < 126 then of_nat n else if n \<le> 0xFFFF then 126 else 127 :: byte)
      in [(if fin then 0x80 else 0) OR opcode_byte opcode] @
         (case mask_key of
            Some key \<Rightarrow>
              [0x80 OR len] @ key @
              map (\<lambda>i. to_bytes message ! i XOR key ! (i mod 4)) [0..<n]
          | None \<Rightarrow> [len] @ to_bytes message))"

section \<open>The WebSocket class\<close>

datatype Result = Fail | Text_result | Binary_result | Ping_result | Pong_result

record WebSocket =
  ws_frame :: Frame
  ws_byte_data :: "byte list"
  ws_query :: "string \<rightharpoonup> string"

definition WebSocket_new :: "int \<Rightarrow> string \<Rightarrow> (string \<rightharpoonup> string) \<Rightarrow> byte list \<Rightarrow> WebSocket" where
  "WebSocket_new sockfd raw_request query key =
     \<lparr>ws_frame = new_frame sockfd key, ws_byte_data = to_bytes raw_request, ws_query = query\<rparr>"

definition WebSocket_new_ssl :: "int \<Rightarrow> nat option \<Rightarrow> string \<Rightarrow> (string \<rightharpoonup> string) \<Rightarrow> byte list \<Rightarrow> WebSocket" where
  "WebSocket_new_ssl sockfd ssl raw_request query key =
     \<lparr>ws_frame = new_frame_ssl sockfd ssl key, ws_byte_data = to_bytes raw_request, ws_query = query\<rparr>"

text \<open>
  \<open>read\<close> parses the bytes the object was built with. The second component of the result is
  the caller's \<open>msg\<close>, the last one whether the socket was closed.
\<close>

definition ws_read :: "WebSocket \<Rightarrow> string \<Rightarrow> (Result \<times> string \<times> WebSocket \<times> bool) result" where
  "ws_read ws msg =
     (case readFrame (ws_byte_data ws) (ws_frame ws) of
        Inl e \<Rightarrow> Inl e
      | Inr (False, f) \<Rightarrow> Inr (Fail, msg, ws\<lparr>ws_frame := f\<rparr>, False)
      | Inr (True, f) \<Rightarrow>
          (let ws = ws\<lparr>ws_frame := f\<rparr>
           in if f_opcode f = Close then Inr (Fail, msg, ws, True)
              else Inr (case f_opcode f of
                          Text \<Rightarrow> Text_result
                        | Binary \<Rightarrow> Binary_result
                        | Ping \<Rightarrow> Ping_result
                        | Pong \<Rightarrow> Pong_result
                        | _ \<Rightarrow> Fail,
                        f_text_payload f, ws, False)))"

definition ws_send :: "(int \<Rightarrow> byte list \<Rightarrow> int) \<Rightarrow> WebSocket \<Rightarrow> string \<Rightarrow> FrameType \<Rightarrow> int" where
  "ws_send transport ws msg ty = transport (f_sockfd (ws_frame ws)) (send_buffer msg ty)"

text \<open>
  \<open>isSocketAlive\<close> (\<open>src/src/utils.cc\<close>) calls \<open>recv\<close> for one byte without \<open>MSG_PEEK\<close>, so
  a pending byte is taken out of the stream. The receive side of a non-blocking socket is
  what is pending in it, and what \<open>recv\<close> reports when nothing is.
\<close>

datatype recv_end = At_eof | Recv_error errno

record recv_queue =
  rq_pending :: string
  rq_end :: recv_end

definition isSocketAlive :: "recv_queue \<Rightarrow> bool \<times> recv_queue" where
  "isSocketAlive q =
     (case rq_pending q of
        c # cs \<Rightarrow> (False, q\<lparr>rq_pending := cs\<rparr>)
      | [] \<Rightarrow> (case rq_end q of
                 At_eof \<Rightarrow> (False, q)
               | Recv_error e \<Rightarrow> (e = EAGAIN \<or> e = EWOULDBLOCK \<or> e = ENOTCONN, q)))"

text \<open>\<open>isOpen\<close>: the second component is whether it closed the socket.\<close>

definition isOpen :: "recv_queue \<Rightarrow> bool \<times> bool \<times> recv_queue" where
  "isOpen q = (let (alive, q) = isSocketAlive q in if \<not> alive then (False, True, q) else (True, False, q))"

section \<open>The frame layout of RFC 6455\<close>

definition octet :: "nat \<Rightarrow> nat \<Rightarrow> byte" where
  "octet j n = of_nat (n div 256 ^ j)"

definition length_bytes_be :: "nat \<Rightarrow> nat \<Rightarrow> byte list" where
  "length_bytes_be k n = map (\<lambda>i. octet (k - 1 - i) n) [0..<k]"

definition mask_payload :: "byte list \<Rightarrow> byte list \<Rightarrow> byte list" where
  "mask_payload key bs = map (\<lambda>i. bs ! i XOR key ! (i mod 4)) [0..<length bs]"

definition len_code :: "nat \<Rightarrow> byte" where
  "len_code n = (if n < 126 then of_nat n else if n < 65536 then 126 else 127)"

definition len_field :: "nat \<Rightarrow> byte list" where
  "len_field n =
     (if n < 126 then [] else if n < 65536 then length_bytes_be 2 n else length_bytes_be 8 n)"

definition first_byte :: "bool \<Rightarrow> WsOpcode \<Rightarrow> byte" where
  "first_byte fin opcode = (if fin then 0x80 else 0) OR opcode_byte opcode"

definition ws_encode :: "bool \<Rightarrow> WsOpcode \<Rightarrow> byte list option \<Rightarrow> byte list \<Rightarrow> byte list" where
  "ws_encode fin opcode key payload =
     [first_byte fin opcode,
      (if key = None then 0 else 0x80) OR len_code (length payload)] @
     len_field (length payload) @
     (case key of None \<Rightarrow> payload | Some k \<Rightarrow> k @ mask_payload k payload)"

fun valid_opcode :: "WsOpcode \<Rightarrow> bool" where
  "valid_opcode (Reserved b) = (b \<in> {3, 4, 5, 6, 7, 11, 12, 13, 14, 15})"
| "valid_opcode _ = True"

section \<open>Bits and lengths\<close>

lemma test_bit_7: "b AND 0x80 \<noteq> 0 \<longleftrightarrow> bit b 7" for b :: byte
  using and_exp_eq_0_iff_not_bit [of b 7] by simp

lemma first_byte_fields:
  assumes "valid_opcode opcode"
  shows "first_byte fin opcode AND 0x80 \<noteq> 0 \<longleftrightarrow> fin"
    and "opcode_of (first_byte fin opcode AND 0x0F) = opcode"
  using assms by (cases opcode; cases fin; auto simp: first_byte_def opcode_of_def)+

lemma len_code_less: "unat (len_code n) < 128"
  by (auto simp: len_code_def unat_of_nat)

lemma small_byte:
  fixes b :: byte
  assumes "unat b < 128"
  shows "\<not> bit b 7" "b AND 0x7F = b" "(0x80 OR b) AND 0x7F = b" "bit (0x80 OR b) 7"
proof -
  have "take_bit 7 (unat b) = unat b" using assms by (simp add: take_bit_nat_eq_self)
  then have t: "take_bit 7 b = b"
    by (metis unsigned_take_bit_eq word_unat_eq_iff)
  then have "\<not> bit (take_bit 7 b) 7 \<longrightarrow> \<not> bit b 7" by simp
  then show "\<not> bit b 7" by (simp add: bit_take_bit_iff)
  have m: "x AND 0x7F = take_bit 7 x" for x :: byte
    by (simp add: take_bit_eq_mask mask_numeral)
  show "b AND 0x7F = b" "(0x80 OR b) AND 0x7F = b"
    by (simp_all only: m take_bit_or t) simp
  have "bit (0x80 :: byte) 7" by simp
  then show "bit (0x80 OR b) 7" by (simp add: bit_or_iff)
qed

lemma second_byte_fields:
  "((if key = None then 0 else 0x80) OR len_code n) AND 0x80 \<noteq> 0 \<longleftrightarrow> key \<noteq> None"
  "((if key = None then 0 else 0x80) OR len_code n) AND 0x7F = len_code n"
  using small_byte [OF len_code_less [of n]] by (auto simp: test_bit_7)

lemma length_bytes_be_nth: "i < k \<Longrightarrow> length_bytes_be k n ! i = octet (k - 1 - i) n"
  by (simp add: length_bytes_be_def)

lemma length_length_bytes_be [simp]: "length (length_bytes_be k n) = k"
  by (simp add: length_bytes_be_def)

lemma byte_bit:
  "bit (push_bit p (ucast (octet j n)) :: 64 word) k \<longleftrightarrow>
     p \<le> k \<and> k < 64 \<and> k - p < 8 \<and> bit n (8 * j + (k - p))"
proof -
  have "n div 256 ^ j = drop_bit (8 * j) n"
    by (simp add: drop_bit_eq_div power_mult)
  then have b: "bit (of_nat (n div 256 ^ j) :: byte) i \<longleftrightarrow> i < 8 \<and> bit n (8 * j + i)" for i
    by (auto simp: bit_of_nat_iff bit_drop_bit_eq)
  show ?thesis
    by (auto simp: octet_def bit_push_bit_iff bit_ucast_iff b)
qed

lemma be64_length_bytes:
  "be64 (length_bytes_be 8 n @ tail) = of_nat n"
proof -
  have "be64 (length_bytes_be 8 n @ tail) =
      foldl (\<lambda>acc i. acc OR push_bit (56 - 8 * i) (ucast (octet (7 - i) n))) 0 [0..<8]"
    unfolding be64_def
    by (intro foldl_cong refl) (simp add: nth_append length_bytes_be_nth)
  also have "\<dots> = of_nat n"
  proof (rule bit_word_eqI)
    fix k assume "k < LENGTH(64)"
    then have "k < 64" by simp
    then consider "k < 8" | "8 \<le> k \<and> k < 16" | "16 \<le> k \<and> k < 24" | "24 \<le> k \<and> k < 32"
      | "32 \<le> k \<and> k < 40" | "40 \<le> k \<and> k < 48" | "48 \<le> k \<and> k < 56" | "56 \<le> k \<and> k < 64"
      by linarith
    then show "bit (foldl (\<lambda>acc i. acc OR push_bit (56 - 8 * i) (ucast (octet (7 - i) n)))
        (0 :: 64 word) [0..<8]) k \<longleftrightarrow> bit (of_nat n :: 64 word) k"
      by cases (auto simp: upt_rec bit_or_iff byte_bit bit_of_nat_iff
          simp del: push_bit_0_id)
  qed
  finally show ?thesis .
qed

lemma ucast_small_code: "n < 126 \<Longrightarrow> (ucast (of_nat n :: byte) :: 64 word) = of_nat n"
  by (simp add: word_unat_eq_iff unat_of_nat unsigned_ucast_eq take_bit_nat_eq_self)

lemma be16: "push_bit 8 (ucast (octet 1 n)) OR ucast (octet 0 n) = (of_nat n :: 64 word)" if "n < 65536"
proof (rule bit_word_eqI)
  have n: "take_bit 16 n = n" using that by (simp add: take_bit_nat_eq_self)
  then have high: "16 \<le> k \<Longrightarrow> \<not> bit n k" for k
    by (metis bit_take_bit_iff not_le)
  fix k assume "k < LENGTH(64)"
  then consider "k < 8" | "8 \<le> k \<and> k < 16" | "16 \<le> k \<and> k < 64" by fastforce
  then show "bit (push_bit 8 (ucast (octet 1 n)) OR ucast (octet 0 n) :: 64 word) k \<longleftrightarrow>
      bit (of_nat n :: 64 word) k"
    using byte_bit [of 8 1 n k] byte_bit [of 0 0 n k] high [of k]
    by cases (auto simp: bit_or_iff bit_of_nat_iff)
qed

lemma read_length_field:
  assumes "f_payload_length f = ucast (len_code n)"
  shows "read_length ([b0, b1] @ len_field n @ tail) 2 f =
    (Some (length ([b0, b1] @ len_field n)), f\<lparr>f_payload_length := of_nat n\<rparr>)"
proof -
  consider "n < 126" | "126 \<le> n" "n < 65536" | "65536 \<le> n" by linarith
  then show ?thesis
  proof cases
    case 1
    then have "(of_nat n :: 64 word) \<noteq> 126" "(of_nat n :: 64 word) \<noteq> 127"
      by (simp_all add: word_unat_eq_iff unat_of_nat)
    moreover have "f\<lparr>f_payload_length := of_nat n\<rparr> = f"
      using assms 1 by (cases f) (simp add: len_code_def ucast_small_code)
    ultimately show ?thesis
      using assms 1 by (simp add: read_length_def len_code_def len_field_def ucast_small_code)
  next
    case 2
    have "([b0, b1] @ length_bytes_be 2 n @ tail) ! 2 = octet 1 n"
      "([b0, b1] @ length_bytes_be 2 n @ tail) ! 3 = octet 0 n"
      by (simp_all add: numeral_2_eq_2 numeral_3_eq_3 length_bytes_be_def)
    then show ?thesis
      using assms 2 by (simp add: read_length_def len_code_def len_field_def be16 [unfolded One_nat_def])
  next
    case 3
    then show ?thesis
      using assms by (simp add: read_length_def len_code_def len_field_def be64_length_bytes)
  qed
qed

lemma nth_after: "(pre @ xs @ ys) ! (length pre + i) = (xs @ ys) ! i"
  by (simp add: nth_append)

lemma read_key_field:
  assumes "f_mask f \<longleftrightarrow> key \<noteq> None" "\<And>k. key = Some k \<Longrightarrow> length k = 4"
  shows "read_key (pre @ (case key of None \<Rightarrow> [] | Some k \<Rightarrow> k) @ tail) (length pre) f =
    (Some (length pre + (case key of None \<Rightarrow> 0 | Some k \<Rightarrow> 4)),
     f\<lparr>f_masking_key := (case key of None \<Rightarrow> f_masking_key f | Some k \<Rightarrow> k)\<rparr>)"
proof (cases key)
  case None
  then show ?thesis using assms by (cases f) (simp add: read_key_def)
next
  case (Some k)
  with assms have l: "length k = 4" by simp
  have "map (\<lambda>i. (pre @ k @ tail) ! (length pre + i)) [0..<4] = map (\<lambda>i. k ! i) [0..<length k]"
    using l by (intro map_cong) (simp_all add: nth_append)
  then have "map (\<lambda>i. (pre @ k @ tail) ! (length pre + i)) [0..<4] = k"
    by (simp add: map_nth)
  then show ?thesis using Some assms l by (simp add: read_key_def)
qed

lemma mask_payload_twice: "mask_payload key (mask_payload key bs) = bs"
  unfolding mask_payload_def
  by (rule nth_equalityI) (simp_all add: xor.assoc)

definition unmask :: "Frame \<Rightarrow> byte list \<Rightarrow> byte list" where
  "unmask f bs = (if f_mask f then mask_payload (f_masking_key f) bs else bs)"

lemma read_payload_field:
  assumes "f_payload_length f = of_nat (length body)" "length body \<le> max_size" "length pre \<le> 14"
  shows "read_payload (pre @ body @ rest) (length pre) f =
    Inr (True, (let f = f\<lparr>f_payload_data := unmask f body\<rparr>
      in if f_opcode f = Text then f\<lparr>f_text_payload := from_bytes (f_payload_data f)\<rparr> else f))"
proof -
  have u: "unat (f_payload_length f) = length body"
    using assms(1,2) by (simp add: unat_of_nat max_size_def)
  have s: "add_sz (length pre) (length body) = length pre + length body"
    using assms(2,3) by (intro add_sz_small) (simp add: max_size_def size_mod_def)
  have "map (\<lambda>i. if f_mask f then (pre @ body @ rest) ! (length pre + i) XOR f_masking_key f ! (i mod 4)
        else (pre @ body @ rest) ! (length pre + i)) [0..<length body] = unmask f body"
    by (rule nth_equalityI) (auto simp: unmask_def mask_payload_def nth_append)
  then show ?thesis
    using assms(2) u s by (simp add: read_payload_def Let_def)
qed

text \<open>The parser's frame after it has read one frame: what \<open>decoded\<close> writes over the old one.\<close>

definition decoded :: "bool \<Rightarrow> WsOpcode \<Rightarrow> byte list option \<Rightarrow> byte list \<Rightarrow> Frame \<Rightarrow> Frame" where
  "decoded fin opcode key payload f = f\<lparr>f_fin := fin, f_opcode := opcode, f_mask := (key \<noteq> None),
     f_payload_length := of_nat (length payload),
     f_masking_key := (case key of None \<Rightarrow> f_masking_key f | Some k \<Rightarrow> k),
     f_payload_data := payload,
     f_text_payload := (if opcode = Text then from_bytes payload else f_text_payload f)\<rparr>"

lemma length_mask_payload [simp]: "length (mask_payload k bs) = length bs"
  by (simp add: mask_payload_def)

lemma length_len_field: "length (len_field n) \<le> 8"
  by (simp add: len_field_def)

text \<open>The bytes of a frame before its payload, and what the parser has read when it gets there.\<close>

definition ws_header :: "bool \<Rightarrow> WsOpcode \<Rightarrow> byte list option \<Rightarrow> nat \<Rightarrow> byte list" where
  "ws_header fin opcode key n =
     [first_byte fin opcode, (if key = None then 0 else 0x80) OR len_code n] @ len_field n @
     (case key of None \<Rightarrow> [] | Some k \<Rightarrow> k)"

definition header_read :: "bool \<Rightarrow> WsOpcode \<Rightarrow> byte list option \<Rightarrow> nat \<Rightarrow> Frame \<Rightarrow> Frame" where
  "header_read fin opcode key n f = f\<lparr>f_fin := fin, f_opcode := opcode, f_mask := (key \<noteq> None),
     f_payload_length := of_nat n, f_masking_key := (case key of None \<Rightarrow> f_masking_key f | Some k \<Rightarrow> k)\<rparr>"

definition ws_body :: "byte list option \<Rightarrow> byte list \<Rightarrow> byte list" where
  "ws_body key payload = (case key of None \<Rightarrow> payload | Some k \<Rightarrow> mask_payload k payload)"

lemma ws_encode_parts: "ws_encode fin opcode key payload = ws_header fin opcode key (length payload) @ ws_body key payload"
  by (simp add: ws_encode_def ws_header_def ws_body_def split: option.split)

lemma length_ws_body [simp]: "length (ws_body key payload) = length payload"
  by (simp add: ws_body_def split: option.split)

lemma length_ws_header: "(\<And>k. key = Some k \<Longrightarrow> length k = 4) \<Longrightarrow> length (ws_header fin opcode key n) \<le> 14"
  using length_len_field [of n] by (simp add: ws_header_def split: option.split)

lemma readFrame_header:
  assumes "valid_opcode opcode" "opcode \<noteq> Close" "\<And>k. key = Some k \<Longrightarrow> length k = 4"
  shows "readFrame (ws_header fin opcode key n @ tail) f =
    read_payload (ws_header fin opcode key n @ tail) (length (ws_header fin opcode key n)) (header_read fin opcode key n f)"
proof -
  let ?b0 = "first_byte fin opcode" and ?b1 = "(if key = None then 0 else 0x80) OR len_code n"
  let ?k = "case key of None \<Rightarrow> [] | Some k \<Rightarrow> k"
  define pre where "pre = [?b0, ?b1] @ len_field n"
  have data: "ws_header fin opcode key n = pre @ ?k" by (simp add: ws_header_def pre_def)
  have lk: "length (pre @ ?k) = length pre + (case key of None \<Rightarrow> 0 | Some k \<Rightarrow> 4)"
    using assms(3) by (simp split: option.split)
  have nths: "(pre @ ?k @ tail) ! 0 = ?b0" "(pre @ ?k @ tail) ! 1 = ?b1" "\<not> length (pre @ ?k @ tail) < 2"
    by (simp_all add: pre_def)
  let ?f = "f\<lparr>f_fin := fin, f_opcode := opcode, f_mask := (key \<noteq> None), f_payload_length := ucast (len_code n)\<rparr>"
  let ?g = "f\<lparr>f_fin := fin, f_opcode := opcode, f_mask := (key \<noteq> None), f_payload_length := of_nat n\<rparr>"
  have rl: "read_length (pre @ ?k @ tail) 2 ?f = (Some (length pre), ?g)"
    using read_length_field [of ?f n ?b0 ?b1 "?k @ tail"] by (simp add: pre_def)
  have rk: "read_key (pre @ ?k @ tail) (length pre) ?g = (Some (length (pre @ ?k)), header_read fin opcode key n f)"
    using read_key_field [of ?g key pre tail] assms(3) lk by (simp add: header_read_def cong: option.case_cong)
  show ?thesis
    unfolding data append_assoc readFrame_def Let_def nths
    using nths(3) first_byte_fields [OF assms(1), of fin] second_byte_fields [of key n] assms(2)
    by (simp add: rl rk del: append_assoc not_None_eq)
qed

lemma readFrame_ws_encode:
  assumes "valid_opcode opcode" "opcode \<noteq> Close" "length payload \<le> max_size"
    and "\<And>k. key = Some k \<Longrightarrow> length k = 4"
  shows "readFrame (ws_encode fin opcode key payload @ rest) f = Inr (True, decoded fin opcode key payload f)"
proof -
  let ?h = "header_read fin opcode key (length payload) f"
  have "unmask ?h (ws_body key payload) = payload"
    by (simp add: unmask_def ws_body_def header_read_def mask_payload_twice split: option.split)
  then show ?thesis
    using readFrame_header [OF assms(1,2,4), where fin = fin and n = "length payload" and tail = "ws_body key payload @ rest" and f = f]
      read_payload_field [of ?h "ws_body key payload" "ws_header fin opcode key (length payload)" rest]
      length_ws_header [OF assms(4)] assms(3)
    by (cases "opcode = Text") (simp_all add: ws_encode_parts header_read_def decoded_def Let_def)
qed

text \<open>A frame that is cut off in its payload is refused.\<close>

lemma readFrame_cut:
  assumes "valid_opcode opcode" "opcode \<noteq> Close" "length payload \<le> max_size"
    and "\<And>k. key = Some k \<Longrightarrow> length k = 4" "14 \<le> m" "m < length (ws_encode fin opcode key payload)"
  shows "readFrame (take m (ws_encode fin opcode key payload)) f = Inr (False, header_read fin opcode key (length payload) f)"
proof -
  let ?hd = "ws_header fin opcode key (length payload)" and ?h = "header_read fin opcode key (length payload) f"
  have l: "length ?hd \<le> 14" using length_ws_header [OF assms(4)] .
  then have t: "take m (ws_encode fin opcode key payload) = ?hd @ take (m - length ?hd) (ws_body key payload)"
    using assms(5) by (simp add: ws_encode_parts)
  have n: "unat (f_payload_length ?h) = length payload"
    using assms(3) by (simp add: header_read_def unat_of_nat max_size_def)
  have "add_sz (length ?hd) (length payload) = length ?hd + length payload"
    using assms(3) l by (intro add_sz_small) (simp add: max_size_def size_mod_def)
  then show ?thesis
    using readFrame_header [OF assms(1,2,4), where fin = fin and n = "length payload" and tail = "take (m - length ?hd) (ws_body key payload)" and f = f]
      assms(5,6) l n
    by (simp add: t read_payload_def Let_def ws_encode_parts)
qed

section \<open>Properties of the parser\<close>



lemma read_payload_cases:
  assumes "read_payload data off f = Inr (True, g)" "off \<le> 14"
  shows "off + length (f_payload_data g) \<le> length data \<and>
    unat (f_payload_length g) = length (f_payload_data g)"
proof -
  let ?n = "unat (f_payload_length f)"
  from assms(1) have n: "?n \<le> max_size" and d: "add_sz off ?n \<le> length data"
    by (auto simp: read_payload_def Let_def split: if_splits)
  from n assms(2) have "add_sz off ?n = off + ?n"
    by (intro add_sz_small) (simp add: max_size_def size_mod_def)
  with d have "off + ?n \<le> length data" by simp
  moreover from assms(1) have "length (f_payload_data g) = ?n \<and> f_payload_length g = f_payload_length f"
    by (auto simp: read_payload_def Let_def split: if_splits)
  ultimately show ?thesis by simp
qed

lemma read_payload_error:
  assumes "read_payload data off f = Inl e" "off \<le> 14"
  shows "e = Length_error \<and> max_size < unat (f_payload_length f)"
  using assms by (auto simp: read_payload_def Let_def split: if_splits)



lemma be64_ones: "be64 (replicate 8 0xFF @ rest) = - 1"
proof -
  have u: "[0..<8] = [0, 1, 2, 3, 4, 5, 6, 7]" by (simp add: upt_rec)
  show ?thesis unfolding be64_def u by (simp add: nth_append)
qed

lemma low_nibble: "b AND 0x0F = take_bit 4 b" for b :: byte
  by (simp add: take_bit_eq_mask mask_numeral)

lemma unat_low_nibble: "unat (b AND 0x0F) = unat b mod 16" for b :: byte
  unfolding low_nibble unsigned_take_bit_eq by (simp add: take_bit_eq_mod)

lemma read_payload_wraps:
  assumes "f_payload_length f = - 1" "0 < off" "off \<le> Suc (length data)" "off < size_mod"
  shows "read_payload data off f = Inl Length_error"
proof -
  have u: "unat (- 1 :: 64 word) = size_mod - 1"
    by (simp add: unsigned_minus_1_eq_mask mask_eq_exp_minus_1 size_mod_def)
  have "add_sz off (size_mod - 1) = off - 1"
    using assms(2,4) by (simp add: add_sz_def mod_if size_mod_def)
  then show ?thesis
    using assms by (simp add: read_payload_def u) (simp add: max_size_def size_mod_def)
qed

lemma readFrame_wraps:
  "readFrame ([b0, 0x7F] @ replicate 8 0xFF @ rest) f =
     (if opcode_of (b0 AND 0x0F) = Close
      then Inr (False, f\<lparr>f_fin := (b0 AND 0x80 \<noteq> 0), f_opcode := Close\<rparr>)
      else Inl Length_error)"
  using be64_ones [of rest]
  by (auto simp: readFrame_def Let_def read_length_def read_key_def read_payload_wraps size_mod_def)

text \<open>
  A ten-byte header with an all-ones extended length passes the wrapping bound check
  of \<open>readFrame\<close> and makes \<open>payload_data.resize\<close> throw, whatever follows it and whatever the
  opcode, except a close frame, which is turned down before its length is read.
\<close>

lemma readFrame_throws_length_error:
  "readFrame ([b0, 0x7F] @ replicate 8 0xFF @ rest) f =
     (if opcode_of (b0 AND 0x0F) = Close
      then Inr (False, f\<lparr>f_fin := (b0 AND 0x80 \<noteq> 0), f_opcode := Close\<rparr>)
      else Inl Length_error)"
  by (rule readFrame_wraps)

lemma send_buffer_rfc:
  assumes "length msg \<le> 0xFFFF"
  shows "send_buffer msg ty = ws_encode True (opcode_of (frame_type_byte ty)) None (to_bytes msg)"
proof -
  have o: "0x80 OR frame_type_byte ty = first_byte True (opcode_of (frame_type_byte ty))"
    by (cases ty) (simp_all add: first_byte_def opcode_of_def)
  have l: "length_bytes_be 2 n = [of_nat (n div 256), of_nat n]" for n
    by (simp add: length_bytes_be_def octet_def numeral_2_eq_2)
  show ?thesis
    using assms by (auto simp: send_buffer_def ws_encode_def o len_code_def len_field_def l)
qed

lemma frame_type_not_close: "opcode_of ((0x80 OR frame_type_byte ty) AND 0x0F) \<noteq> Close"
  by (cases ty) (simp_all add: opcode_of_def)

text \<open>
  A message above 65535 bytes is not delivered: when the frame \<open>send\<close> builds for it
  is accepted at all, at least eight of its bytes have been read as its length.
\<close>

lemma send_over_64k_loses_message:
  assumes "0xFFFF < length msg" "readFrame (send_buffer msg ty) f = Inr (True, g)"
  shows "length (f_payload_data g) + 8 \<le> length msg"
proof -
  have nths: "send_buffer msg ty ! 0 = 0x80 OR frame_type_byte ty" "send_buffer msg ty ! Suc 0 = 127"
    "length (send_buffer msg ty) = length msg + 2"
    using assms(1) by (auto simp: send_buffer_def)
  obtain h where h: "read_payload (send_buffer msg ty) 10 h = Inr (True, g)"
    using assms(2) assms(1) frame_type_not_close [of ty]
    by (simp add: readFrame_def Let_def nths read_length_def read_key_def del: bit.conj_disj_distrib2 word_bw_comms)
  from read_payload_cases [OF h] nths(3) show ?thesis by simp
qed

text \<open>
  The probe the server uses to tell a frame from an HTTP request: two or more bytes
  are a frame exactly when the high bit of the first is set and its low four bits are at
  most ten, reserved opcodes included, so no ASCII request is taken for a frame.
\<close>

lemma getWebSocketFrame_classifies:
  "getWebSocketFrame (c # c' # s) =
     (if 128 \<le> byte_of c \<and> byte_of c mod 16 \<le> 10 then Some (opcode_of (of_nat (byte_of c mod 16))) else None)"
proof -
  let ?b = "of_nat (byte_of c) :: byte"
  have u: "unat ?b = byte_of c"
    by (simp add: unat_of_nat)
  have n: "unat (?b AND 0x0F) = byte_of c mod 16"
    using unat_low_nibble [of ?b] u by simp
  then have w: "?b AND 0x0F = of_nat (byte_of c mod 16)"
    by (simp flip: n)
  have h: "?b AND 0x80 \<noteq> 0 \<longleftrightarrow> 128 \<le> byte_of c"
  proof -
    have "odd (byte_of c div 128) \<longleftrightarrow> 128 \<le> byte_of c"
    proof -
      have "odd (n div 128) \<longleftrightarrow> 128 \<le> n" if "n < 256" for n :: nat
      proof (cases "128 \<le> n")
        case True
        with that have "n div 128 = 1" by (intro div_nat_eqI) simp_all
        with True show ?thesis by simp
      qed simp
      then show ?thesis using byte_of_less [of c] .
    qed
    moreover have "bit ?b 7 \<longleftrightarrow> bit (byte_of c) 7" by (simp add: bit_of_nat_iff)
    ultimately show ?thesis by (simp add: test_bit_7 bit_iff_odd [of "byte_of c"])
  qed
  have l: "?b AND 0x0F \<le> 0xA \<longleftrightarrow> byte_of c mod 16 \<le> 10"
    using n by (simp add: word_le_nat_alt)
  show ?thesis
    using h l w by (auto simp: getWebSocketFrame_def to_bytes_def Let_def)
qed

lemma to_from_bytes: "to_bytes (from_bytes bs) = bs"
proof -
  have "unat b mod 256 = unat b" for b :: byte
  proof -
    have "unat b < 256" by (rule order_less_le_trans [OF unsigned_less]) simp
    then show ?thesis by simp
  qed
  then show ?thesis by (simp add: to_bytes_def from_bytes_def comp_def)
qed

lemma getWebSocketFrame_ws_encode:
  assumes "valid_opcode opcode" "opcode_byte opcode \<le> 10"
  shows "getWebSocketFrame (from_bytes (ws_encode fin opcode key payload @ rest)) =
    (if fin then Some opcode else None)"
proof -
  have "opcode_byte opcode = first_byte fin opcode AND 0x0F"
    using assms(1) by (cases opcode; cases fin; auto simp: first_byte_def)
  then show ?thesis
    using assms first_byte_fields [OF assms(1), of fin]
    by (auto simp: getWebSocketFrame_def to_from_bytes Let_def ws_encode_def)
qed

lemma readFrame_not_close:
  assumes "readFrame data f = Inr (True, g)"
  shows "f_opcode g \<noteq> Close"
proof -
  have "readFrame data f = Inr (True, g) \<Longrightarrow> f_opcode g \<noteq> Close"
    by (auto simp: readFrame_def read_length_def read_key_def read_payload_def Let_def split: if_splits)
  with assms show ?thesis by blast
qed

lemma ws_read_never_closes:
  assumes "ws_read ws msg = Inr (r, m, ws', closed)"
  shows "\<not> closed"
  using assms readFrame_not_close
  by (auto simp: ws_read_def Let_def split: sum.splits prod.splits bool.splits if_splits)

text \<open>
  What a handler reads, by opcode: a text frame gives its text, a close frame leaves
  the message alone; a binary, ping or pong frame is reported with the text payload the
  object already had, so its own payload is not delivered.
\<close>

lemma ws_read_frame:
  assumes "valid_opcode opcode" "length payload \<le> max_size" "\<And>k. key = Some k \<Longrightarrow> length k = 4"
    and "ws_byte_data ws = ws_encode fin opcode key payload @ rest"
  shows "map_sum id (\<lambda>(r, m, _). (r, m)) (ws_read ws msg) = Inr
    (case opcode of
       Text \<Rightarrow> (Text_result, from_bytes payload)
     | Binary \<Rightarrow> (Binary_result, f_text_payload (ws_frame ws))
     | Ping \<Rightarrow> (Ping_result, f_text_payload (ws_frame ws))
     | Pong \<Rightarrow> (Pong_result, f_text_payload (ws_frame ws))
     | Close \<Rightarrow> (Fail, msg)
     | _ \<Rightarrow> (Fail, f_text_payload (ws_frame ws)))"
proof (cases "opcode = Close")
  case True
  have "(ws_encode fin opcode key payload @ rest) ! 0 = first_byte fin opcode"
    "\<not> length (ws_encode fin opcode key payload @ rest) < 2"
    by (simp_all add: ws_encode_def)
  then show ?thesis
    using True assms(4) first_byte_fields [OF assms(1), of fin]
    by (simp add: ws_read_def readFrame_def Let_def)
next
  case False
  then show ?thesis
    using readFrame_ws_encode [OF assms(1) False assms(2,3), of key fin rest "ws_frame ws"] assms(4)
    by (auto simp: ws_read_def decoded_def split: WsOpcode.split)
qed

lemma writeFrame_rfc:
  assumes "length message < 126" 
  shows "writeFrame message fin opcode key = ws_encode fin opcode key (to_bytes message)"
  using assms
  by (auto simp: writeFrame_def ws_encode_def first_byte_def len_code_def len_field_def mask_payload_def
      Let_def split: option.split)

definition read_one_frame :: "byte list \<Rightarrow> (bool \<times> WsOpcode \<times> byte list option \<times> byte list) option" where
  "read_one_frame data =
     (case readFrame data (new_frame 0 []) of
        Inr (True, f) \<Rightarrow>
          Some (f_fin f, f_opcode f, if f_mask f then Some (f_masking_key f) else None, f_payload_data f)
      | _ \<Rightarrow> None)"

interpretation ws_frames: codec "\<lambda>(fin, opcode, key, payload). ws_encode fin opcode key payload" read_one_frame
  "\<lambda>(fin, opcode, key, payload). valid_opcode opcode \<and> opcode \<noteq> Close \<and> length payload \<le> max_size \<and>
     (\<forall>k. key = Some k \<longrightarrow> length k = 4)"
proof (unfold_locales, clarify)
  fix fin :: bool and opcode and key :: "byte list option" and payload :: "byte list"
  assume a: "valid_opcode opcode" "opcode \<noteq> Close" "length payload \<le> max_size"
    "\<forall>k. key = Some k \<longrightarrow> length k = 4"
  show "read_one_frame (ws_encode fin opcode key payload) = Some (fin, opcode, key, payload)"
    using readFrame_ws_encode [OF a(1-3), of key fin "[]" "new_frame 0 []"] a(4)
    by (auto simp: read_one_frame_def decoded_def split: option.split)
qed

lemma ws_encode_injective:
  assumes "ws_encode fin opcode key payload = ws_encode fin' opcode' key' payload'"
    "valid_opcode opcode" "opcode \<noteq> Close" "length payload \<le> max_size" "\<forall>k. key = Some k \<longrightarrow> length k = 4"
    "valid_opcode opcode'" "opcode' \<noteq> Close" "length payload' \<le> max_size" "\<forall>k. key' = Some k \<longrightarrow> length k = 4"
  shows "fin = fin' \<and> opcode = opcode' \<and> key = key' \<and> payload = payload'"
  using ws_frames.enc_inject [of "(fin, opcode, key, payload)" "(fin', opcode', key', payload')"] assms
  by simp

lemma isOpen_spec:
  "isOpen q = (\<not> (rq_pending q \<noteq> [] \<or> rq_end q = At_eof \<or> 
     (\<exists>e. rq_end q = Recv_error e \<and> e \<notin> {EAGAIN, EWOULDBLOCK, ENOTCONN})),
     (rq_pending q \<noteq> [] \<or> rq_end q = At_eof \<or> 
     (\<exists>e. rq_end q = Recv_error e \<and> e \<notin> {EAGAIN, EWOULDBLOCK, ENOTCONN})),
     q\<lparr>rq_pending := tl (rq_pending q)\<rparr>)"
  by (cases q) (auto simp: isOpen_def isSocketAlive_def split: list.split recv_end.split)

text \<open>
  C15. The frame parser inverts the RFC 6455 layout: every frame that is not a close frame, of
  any length the parser can store, masked or not, is read back with its flags, opcode, key
  and payload, whatever bytes follow it.
\<close>

theorem ws_frame_roundtrip:
  assumes "valid_opcode opcode" "opcode \<noteq> Close" "length payload \<le> max_size"
    and "\<And>k. key = Some k \<Longrightarrow> length k = 4"
  shows "readFrame (ws_encode fin opcode key payload @ rest) f = Inr (True, decoded fin opcode key payload f)"
  using assms by (rule readFrame_ws_encode)

text \<open>The masked frame of RFC 6455, section 5.7.\<close>

lemma hello_frame:
  "ws_encode True Text (Some [0x37, 0xFA, 0x21, 0x3D]) (to_bytes ''Hello'') =
     [0x81, 0x85, 0x37, 0xFA, 0x21, 0x3D, 0x7F, 0x9F, 0x4D, 0x51, 0x58]"
  by code_simp

theorem ws_frame_roundtrip_witness:
  "readFrame [0x81, 0x85, 0x37, 0xFA, 0x21, 0x3D, 0x7F, 0x9F, 0x4D, 0x51, 0x58, 0xAA] (new_frame 7 []) =
     Inr (True, decoded True Text (Some [0x37, 0xFA, 0x21, 0x3D]) (to_bytes ''Hello'') (new_frame 7 []))"
  using ws_frame_roundtrip [of Text "to_bytes ''Hello''" "Some [0x37, 0xFA, 0x21, 0x3D]" True "[0xAA]" "new_frame 7 []"]
  by (simp add: hello_frame max_size_def)


lemma send_over_64k_loses_message_witness:
  "\<exists>g. readFrame (send_buffer (replicate 65536 (char_of (0::nat))) Text_frame) (new_frame 7 []) = Inr (True, g) \<and>
     length (f_payload_data g) + 8 \<le> 65536"
proof -
  let ?msg = "replicate 65536 (char_of (0::nat))"
  have b: "to_bytes ?msg = replicate 65536 0" by (simp add: to_bytes_def)
  have d: "send_buffer ?msg Text_frame = [0x81, 127] @ replicate 65536 0"
    by (simp add: send_buffer_def b)
  have u: "[0..<8] = [0, 1, 2, 3, 4, 5, 6, 7]" by (simp add: upt_rec)
  have z: "be64 (replicate 65536 0) = 0"
    unfolding be64_def u by simp
  have "\<exists>g. readFrame (send_buffer ?msg Text_frame) (new_frame 7 []) = Inr (True, g)"
    unfolding d readFrame_def
    by (simp add: Let_def opcode_of_def read_length_def read_key_def read_payload_def z add_sz_def size_mod_def)
  then obtain g where g: "readFrame (send_buffer ?msg Text_frame) (new_frame 7 []) = Inr (True, g)" ..
  have "length (f_payload_data g) + 8 \<le> length ?msg"
    by (rule send_over_64k_loses_message [OF _ g]) simp
  with g show ?thesis by auto
qed

lemma ws_read_frame_witness:
  "map_sum id (\<lambda>(r, m, _). (r, m)) (ws_read (WebSocket_new 7
     (from_bytes (ws_encode True Binary None [1, 2, 3])) Map.empty []) ''old'') = Inr (Binary_result, [])"
  using ws_read_frame [of Binary "[1, 2, 3]" None "WebSocket_new 7
     (from_bytes (ws_encode True Binary None [1, 2, 3])) Map.empty []" True "[]" "''old''"]
  by (simp add: WebSocket_new_def new_frame_def to_from_bytes max_size_def)

end
