(* ===== verification/Tls.thy ===== *)
theory Tls
  imports Cpp_Prelude
begin

text \<open>
  The TLS library (OpenSSL) as the sources use it: its connection objects, by the order in
  which they were created, and the scripts of what the coming calls return. The library is
  not part of the sources; what is modelled is its documented interface. A call on a null
  pointer or on an object that was freed is an error of the caller (\<open>Invalid_pointer\<close>),
  except that \<open>SSL_free\<close> ignores the null pointer.
\<close>

section \<open>Objects and scripts\<close>

type_synonym ssl = nat

text \<open>What \<open>SSL_get_error\<close> tells of a call that failed.\<close>

datatype ssl_error = Want_read | Want_write | Ssl_error nat

datatype ssl_read = Read string | Read_failed ssl_error

text \<open>
  The record also keeps which objects are live, on which of them a handshake has succeeded,
  and which have carried data. A script entry of a write is the count the call reports and
  the value of \<open>errno\<close> after it.
\<close>

record tls =
  t_next :: ssl
  t_live :: "ssl set"
  t_established :: "ssl set"
  t_used :: "ssl set"
  t_out :: "(ssl \<times> string) list"
  t_new :: "bool list"
  t_handshakes :: "ssl_error option list"
  t_reads :: "ssl_read list"
  t_writes :: "(nat \<times> errno) list"

definition tls_start :: tls where
  "tls_start = \<lparr>t_next = 0, t_live = {}, t_established = {}, t_used = {}, t_out = [],
     t_new = [], t_handshakes = [], t_reads = [], t_writes = []\<rparr>"

text \<open>Between two calls only the outcomes of coming calls can change.\<close>

definition tls_environment :: "tls \<Rightarrow> tls \<Rightarrow> bool" where
  "tls_environment t t' \<longleftrightarrow>
     t_next t' = t_next t \<and> t_live t' = t_live t \<and> t_established t' = t_established t \<and>
     t_used t' = t_used t \<and> t_out t' = t_out t"

lemma tls_environment_refl [simp]: "tls_environment t t"
  by (simp add: tls_environment_def)

section \<open>Calls\<close>

definition ssl_new :: "tls \<Rightarrow> ssl option \<times> tls" where
  "ssl_new t =
     (case t_new t of
        True # ns \<Rightarrow> (Some (t_next t), t\<lparr>t_next := t_next t + 1, t_live := insert (t_next t) (t_live t), t_new := ns\<rparr>)
      | False # ns \<Rightarrow> (None, t\<lparr>t_new := ns\<rparr>)
      | [] \<Rightarrow> (None, t))"

definition ssl_free :: "ssl option \<Rightarrow> tls \<Rightarrow> tls result" where
  "ssl_free p t =
     (case p of
        None \<Rightarrow> Inr t
      | Some s \<Rightarrow> if s \<in> t_live t then Inr (t\<lparr>t_live := t_live t - {s}\<rparr>) else Inl Invalid_pointer)"

definition deref :: "ssl option \<Rightarrow> tls \<Rightarrow> ssl result" where
  "deref p t = (case p of None \<Rightarrow> Inl Invalid_pointer | Some s \<Rightarrow> if s \<in> t_live t then Inr s else Inl Invalid_pointer)"

text \<open>\<open>SSL_accept\<close> and \<open>SSL_connect\<close>, with the error of a failed call; nothing arrives once the script is used up.\<close>

definition ssl_handshake :: "ssl option \<Rightarrow> tls \<Rightarrow> (ssl_error option \<times> tls) result" where
  "ssl_handshake p t =
     (case deref p t of
        Inl e \<Rightarrow> Inl e
      | Inr s \<Rightarrow>
          Inr (case t_handshakes t of
                 [] \<Rightarrow> (Some Want_read, t)
               | None # hs \<Rightarrow> (None, t\<lparr>t_established := insert s (t_established t), t_handshakes := hs\<rparr>)
               | Some e # hs \<Rightarrow> (Some e, t\<lparr>t_handshakes := hs\<rparr>)))"

text \<open>\<open>SSL_read\<close> of at most \<open>n\<close> bytes; what does not fit stays for the next call.\<close>

definition ssl_read :: "nat \<Rightarrow> ssl option \<Rightarrow> tls \<Rightarrow> (ssl_read \<times> tls) result" where
  "ssl_read n p t =
     (case deref p t of
        Inl e \<Rightarrow> Inl e
      | Inr s \<Rightarrow>
          (let t = t\<lparr>t_used := insert s (t_used t)\<rparr>
           in Inr (case t_reads t of
                     [] \<Rightarrow> (Read_failed Want_read, t)
                   | Read_failed e # rs \<Rightarrow> (Read_failed e, t\<lparr>t_reads := rs\<rparr>)
                   | Read d # rs \<Rightarrow>
                       if d = [] then (Read_failed Want_read, t\<lparr>t_reads := rs\<rparr>)
                       else (Read (take n d), t\<lparr>t_reads := (if length d \<le> n then rs else Read (drop n d) # rs)\<rparr>))))"

text \<open>\<open>SSL_write\<close>: the count, cut to what was offered, and \<open>errno\<close>; \<open>None\<close> once the script is used up.\<close>

definition ssl_write :: "ssl option \<Rightarrow> string \<Rightarrow> tls \<Rightarrow> (nat \<times> errno \<times> tls) option result" where
  "ssl_write p data t =
     (case deref p t of
        Inl e \<Rightarrow> Inl e
      | Inr s \<Rightarrow>
          Inr (case t_writes t of
                 [] \<Rightarrow> None
               | (n, e) # ws \<Rightarrow>
                   Some (min n (length data), e,
                         t\<lparr>t_used := insert s (t_used t), t_out := t_out t @ [(s, take n data)], t_writes := ws\<rparr>)))"

definition ssl_sent :: "ssl \<Rightarrow> tls \<Rightarrow> string" where
  "ssl_sent s t = concat (map snd (filter (\<lambda>(s', _). s' = s) (t_out t)))"

lemma deref_iff [simp]:
  "deref p t = Inr s \<longleftrightarrow> p = Some s \<and> s \<in> t_live t"
  "deref p t = Inl e \<longleftrightarrow> e = Invalid_pointer \<and> (p = None \<or> (\<exists>s. p = Some s \<and> s \<notin> t_live t))"
  by (auto simp: deref_def split: option.splits)

lemma live_handshake:
  assumes "s \<in> t_live t"
  obtains r t' where "ssl_handshake (Some s) t = Inr (r, t')"
proof -
  have "\<exists>x. ssl_handshake (Some s) t = Inr x" using assms by (simp add: ssl_handshake_def deref_def)
  then show thesis using that by (auto simp: split_paired_all)
qed

lemma live_read:
  assumes "s \<in> t_live t"
  obtains r t' where "ssl_read n (Some s) t = Inr (r, t')"
proof -
  have "\<exists>x. ssl_read n (Some s) t = Inr x" using assms by (simp add: ssl_read_def deref_def Let_def)
  then show thesis using that by (auto simp: split_paired_all)
qed

section \<open>Well-formed objects\<close>

text \<open>
  Objects are created in order, a handshake comes before data, and what was freed once stays
  freed. Every call keeps this, whatever the caller does, except that data can be read or
  written on a live object before its handshake; the caller has to see to that.
\<close>

definition tls_ok :: "tls \<Rightarrow> bool" where
  "tls_ok t \<longleftrightarrow> t_live t \<subseteq> {..<t_next t} \<and> t_used t \<subseteq> t_established t \<and> t_established t \<subseteq> {..<t_next t}"

lemma ssl_new_ok:
  assumes "tls_ok t" "ssl_new t = (p, t')"
  shows "tls_ok t' \<and> t_established t' = t_established t \<and> t_live t' = t_live t \<union> set_option p \<and>
    set_option p \<inter> t_live t = {} \<and> set_option p \<inter> t_used t = {} \<and> t_used t' = t_used t"
  using assms by (fastforce simp: ssl_new_def tls_ok_def split: list.splits bool.splits)

lemma ssl_free_ok: "tls_ok t \<Longrightarrow> ssl_free p t = Inr t' \<Longrightarrow> tls_ok t'"
  by (auto simp: ssl_free_def tls_ok_def split: option.splits if_splits)

lemma ssl_handshake_ok:
  assumes "tls_ok t" "ssl_handshake p t = Inr (r, t')"
  shows "tls_ok t' \<and> t_live t' = t_live t \<and> t_established t \<subseteq> t_established t' \<and>
    (r = None \<longrightarrow> set_option p \<subseteq> t_established t')"
  using assms by (auto simp: ssl_handshake_def tls_ok_def split: sum.splits list.splits option.splits)

lemma ssl_read_ok:
  assumes "tls_ok t" "ssl_read n p t = Inr (r, t')" "set_option p \<subseteq> t_established t"
  shows "tls_ok t' \<and> t_live t' = t_live t \<and> t_established t' = t_established t"
  using assms by (auto simp: ssl_read_def tls_ok_def Let_def split: sum.splits list.splits ssl_read.splits if_splits)

lemma ssl_write_ok:
  assumes "tls_ok t" "ssl_write p data t = Inr (Some (n, e, t'))" "set_option p \<subseteq> t_established t"
  shows "tls_ok t' \<and> t_live t' = t_live t \<and> t_established t' = t_established t"
  using assms by (auto simp: ssl_write_def tls_ok_def split: sum.splits list.splits)

end
