(* ===== verification/Os_World.thy ===== *)
theory Os_World
  imports WebSocket Tls
begin

text \<open>
  The operating system as the servers see it: open descriptors, what is pending on each
  socket, the connections waiting to be accepted, the outcomes of the coming \<open>send\<close> calls,
  the files, and a record of what was sent and closed. Each system call is a function of
  the world. The outcomes come from scripts in the world, so a theorem about all worlds
  is a theorem about every behaviour of the peer and the kernel.
\<close>

section \<open>The world\<close>

datatype send_outcome = Sent nat | Send_failed errno

datatype accept_outcome = Accepted int | Accept_failed errno

datatype recv_outcome = Received string | Peer_closed | Recv_failed errno

datatype file_kind = Directory | Regular

text \<open>
  What \<open>stat\<close> tells of a path, and the bytes an \<open>ifstream\<close> reads from it, \<open>None\<close> if it
  cannot be opened.
\<close>

record inode =
  i_kind :: file_kind
  i_mtime :: int
  i_size :: nat
  i_open :: "string option"

record world =
  w_open :: "int set"
  w_closed :: "(int \<times> bool) list"
  w_out :: "(int \<times> string) list"
  w_sends :: "send_outcome list"
  w_socks :: "int \<Rightarrow> recv_queue"
  w_backlog :: "accept_outcome list"
  w_files :: "string \<rightharpoonup> inode"
  w_tls :: tls

text \<open>\<open>close\<close> reports whether the descriptor was open; the record keeps both.\<close>

definition sys_close :: "int \<Rightarrow> world \<Rightarrow> world" where
  "sys_close fd w =
     w\<lparr>w_open := w_open w - {fd}, w_closed := w_closed w @ [(fd, fd \<in> w_open w)]\<rparr>"

definition sys_recv :: "nat \<Rightarrow> int \<Rightarrow> world \<Rightarrow> recv_outcome \<times> world" where
  "sys_recv n fd w =
     (let q = w_socks w fd
      in if rq_pending q \<noteq> []
         then (Received (take n (rq_pending q)),
               w\<lparr>w_socks := (w_socks w)(fd := q\<lparr>rq_pending := drop n (rq_pending q)\<rparr>)\<rparr>)
         else (case rq_end q of At_eof \<Rightarrow> (Peer_closed, w) | Recv_error e \<Rightarrow> (Recv_failed e, w)))"

definition sys_accept :: "world \<Rightarrow> accept_outcome \<times> world" where
  "sys_accept w =
     (case w_backlog w of
        [] \<Rightarrow> (Accept_failed EAGAIN, w)
      | Accepted fd # bs \<Rightarrow> (Accepted fd, w\<lparr>w_open := insert fd (w_open w), w_backlog := bs\<rparr>)
      | Accept_failed e # bs \<Rightarrow> (Accept_failed e, w\<lparr>w_backlog := bs\<rparr>))"

text \<open>\<open>send\<close> takes a prefix of the data, never more than it was offered.\<close>

definition sys_send :: "int \<Rightarrow> string \<Rightarrow> world \<Rightarrow> (send_outcome \<times> world) option" where
  "sys_send fd data w =
     (case w_sends w of
        [] \<Rightarrow> None
      | Sent n # ss \<Rightarrow>
          Some (Sent (min n (length data)), w\<lparr>w_sends := ss, w_out := w_out w @ [(fd, take n data)]\<rparr>)
      | Send_failed e # ss \<Rightarrow> Some (Send_failed e, w\<lparr>w_sends := ss\<rparr>))"

text \<open>Paths are handed on as C strings: what follows a NUL byte is not part of the name.\<close>

definition c_str :: "string \<Rightarrow> string" where
  "c_str s = takeWhile (\<lambda>c. byte_of c \<noteq> 0) s"

definition stat_of :: "world \<Rightarrow> string \<Rightarrow> inode option" where
  "stat_of w path = w_files w (c_str path)"

definition file_contents :: "world \<Rightarrow> string \<rightharpoonup> string" where
  "file_contents w path = Option.bind (stat_of w path) i_open"

lemma c_str_id: "(\<And>c. c \<in> set s \<Longrightarrow> byte_of c \<noteq> 0) \<Longrightarrow> c_str s = s"
  by (simp add: c_str_def)

text \<open>All the bytes a socket was sent, in order.\<close>

definition sent_to :: "int \<Rightarrow> world \<Rightarrow> string" where
  "sent_to fd w = concat (map snd (filter (\<lambda>(f, _). f = fd) (w_out w)))"

lemma sent_to_append:
  "sent_to fd (w\<lparr>w_out := w_out w @ [(f, s)]\<rparr>) = sent_to fd w @ (if f = fd then s else [])"
  "sent_to fd (w\<lparr>w_sends := ss, w_out := w_out w @ [(f, s)]\<rparr>) = sent_to fd w @ (if f = fd then s else [])"
  "sent_to fd (w\<lparr>w_sends := ss\<rparr>) = sent_to fd w"
  by (simp_all add: sent_to_def)

lemma sys_frames:
  "sys_send fd data w = Some (r, w') \<Longrightarrow>
     w_open w' = w_open w \<and> w_closed w' = w_closed w \<and> w_socks w' = w_socks w \<and>
     w_backlog w' = w_backlog w \<and> w_files w' = w_files w \<and> w_tls w' = w_tls w"
  "sys_recv n fd w = (x, w'') \<Longrightarrow>
     w_open w'' = w_open w \<and> w_closed w'' = w_closed w \<and> w_out w'' = w_out w \<and>
     w_sends w'' = w_sends w \<and> w_backlog w'' = w_backlog w \<and> w_files w'' = w_files w \<and> w_tls w'' = w_tls w"
  by (auto simp: sys_send_def sys_recv_def Let_def split: list.splits send_outcome.splits if_splits
      recv_end.splits)

text \<open>The buffer sizes of \<open>src/src/server.h\<close>.\<close>

definition BUFFER_SIZE :: nat where
  "BUFFER_SIZE = 1024"

definition READ_BUFFER_SIZE :: nat where
  "READ_BUFFER_SIZE = 4096"

section \<open>Sending everything\<close>

text \<open>
  The retry loop of \<open>Server::sendResponse\<close>: the lambda \<open>sendAll\<close> calls itself on the rest
  of the data after a short write and on the same data when the socket is not ready.
\<close>

function sendAll :: "int \<Rightarrow> string \<Rightarrow> world \<Rightarrow> (bool \<times> world) exec" where
  "sendAll sd data w =
     (case sys_send sd data w of
        None \<Rightarrow> Spin
      | Some (Send_failed e, w') \<Rightarrow>
          if e = EAGAIN \<or> e = EWOULDBLOCK then sendAll sd data w' else Ret (False, w')
      | Some (Sent written, w') \<Rightarrow>
          if written < length data then sendAll sd (drop written data) w' else Ret (True, w'))"
  by pat_completeness auto

termination
  by (relation "measure (\<lambda>(sd, data, w). length (w_sends w))")
    (auto simp: sys_send_def split: list.splits send_outcome.splits)

declare sendAll.simps [simp del]

end
