(* ===== verification/Http_Date.thy ===== *)
theory Http_Date
  imports Wire_Text Os_World
begin

text \<open>
  \<open>utils::fileMtimeToHttpDate\<close>: the \<open>Last-Modified\<close> value of a file. \<open>gmtime\<close> is what
  \<open>gmtime_r\<close> fills in for a time that is not negative, by counting whole years, then whole
  months; \<open>timegm\<close> counts the other way and is the reference. \<open>getMtime\<close> is at the end.
\<close>

section \<open>Calendar\<close>

definition leap :: "nat \<Rightarrow> bool" where
  "leap y \<longleftrightarrow> y mod 4 = 0 \<and> (y mod 100 \<noteq> 0 \<or> y mod 400 = 0)"

definition year_days :: "nat \<Rightarrow> nat" where
  "year_days y = (if leap y then 366 else 365)"

definition month_days :: "nat \<Rightarrow> nat list" where
  "month_days y = [31, if leap y then 29 else 28, 31, 30, 31, 30, 31, 31, 30, 31, 30, 31]"

lemma year_days_pos: "0 < year_days y"
  by (simp add: year_days_def)


function split_year :: "nat \<Rightarrow> nat \<Rightarrow> nat \<times> nat" where
  "split_year y days =
     (if days < year_days y then (y, days) else split_year (Suc y) (days - year_days y))"
  by pat_completeness auto

termination
  by (relation "measure snd") (auto simp: year_days_def)

declare split_year.simps [simp del]


fun split_month :: "nat \<Rightarrow> nat list \<Rightarrow> nat \<Rightarrow> nat \<times> nat" where
  "split_month m [] days = (m, days)"
| "split_month m (n # ns) days = (if days < n then (m, days) else split_month (Suc m) ns (days - n))"

record tm =
  tm_sec :: nat
  tm_min :: nat
  tm_hour :: nat
  tm_mday :: nat
  tm_mon :: nat
  tm_year :: nat
  tm_wday :: nat

definition gmtime :: "nat \<Rightarrow> tm" where
  "gmtime t =
     (let days = t div 86400; s = t mod 86400;
          (y, yday) = split_year 1970 days;
          (m, d) = split_month 0 (month_days y) yday
      in \<lparr>tm_sec = s mod 60, tm_min = s div 60 mod 60, tm_hour = s div 3600,
          tm_mday = d + 1, tm_mon = m, tm_year = y, tm_wday = (days + 4) mod 7\<rparr>)"


section \<open>The date\<close>

definition day_names :: "string list" where
  "day_names = [''Sun'', ''Mon'', ''Tue'', ''Wed'', ''Thu'', ''Fri'', ''Sat'']"

definition month_names :: "string list" where
  "month_names = [''Jan'', ''Feb'', ''Mar'', ''Apr'', ''May'', ''Jun'', ''Jul'', ''Aug'', ''Sep'',
     ''Oct'', ''Nov'', ''Dec'']"

definition two_digits :: "nat \<Rightarrow> string" where
  "two_digits n = [char_of (48 + n div 10), char_of (48 + n mod 10)]"

definition http_date :: "tm \<Rightarrow> string" where
  "http_date tm =
     day_names ! tm_wday tm @ '', '' @ two_digits (tm_mday tm) @ '' '' @ month_names ! tm_mon tm @
     '' '' @ to_string (tm_year tm) @ '' '' @ two_digits (tm_hour tm) @ '':'' @
     two_digits (tm_min tm) @ '':'' @ two_digits (tm_sec tm) @ '' GMT''"

text \<open>
  \<open>gmtime_r\<close> returns null when the year does not fit an \<open>int\<close>; \<open>strftime\<close> returns 0 when
  the text and its terminator do not fit the 64 bytes of \<open>buf\<close>.
\<close>

definition fileMtimeToHttpDate :: "int \<Rightarrow> string" where
  "fileMtimeToHttpDate mtime =
     (if mtime < 0 then []
      else (let tm = gmtime (nat mtime)
            in if 2 ^ 31 \<le> int (tm_year tm) - 1900 then []
               else if 64 < length (http_date tm) + 1 then []
               else http_date tm))"

section \<open>Correctness\<close>





lemma two_digits_length [simp]: "length (two_digits n) = 2"
  by (simp add: two_digits_def)







section \<open>getMtime\<close>

text \<open>
  \<open>last_write_time\<close> gives the time in nanoseconds of the file clock, whose epoch the standard leaves
  open; it is an argument. The cast to seconds rounds towards zero.
\<close>

definition getMtime :: "(string \<Rightarrow> int) \<Rightarrow> world \<Rightarrow> string \<Rightarrow> int" where
  "getMtime last_write_time w path =
     (case stat_of w path of
        None \<Rightarrow> - 1
      | Some status \<Rightarrow>
          if i_kind status \<noteq> Regular then - 1
          else sgn (last_write_time path) * (\<bar>last_write_time path\<bar> div 1000000000))"

text \<open>A file clock that starts after the file was written gives a negative time, and so no date.\<close>

lemma getMtime_no_date:
  assumes "last_write_time path \<le> - 1000000000"
  shows "fileMtimeToHttpDate (getMtime last_write_time w path) = []"
  using assms by (auto simp: getMtime_def fileMtimeToHttpDate_def split: option.split)

end
