(* ===== verification/Server.thy ===== *)
theory Server
  imports Router Response Utils_Codec Os_World Http_Date
begin

text \<open>
  The plain-text server, \<open>src/src/server.h\<close> and \<open>src/src/server.cc\<close>: its state, the route and
  WebSocket tables, one HTTP exchange from the bytes received to the bytes sent, static
  files, the WebSocket handshake, and what the event loop does with one descriptor. The
  loop itself is in \<open>Server_Loop\<close>.

  A request handler is a pure function of the request and the response it fills in. A
  WebSocket handler acts on the world, since it sends frames itself.
\<close>

section \<open>State\<close>

type_synonym request_handler = "Request \<Rightarrow> Response \<Rightarrow> Response"

type_synonym ws_handler = "WebSocket \<Rightarrow> world \<Rightarrow> world exec"

datatype HttpMethod = GET | POST | PUT | DELETE | PATCH | HEAD | OPTIONS

fun toString :: "HttpMethod \<Rightarrow> string" where
  "toString GET = ''GET''"
| "toString POST = ''POST''"
| "toString PUT = ''PUT''"
| "toString DELETE = ''DELETE''"
| "toString PATCH = ''PATCH''"
| "toString HEAD = ''HEAD''"
| "toString OPTIONS = ''OPTIONS''"

record WsRoute =
  wr_sockfd :: int
  wr_path :: string
  wr_handler :: ws_handler
  wr_query :: "string \<rightharpoonup> string"

definition ws_less :: "WsRoute \<Rightarrow> WsRoute \<Rightarrow> bool" where
  "ws_less r s =
     (if wr_path r \<noteq> wr_path s then wr_path r < wr_path s else wr_sockfd r < wr_sockfd s)"

record Server =
  sv_router :: "request_handler node"
  sv_static_directory :: string
  sv_running :: bool
  sv_client_list :: "int list"
  sv_sockfd :: int
  sv_port :: int
  sv_host :: string
  sv_pre_routing_handler :: "request_handler option"
  sv_post_routing_handler :: "request_handler option"
  sv_default_headers :: "(string \<times> string) list"
  sv_wsRoutes :: "WsRoute list"

definition Server_new :: "string \<Rightarrow> int \<Rightarrow> Server" where
  "Server_new host port =
     \<lparr>sv_router = empty_node, sv_static_directory = ''./assets'', sv_running = False,
      sv_client_list = [], sv_sockfd = - 1, sv_port = port, sv_host = host,
      sv_pre_routing_handler = None, sv_post_routing_handler = None,
      sv_default_headers = [], sv_wsRoutes = []\<rparr>"

text \<open>Members the constructors leave uninitialised: what the memory happens to hold.\<close>

record uninitialised =
  un_content_type :: "ContentType option"
  un_masking_key :: "byte list"
  un_sockfd :: int

section \<open>Configuration\<close>

definition setRoute :: "HttpMethod \<Rightarrow> string \<Rightarrow> request_handler \<Rightarrow> Server \<Rightarrow> Server" where
  "setRoute m path handler sv =
     sv\<lparr>sv_router := snd (registerHandler (toString m) path handler (sv_router sv))\<rparr>"

definition setPreRoute :: "request_handler \<Rightarrow> Server \<Rightarrow> Server" where
  "setPreRoute handler sv = sv\<lparr>sv_pre_routing_handler := Some handler\<rparr>"

definition setPostRoute :: "request_handler \<Rightarrow> Server \<Rightarrow> Server" where
  "setPostRoute handler sv = sv\<lparr>sv_post_routing_handler := Some handler\<rparr>"

text \<open>\<open>std::set::insert\<close>: in order, and not at all when an equivalent element is there.\<close>

fun ws_insert :: "WsRoute \<Rightarrow> WsRoute list \<Rightarrow> WsRoute list" where
  "ws_insert r [] = [r]"
| "ws_insert r (s # ss) =
     (if ws_less r s then r # s # ss else if ws_less s r then s # ws_insert r ss else s # ss)"

definition setWsRoute :: "string \<Rightarrow> ws_handler \<Rightarrow> Server \<Rightarrow> Server" where
  "setWsRoute path handler sv =
     sv\<lparr>sv_wsRoutes := ws_insert
          \<lparr>wr_sockfd = - 1, wr_path = path, wr_handler = handler, wr_query = Map.empty\<rparr> (sv_wsRoutes sv)\<rparr>"

definition setDefaultHeaders :: "(string \<times> string) list \<Rightarrow> Server \<Rightarrow> Server" where
  "setDefaultHeaders headers sv = sv\<lparr>sv_default_headers := headers\<rparr>"

definition setAssetsDirectory :: "string \<Rightarrow> Server \<Rightarrow> Server" where
  "setAssetsDirectory directory sv = sv\<lparr>sv_static_directory := directory\<rparr>"

section \<open>WebSocket routes\<close>

fun updateWsRoute ::
  "string \<Rightarrow> (string \<rightharpoonup> string) \<Rightarrow> int \<Rightarrow> WsRoute list \<Rightarrow> bool \<times> WsRoute list" where
  "updateWsRoute path query sockfd [] = (False, [])"
| "updateWsRoute path query sockfd (r # rs) =
     (if wr_path r = path then (True, r\<lparr>wr_sockfd := sockfd, wr_query := query\<rparr> # rs)
      else (let (found, rs') = updateWsRoute path query sockfd rs in (found, r # rs')))"

fun getWsRouteBySocketId :: "int \<Rightarrow> WsRoute list \<Rightarrow> WsRoute option" where
  "getWsRouteBySocketId sockfd [] = None"
| "getWsRouteBySocketId sockfd (r # rs) =
     (if wr_sockfd r = sockfd then Some r else getWsRouteBySocketId sockfd rs)"

definition dispatchWebSocket ::
  "uninitialised \<Rightarrow> int \<Rightarrow> string \<Rightarrow> WsRoute list \<Rightarrow> world \<Rightarrow> world exec" where
  "dispatchWebSocket u sd raw_request rs w =
     (case getWsRouteBySocketId sd rs of
        None \<Rightarrow> Ret w
      | Some route \<Rightarrow>
          wr_handler route (WebSocket_new sd raw_request (wr_query route) (un_masking_key u)) w)"

section \<open>Static files\<close>

text \<open>
  \<open>handleStaticResource\<close>: \<open>request_path.back()\<close> on an empty string is undefined, and
  \<open>mimeType().value()\<close> throws when the extension is unknown.
\<close>

definition serve_file :: "world \<Rightarrow> string \<Rightarrow> Request \<Rightarrow> Response \<Rightarrow> Response result" where
  "serve_file w path req res =
     (case stat_of w path of
        None \<Rightarrow> Inr (setContent PLAIN_TEXT S_not_found ''Not Found'' res)
      | Some st \<Rightarrow>
          (case i_open st of
             None \<Rightarrow> Inr res
           | Some content \<Rightarrow>
               (case mimeType req of
                  None \<Rightarrow> Inl Bad_optional_access
                | Some mime \<Rightarrow>
                    (let res = setHeader ''Content-Type'' mime res;
                         res = setHeader ''Cache-Control'' ''public, max-age=3600'' res;
                         res = setHeader ''Content-Length'' (to_string (length content)) res;
                         last_modified = fileMtimeToHttpDate (i_mtime st);
                         res = (if last_modified \<noteq> [] then setHeader ''Last-Modified'' last_modified res else res);
                         etag = computeEtag (to_int32 (i_mtime st)) (of_nat (i_size st));
                         res = (if etag \<noteq> [] then setHeader ''ETag'' etag res else res)
                     in Inr (put_content content res)))))"

definition handleStaticResource ::
  "world \<Rightarrow> string \<Rightarrow> Request \<Rightarrow> Response \<Rightarrow> (Request \<times> Response) result" where
  "handleStaticResource w static_directory req res =
     (let request_path = req_path req; path = static_directory @ request_path
      in case stat_of w path of
           Some st \<Rightarrow>
             if i_kind st = Directory then
               (if request_path = [] then Inl Undefined_behaviour
                else (let request_path = request_path @ (if last request_path \<noteq> CHR ''/'' then ''/'' else []);
                          request_path = request_path @ ''index.html'';
                          path = static_directory @ request_path;
                          req = setMimeType ''text/html'' (setPath request_path req)
                      in map_sum id (Pair req) (serve_file w path req res)))
             else map_sum id (Pair req) (serve_file w path req res)
         | None \<Rightarrow> map_sum id (Pair req) (serve_file w path req res))"

section \<open>Routing one request\<close>

definition run_hook :: "request_handler option \<Rightarrow> Request \<Rightarrow> Response \<Rightarrow> Response" where
  "run_hook handler req res = (case handler of None \<Rightarrow> res | Some h \<Rightarrow> h req res)"

definition handleRoute :: "world \<Rightarrow> Server \<Rightarrow> Request \<Rightarrow> Response \<Rightarrow> string option result" where
  "handleRoute w sv req res =
     (let res = setStaticDirectory (sv_static_directory sv) res;
          (handler, req) = match_route (sv_router sv) req;
          routed = (case handler of
                      Some h \<Rightarrow> Inr (req, h req res)
                    | None \<Rightarrow>
                        if req_method req = ''GET'' \<or> req_method req = ''HEAD''
                        then handleStaticResource w (sv_static_directory sv) req res
                        else Inr (req, res))
      in case routed of
           Inl e \<Rightarrow> Inl e
         | Inr (req, res) \<Rightarrow>
             (let res = run_hook (sv_post_routing_handler sv) req res
              in Inr (fst (build (file_contents w) False res))))"

definition sendResponse :: "int \<Rightarrow> string \<Rightarrow> world \<Rightarrow> (bool \<times> world) exec" where
  "sendResponse sd body w = sendAll sd body w"

section \<open>The WebSocket handshake\<close>

definition magic :: string where
  "magic = ''258EAFA5-E914-47DA-95CA-C5AB0DC85B11''"

definition accept_key :: "string \<Rightarrow> string" where
  "accept_key client_key = base64_encode (sha1 (client_key @ magic))"

definition handshake_response :: "string \<Rightarrow> string" where
  "handshake_response client_key =
     ''HTTP/1.1 101 Switching Protocols'' @ crlf @ ''Upgrade: websocket'' @ crlf @
     ''Connection: Upgrade'' @ crlf @ ''Sec-WebSocket-Accept: '' @ accept_key client_key @ crlf @ crlf"

text \<open>
  \<open>connection_it == end && connection_it->second != ...\<close> reads through the end iterator
  when the \<open>Connection\<close> header is missing, and lets every value pass when it is there.
  \<open>sendResponse\<close> is virtual: a parameter, on whatever state the server has.
\<close>

definition processWebsocketHandshake ::
  "(int \<Rightarrow> string \<Rightarrow> 's \<Rightarrow> (bool \<times> 's) exec) \<Rightarrow> int \<Rightarrow> Request \<Rightarrow> 's \<Rightarrow> (bool \<times> 's) exec" where
  "processWebsocketHandshake send sd req w =
     (let headers = req_headers req
      in case headers ''Upgrade'' of
           None \<Rightarrow> Ret (False, w)
         | Some upgrade_value \<Rightarrow>
             if headers ''Connection'' = None then Throw Undefined_behaviour
             else if length upgrade_value \<noteq> 9 \<or>
                     (upgrade_value ! 0 \<noteq> CHR ''w'' \<and> upgrade_value ! 0 \<noteq> CHR ''W'') \<or>
                     upgrade_value \<noteq> ''websocket'' then Ret (False, w)
             else (case headers ''Sec-WebSocket-Key'' of
                     None \<Rightarrow> Ret (False, w)
                   | Some client_key \<Rightarrow>
                       if client_key = [] then Ret (False, w)
                       else if length client_key \<noteq> 24 \<or> client_key ! 22 \<noteq> CHR ''='' \<or>
                               client_key ! 23 \<noteq> CHR ''='' then Ret (False, w)
                       else send sd (handshake_response client_key) w))"

section \<open>One exchange\<close>

definition closeSocket :: "int \<Rightarrow> world \<Rightarrow> world" where
  "closeSocket fd w = sys_close fd w"

definition answer :: "uninitialised \<Rightarrow> int \<Rightarrow> Request \<Rightarrow> Response \<Rightarrow> Server \<Rightarrow> world \<Rightarrow> (Server \<times> world) exec" where
  "answer u sd req res sv w =
     and_then (of_result (handleRoute w sv req res)) (\<lambda>body_opt.
       case body_opt of
         None \<Rightarrow> Ret (sv, w)
       | Some body \<Rightarrow> and_then (sendResponse sd body w) (\<lambda>(_, w). Ret (sv, w)))"

definition performRequest ::
  "uninitialised \<Rightarrow> int \<Rightarrow> string \<Rightarrow> Server \<Rightarrow> world \<Rightarrow> (Server \<times> world) exec" where
  "performRequest u sd raw_request sv w =
     (let req = Request_new raw_request;
          res = Response_new (sv_default_headers sv) sd (un_content_type u);
          res = run_hook (sv_pre_routing_handler sv) req res
      in if sv_wsRoutes sv \<noteq> [] then
           (case getWebSocketFrame raw_request of
              Some opcode \<Rightarrow>
                if opcode = Close then Ret (sv, closeSocket sd w)
                else and_then (dispatchWebSocket u sd raw_request (sv_wsRoutes sv) w) (\<lambda>w. Ret (sv, w))
            | None \<Rightarrow>
                and_then (processWebsocketHandshake sendResponse sd req w) (\<lambda>(accepted, w).
                  if accepted then
                    (let sv = sv\<lparr>sv_wsRoutes := snd (updateWsRoute (req_normalize_path req) (req_query req) sd
                           (sv_wsRoutes sv))\<rparr>
                     in and_then (dispatchWebSocket u sd raw_request (sv_wsRoutes sv) w) (\<lambda>w. Ret (sv, w)))
                  else answer u sd req res sv w))
         else answer u sd req res sv w)"

section \<open>One descriptor\<close>

record revents =
  rv_in :: bool
  rv_err :: bool
  rv_hup :: bool
  rv_nval :: bool

definition no_event :: "revents \<Rightarrow> bool" where
  "no_event r \<longleftrightarrow> \<not> rv_in r \<and> \<not> rv_err r \<and> \<not> rv_hup r \<and> \<not> rv_nval r"

function accept_all :: "Server \<Rightarrow> world \<Rightarrow> Server \<times> world" where
  "accept_all sv w =
     (case sys_accept w of
        (Accepted client_fd, w') \<Rightarrow>
          accept_all (sv\<lparr>sv_client_list := List.insort_insert client_fd (sv_client_list sv)\<rparr>) w'
      | (Accept_failed e, w') \<Rightarrow> (sv, w'))"
  by pat_completeness auto

termination
  by (relation "measure (\<lambda>(sv, w). length (w_backlog w))")
    (auto simp: sys_accept_def split: list.splits accept_outcome.splits)

declare accept_all.simps [simp del]

definition handleListenSocket :: "revents \<Rightarrow> Server \<Rightarrow> world \<Rightarrow> Server \<times> world" where
  "handleListenSocket r sv w = (if rv_in r then accept_all sv w else (sv, w))"

text \<open>The list is \<open>closedSockets\<close>. \<open>shutdown\<close> leaves the descriptor open.\<close>

definition handleClientSocket ::
  "uninitialised \<Rightarrow> int \<Rightarrow> revents \<Rightarrow> Server \<Rightarrow> world \<Rightarrow> int list \<Rightarrow> (Server \<times> world \<times> int list) exec" where
  "handleClientSocket u fd r sv w closed =
     (if rv_err r \<or> rv_hup r \<or> rv_nval r then Ret (sv, sys_close fd w, closed @ [fd])
      else if rv_in r then
        (case sys_recv BUFFER_SIZE fd w of
           (Received buf, w) \<Rightarrow> and_then (performRequest u fd buf sv w) (\<lambda>(sv, w). Ret (sv, w, closed))
         | (Peer_closed, w) \<Rightarrow> Ret (sv, sys_close fd w, closed @ [fd])
         | (Recv_failed e, w) \<Rightarrow>
             if e \<noteq> EAGAIN \<and> e \<noteq> EWOULDBLOCK then Ret (sv, sys_close fd w, closed @ [fd])
             else Ret (sv, w, closed))
      else Ret (sv, w, closed))"

section \<open>Starting and stopping\<close>

text \<open>
  The part of \<open>run\<close> before the loop: what \<open>socket\<close> returned, and whether \<open>setsockopt\<close>,
  \<open>bind\<close> and \<open>listen\<close> succeeded. Every failure ends the process with its own status.
\<close>

datatype startup = Exit int | Serving Server

definition run_setup :: "int \<Rightarrow> bool \<Rightarrow> bool \<Rightarrow> bool \<Rightarrow> Server \<Rightarrow> startup" where
  "run_setup fd opt_ok bind_ok listen_ok sv =
     (let sv = sv\<lparr>sv_sockfd := fd\<rparr>
      in if fd = - 1 then Exit 1
         else if \<not> opt_ok then Exit 2
         else if \<not> bind_ok then Exit 3
         else if \<not> listen_ok then Exit 4
         else Serving (sv\<lparr>sv_running := True\<rparr>))"

definition stop :: "Server \<Rightarrow> world \<Rightarrow> Server \<times> world" where
  "stop sv w =
     (let w = fold (\<lambda>r. closeSocket (wr_sockfd r)) (sv_wsRoutes sv) w;
          w = closeSocket (sv_sockfd sv) w
      in (sv\<lparr>sv_running := False\<rparr>, w))"

end
