(* ===== verification/Server_Loop.thy ===== *)
theory Server_Loop
  imports Server
begin

text \<open>
  The event loop of the plain-text server (\<open>Server::handleRequests\<close>) as a step relation:
  one round of \<open>poll\<close>, or anything the peers, the kernel and the file system may do between
  two rounds. The invariants say which descriptors are open in every state that can be
  reached.
\<close>

section \<open>One round\<close>

datatype poll_result = Poll_failed errno | Ready "int \<Rightarrow> revents"

text \<open>The descriptors are collected before the round; \<open>closed\<close> collects \<open>closedSockets\<close>.\<close>

fun process_fds ::
  "uninitialised \<Rightarrow> (int \<Rightarrow> revents) \<Rightarrow> int list \<Rightarrow> Server \<Rightarrow> world \<Rightarrow> int list \<Rightarrow>
     (Server \<times> world \<times> int list) exec" where
  "process_fds u ev [] sv w closed = Ret (sv, w, closed)"
| "process_fds u ev (fd # fds) sv w closed =
     (if no_event (ev fd) then process_fds u ev fds sv w closed
      else if fd = sv_sockfd sv then
        (let (sv, w) = handleListenSocket (ev fd) sv w in process_fds u ev fds sv w closed)
      else and_then (handleClientSocket u fd (ev fd) sv w closed)
             (\<lambda>(sv, w, closed). process_fds u ev fds sv w closed))"

text \<open>The first component of the result is whether the loop goes on.\<close>

definition poll_round ::
  "uninitialised \<Rightarrow> poll_result \<Rightarrow> Server \<Rightarrow> world \<Rightarrow> (bool \<times> Server \<times> world) exec" where
  "poll_round u rc sv w =
     (case rc of
        Poll_failed e \<Rightarrow> Ret (e = EINTR, sv, w)
      | Ready ev \<Rightarrow>
          and_then (process_fds u ev (sv_sockfd sv # sv_client_list sv) sv w [])
            (\<lambda>(sv, w, closed).
               Ret (True, sv\<lparr>sv_client_list := filter (\<lambda>fd. fd \<notin> set closed) (sv_client_list sv)\<rparr>, w)))"

text \<open>A round in which one client is ready.\<close>

lemma process_fds_idle: "\<forall>fd \<in> set fds. no_event (ev fd) \<Longrightarrow> process_fds u ev fds sv w closed = Ret (sv, w, closed)"
  by (induction fds) auto

lemma process_fds_one:
  assumes "sd \<in> set fds" "distinct fds" "sd \<noteq> sv_sockfd sv" "\<forall>fd \<in> set fds - {sd}. no_event (ev fd)" "\<not> no_event (ev sd)"
    and "handleClientSocket u sd (ev sd) sv w closed = Ret (sv, w1, closed)"
  shows "process_fds u ev fds sv w closed = Ret (sv, w1, closed)"
  using assms
proof (induction fds)
  case (Cons fd fds)
  show ?case
  proof (cases "fd = sd")
    case True
    with Cons.prems show ?thesis by (simp add: process_fds_idle)
  next
    case False
    with Cons.prems Cons.IH show ?thesis by simp
  qed
qed simp

lemma poll_round_one:
  assumes "sd \<in> set (sv_client_list sv)" "distinct (sv_client_list sv)" "sv_sockfd sv \<notin> set (sv_client_list sv)"
    and "\<forall>fd \<in> insert (sv_sockfd sv) (set (sv_client_list sv)) - {sd}. no_event (ev fd)" "\<not> no_event (ev sd)"
    and "handleClientSocket u sd (ev sd) sv w [] = Ret (sv, w1, [])"
  shows "poll_round u (Ready ev) sv w = Ret (True, sv, w1)"
proof -
  have "process_fds u ev (sv_sockfd sv # sv_client_list sv) sv w [] = Ret (sv, w1, [])"
    using assms by (intro process_fds_one) auto
  then show ?thesis by (simp add: poll_round_def del: process_fds.simps)
qed

text \<open>
  What the rest of the system may do between two rounds: data and connections arrive, files
  change, the outcomes of coming calls are settled; descriptors are the process's own.
  \<open>accept\<close> hands out numbers that are free.
\<close>

definition accepted_fds :: "accept_outcome list \<Rightarrow> int list" where
  "accepted_fds bs = concat (map (\<lambda>b. case b of Accepted fd \<Rightarrow> [fd] | Accept_failed e \<Rightarrow> []) bs)"

definition backlog_fresh :: "world \<Rightarrow> bool" where
  "backlog_fresh w \<longleftrightarrow>
     distinct (accepted_fds (w_backlog w)) \<and> set (accepted_fds (w_backlog w)) \<inter> w_open w = {}"

definition environment :: "world \<Rightarrow> world \<Rightarrow> bool" where
  "environment w w' \<longleftrightarrow>
     w_open w' = w_open w \<and> w_closed w' = w_closed w \<and> w_out w' = w_out w \<and> backlog_fresh w' \<and>
     tls_environment (w_tls w) (w_tls w')"

text \<open>\<open>poll\<close> reports \<open>POLLNVAL\<close> exactly for the descriptors that are not open.\<close>

definition poll_consistent :: "poll_result \<Rightarrow> Server \<Rightarrow> world \<Rightarrow> bool" where
  "poll_consistent rc sv w \<longleftrightarrow>
     (case rc of
        Poll_failed e \<Rightarrow> True
      | Ready ev \<Rightarrow> \<forall>fd \<in> insert (sv_sockfd sv) (set (sv_client_list sv)). rv_nval (ev fd) \<longleftrightarrow> fd \<notin> w_open w)"

inductive loop_step :: "uninitialised \<Rightarrow> Server \<times> world \<Rightarrow> Server \<times> world \<Rightarrow> bool" for u where
  outside: "environment w w' \<Longrightarrow> loop_step u (sv, w) (sv, w')"
| round: "sv_running sv \<Longrightarrow> backlog_fresh w \<Longrightarrow> poll_consistent rc sv w \<Longrightarrow>
    poll_round u rc sv w = Ret (True, sv', w') \<Longrightarrow> loop_step u (sv, w) (sv', w')"

inductive_cases loop_stepE: "loop_step u (sv, w) (sv', w')"

section \<open>What one exchange does to the descriptors\<close>

lemma sendAll_frame:
  "sendAll sd data w = Ret (ok, w') \<Longrightarrow>
   w_open w' = w_open w \<and> w_closed w' = w_closed w \<and> w_socks w' = w_socks w \<and>
   w_backlog w' = w_backlog w \<and> w_files w' = w_files w"
proof (induction sd data w rule: sendAll.induct)
  case (1 sd data w)
  obtain r w1 where s: "sys_send sd data w = Some (r, w1)"
    using "1.prems" by (cases "sys_send sd data w") (auto simp: sendAll.simps [of sd data w])
  note f = sys_frames(1) [OF s]
  show ?case
  proof (cases r)
    case (Sent n)
    then show ?thesis
      using "1.prems" "1.IH"(1) [OF s refl Sent] f s
      by (auto simp: sendAll.simps [of sd data w] split: if_splits)
  next
    case (Send_failed e)
    then show ?thesis
      using "1.prems" "1.IH"(2) [OF s refl Send_failed] f s
      by (auto simp: sendAll.simps [of sd data w] split: if_splits)
  qed
qed

definition handlers_behave :: "Server \<Rightarrow> bool" where
  "handlers_behave sv \<longleftrightarrow>
     (\<forall>r \<in> set (sv_wsRoutes sv). \<forall>ws w w'. wr_handler r ws w = Ret w' \<longrightarrow>
        w_open w' = w_open w \<or> w_open w' = w_open w - {f_sockfd (ws_frame ws)})"

lemma updateWsRoute_handlers:
  "wr_handler ` set (snd (updateWsRoute p q fd rs)) = wr_handler ` set rs"
  by (induction rs) (auto simp: Let_def split: prod.splits)

lemma getWsRoute_in: "getWsRouteBySocketId fd rs = Some r \<Longrightarrow> r \<in> set rs \<and> wr_sockfd r = fd"
  by (induction rs) (auto split: if_splits)

lemma dispatch_open:
  assumes "dispatchWebSocket u fd raw (sv_wsRoutes sv) w = Ret w'" "handlers_behave sv"
  shows "w_open w' = w_open w \<or> w_open w' = w_open w - {fd}"
proof (cases "getWsRouteBySocketId fd (sv_wsRoutes sv)")
  case None
  with assms(1) show ?thesis by (simp add: dispatchWebSocket_def)
next
  case (Some r)
  let ?ws = "WebSocket_new fd raw (wr_query r) (un_masking_key u)"
  have "wr_handler r ?ws w = Ret w'"
    using assms(1) Some by (simp add: dispatchWebSocket_def)
  moreover have "f_sockfd (ws_frame ?ws) = fd"
    by (simp add: WebSocket_new_def new_frame_def)
  ultimately show ?thesis
    using assms(2) getWsRoute_in [OF Some] unfolding handlers_behave_def by metis
qed

lemma handshake_frame:
  "processWebsocketHandshake sendResponse fd req w = Ret (ok, w') \<Longrightarrow> w_open w' = w_open w \<and> w_closed w' = w_closed w"
  using sendAll_frame
  by (auto simp: processWebsocketHandshake_def Let_def sendResponse_def split: option.splits if_splits)

lemma answer_frame:
  "answer u fd req res sv w = Ret (sv', w') \<Longrightarrow>
   sv' = sv \<and> w_open w' = w_open w \<and> w_closed w' = w_closed w"
  using sendAll_frame
  by (auto simp: answer_def and_then_Ret sendResponse_def split: option.splits)

lemma performRequest_frame:
  assumes "performRequest u fd raw sv w = Ret (sv', w')" "handlers_behave sv"
  shows "sv_client_list sv' = sv_client_list sv \<and> sv_sockfd sv' = sv_sockfd sv \<and> handlers_behave sv' \<and>
    (w_open w' = w_open w \<or> w_open w' = w_open w - {fd}) \<and>
    (sv_wsRoutes sv = [] \<longrightarrow> sv' = sv \<and> w_open w' = w_open w \<and> w_closed w' = w_closed w)"
proof (cases "sv_wsRoutes sv = []")
  case True
  then show ?thesis
    using assms by (auto simp: performRequest_def Let_def dest!: answer_frame)
next
  case False
  note ws = this
  show ?thesis
  proof (cases "getWebSocketFrame raw")
    case (Some opcode)
    show ?thesis
    proof (cases "opcode = Close")
      case True
      with assms ws Some show ?thesis
        by (auto simp: performRequest_def Let_def closeSocket_def sys_close_def)
    next
      case False
      with assms(1) ws Some have "dispatchWebSocket u fd raw (sv_wsRoutes sv) w = Ret w'" "sv' = sv"
        by (auto simp: performRequest_def Let_def and_then_Ret)
      with dispatch_open [OF this(1) assms(2)] ws assms(2) show ?thesis by simp
    qed
  next
    case None
    let ?req = "Request_new raw"
    let ?res = "run_hook (sv_pre_routing_handler sv) ?req
      (Response_new (sv_default_headers sv) fd (un_content_type u))"
    from assms(1) ws None obtain ok w1 where
      h: "processWebsocketHandshake sendResponse fd ?req w = Ret (ok, w1)"
      and rest: "(if ok then and_then (dispatchWebSocket u fd raw
           (snd (updateWsRoute (req_normalize_path ?req) (req_query ?req) fd (sv_wsRoutes sv))) w1)
           (\<lambda>w. Ret (sv\<lparr>sv_wsRoutes := snd (updateWsRoute (req_normalize_path ?req) (req_query ?req) fd
              (sv_wsRoutes sv))\<rparr>, w))
         else answer u fd ?req ?res sv w1) = Ret (sv', w')"
      unfolding performRequest_def Let_def by (auto simp: and_then_Ret cong: if_cong)
    note f = handshake_frame [OF h]
    show ?thesis
    proof (cases ok)
      case True
      let ?sv = "sv\<lparr>sv_wsRoutes := snd (updateWsRoute (req_normalize_path ?req) (req_query ?req) fd (sv_wsRoutes sv))\<rparr>"
      have "\<forall>h \<in> wr_handler ` set (sv_wsRoutes ?sv). h \<in> wr_handler ` set (sv_wsRoutes sv)"
        by (simp add: updateWsRoute_handlers)
      then have b: "handlers_behave ?sv"
        using assms(2) unfolding handlers_behave_def by (metis (no_types, lifting) imageE imageI)
      from rest True have "dispatchWebSocket u fd raw (sv_wsRoutes ?sv) w1 = Ret w'" "sv' = ?sv"
        by (auto simp: and_then_Ret)
      with dispatch_open [OF this(1) b] b f ws show ?thesis by simp
    next
      case False
      with rest answer_frame f assms(2) ws show ?thesis by fastforce
    qed
  qed
qed

section \<open>The invariants\<close>

text \<open>
  The state in the middle of a round, \<open>closed\<close> being what the round has closed so far. In
  any state the open descriptors are the listening socket and members of the client list
  not yet closed. Without WebSocket routes (\<open>tight\<close>) they are exactly those, and no
  \<open>close\<close> has ever failed.
\<close>

definition mid_round :: "bool \<Rightarrow> Server \<Rightarrow> world \<Rightarrow> int list \<Rightarrow> bool" where
  "mid_round tight sv w closed \<longleftrightarrow>
     sorted (sv_client_list sv) \<and> distinct (sv_client_list sv) \<and>
     sv_sockfd sv \<notin> set (sv_client_list sv) \<and> sv_sockfd sv \<in> w_open w \<and>
     set closed \<subseteq> set (sv_client_list sv) \<and>
     w_open w \<subseteq> insert (sv_sockfd sv) (set (sv_client_list sv) - set closed) \<and> handlers_behave sv \<and>
     (tight \<longrightarrow> sv_wsRoutes sv = [] \<and>
        insert (sv_sockfd sv) (set (sv_client_list sv) - set closed) \<subseteq> w_open w \<and>
        (\<forall>(fd, ok) \<in> set (w_closed w). ok))"

lemma mid_round_close:
  assumes "mid_round tight sv w closed" "fd \<in> set (sv_client_list sv)" "fd \<notin> set closed"
  shows "mid_round tight sv (sys_close fd w) (closed @ [fd])"
  using assms by (auto simp: mid_round_def sys_close_def)

lemma mid_round_request:
  assumes "mid_round tight sv w closed" "fd \<in> set (sv_client_list sv)"
    and "performRequest u fd raw sv w = Ret (sv', w')"
  shows "mid_round tight sv' w' closed \<and> sv_client_list sv' = sv_client_list sv \<and> sv_sockfd sv' = sv_sockfd sv"
proof -
  from assms(1) have "handlers_behave sv" by (simp add: mid_round_def)
  from performRequest_frame [OF assms(3) this] assms(1,2) show ?thesis
    by (auto simp: mid_round_def)
qed

lemma mid_round_same:
  "mid_round tight sv w closed \<Longrightarrow> w_open w' = w_open w \<Longrightarrow> w_closed w' = w_closed w \<Longrightarrow> mid_round tight sv w' closed"
  by (simp add: mid_round_def)

lemma handleClientSocket_mid:
  assumes "mid_round tight sv w closed" "fd \<in> set (sv_client_list sv)" "fd \<notin> set closed"
    and "handleClientSocket u fd r sv w closed = Ret (sv', w', closed')"
  shows "mid_round tight sv' w' closed' \<and> sv_client_list sv' = sv_client_list sv \<and>
    sv_sockfd sv' = sv_sockfd sv \<and> set closed' \<subseteq> insert fd (set closed)"
proof -
  obtain x w1 where r: "sys_recv BUFFER_SIZE fd w = (x, w1)" by force
  from sys_frames(2) [OF r] assms(1) have m: "mid_round tight sv w1 closed"
    using mid_round_same by blast
  note c = mid_round_close [OF assms(1-3)] mid_round_close [OF m assms(2,3)]
  show ?thesis
  proof (cases x)
    case (Received buf)
    then show ?thesis
      using assms(1,4) r c m mid_round_request [OF m assms(2), of u buf]
      by (auto simp: handleClientSocket_def and_then_Ret split: if_splits)
  qed (use assms(1,4) r c m in \<open>auto simp: handleClientSocket_def split: if_splits\<close>)
qed

lemma accept_all_mid:
  "mid_round tight sv w [] \<Longrightarrow> backlog_fresh w \<Longrightarrow> accept_all sv w = (sv', w') \<Longrightarrow>
   mid_round tight sv' w' [] \<and> sv_sockfd sv' = sv_sockfd sv \<and>
   set (sv_client_list sv) \<subseteq> set (sv_client_list sv') \<and>
   set (sv_client_list sv') \<inter> w_open w \<subseteq> set (sv_client_list sv)"
proof (induction sv w rule: accept_all.induct)
  case (1 sv w)
  obtain x w1 where a: "sys_accept w = (x, w1)" by force
  show ?case
  proof (cases x)
    case (Accept_failed e)
    with a have w: "w_open w1 = w_open w" "w_closed w1 = w_closed w"
      by (auto simp: sys_accept_def split: list.splits accept_outcome.splits)
    from "1.prems"(3) a Accept_failed have "sv' = sv" "w' = w1"
      by (simp_all add: accept_all.simps [of sv w])
    then show ?thesis using mid_round_same [OF "1.prems"(1) w] by auto
  next
    case (Accepted fd)
    let ?sv = "sv\<lparr>sv_client_list := List.insort_insert fd (sv_client_list sv)\<rparr>"
    from a Accepted obtain bs where b: "w_backlog w = Accepted fd # bs"
      "w1 = w\<lparr>w_open := insert fd (w_open w), w_backlog := bs\<rparr>"
      by (auto simp: sys_accept_def split: list.splits accept_outcome.splits)
    with "1.prems"(2) have fresh: "fd \<notin> w_open w" "backlog_fresh w1"
      by (auto simp: backlog_fresh_def accepted_fds_def)
    have m: "mid_round tight ?sv w1 []"
      using "1.prems"(1) b fresh
      by (auto simp: mid_round_def set_insort_insert sorted_insort_insert distinct_insort_insert
          handlers_behave_def)
    have "accept_all ?sv w1 = (sv', w')"
      using "1.prems"(3) a Accepted by (simp add: accept_all.simps [of sv w])
    from "1.IH" [OF a [symmetric] Accepted m fresh(2) this] b fresh show ?thesis
      by (auto simp: set_insort_insert)
  qed
qed

lemma process_fds_mid:
  "mid_round tight sv w closed \<Longrightarrow> distinct fds \<Longrightarrow> set fds \<subseteq> set (sv_client_list sv) - set closed \<Longrightarrow>
   process_fds u ev fds sv w closed = Ret (sv', w', closed') \<Longrightarrow>
   mid_round tight sv' w' closed' \<and> sv_sockfd sv' = sv_sockfd sv"
proof (induction fds arbitrary: sv w closed)
  case (Cons fd fds)
  have fd: "fd \<in> set (sv_client_list sv)" "fd \<notin> set closed" using Cons.prems(3) by auto
  then have ne: "fd \<noteq> sv_sockfd sv" using Cons.prems(1) by (auto simp: mid_round_def)
  show ?case
  proof (cases "no_event (ev fd)")
    case True
    with Cons show ?thesis by auto
  next
    case False
    with Cons.prems(4) ne obtain sv1 w1 closed1 where
      h: "handleClientSocket u fd (ev fd) sv w closed = Ret (sv1, w1, closed1)" and
      p: "process_fds u ev fds sv1 w1 closed1 = Ret (sv', w', closed')"
      by (auto simp: and_then_Ret)
    from handleClientSocket_mid [OF Cons.prems(1) fd h] Cons.IH [OF _ _ _ p] Cons.prems(2,3)
    show ?thesis by auto
  qed
qed simp

lemma mid_round_erase:
  assumes "mid_round tight sv w closed"
  shows "mid_round tight (sv\<lparr>sv_client_list := filter (\<lambda>fd. fd \<notin> set closed) (sv_client_list sv)\<rparr>) w []"
proof -
  have "set (filter (\<lambda>fd. fd \<notin> set closed) (sv_client_list sv)) = set (sv_client_list sv) - set closed"
    by auto
  with assms show ?thesis
    by (simp add: mid_round_def sorted_wrt_filter handlers_behave_def del: set_filter)
qed

lemma poll_round_mid:
  assumes "mid_round tight sv w []" "backlog_fresh w" "poll_round u rc sv w = Ret (True, sv', w')"
  shows "mid_round tight sv' w' []"
proof (cases rc)
  case (Poll_failed e)
  with assms show ?thesis by (simp add: poll_round_def)
next
  case (Ready ev)
  let ?fds = "sv_client_list sv"
  from assms(3) Ready obtain sv2 w2 closed where
    p: "process_fds u ev (sv_sockfd sv # ?fds) sv w [] = Ret (sv2, w2, closed)" and
    r: "sv' = sv2\<lparr>sv_client_list := filter (\<lambda>fd. fd \<notin> set closed) (sv_client_list sv2)\<rparr>" "w' = w2"
    by (auto simp: poll_round_def and_then_Ret)
  obtain sv1 w1 where l: "(sv1, w1) = (if no_event (ev (sv_sockfd sv)) then (sv, w)
      else handleListenSocket (ev (sv_sockfd sv)) sv w)" by (metis surj_pair)
  have m1: "mid_round tight sv1 w1 [] \<and> sv_sockfd sv1 = sv_sockfd sv \<and> set ?fds \<subseteq> set (sv_client_list sv1)"
    using l assms(1) accept_all_mid [OF assms(1,2), of sv1 w1]
    by (auto simp: handleListenSocket_def split: if_splits)
  have "process_fds u ev ?fds sv1 w1 [] = Ret (sv2, w2, closed)"
    using p l by (auto split: if_splits prod.splits)
  moreover have "distinct ?fds" using assms(1) by (simp add: mid_round_def)
  ultimately have "mid_round tight sv2 w2 closed"
    using process_fds_mid [of tight sv1 w1 "[]" ?fds u ev sv2 w2 closed] m1 by simp
  then show ?thesis
    unfolding r by (rule mid_round_erase)
qed

definition loop_inv :: "bool \<Rightarrow> Server \<times> world \<Rightarrow> bool" where
  "loop_inv tight = (\<lambda>(sv, w). mid_round tight sv w [])"

text \<open>What \<open>run_setup\<close> hands to the loop.\<close>

lemma run_setup_Serving:
  "run_setup fd a b c sv0 = Serving sv \<Longrightarrow> sv = sv0\<lparr>sv_sockfd := fd, sv_running := True\<rparr>"
  by (auto simp: run_setup_def Let_def split: if_splits)

definition loop_start :: "bool \<Rightarrow> Server \<times> world \<Rightarrow> bool" where
  "loop_start tight = (\<lambda>(sv, w).
     sv_client_list sv = [] \<and> w_open w = {sv_sockfd sv} \<and> w_closed w = [] \<and> handlers_behave sv \<and>
     (tight \<longrightarrow> sv_wsRoutes sv = []))"

interpretation server_loop: invariant_system "loop_start tight" "loop_step u" "loop_inv tight" for tight u
proof (unfold_locales, goal_cases)
  case (1 s)
  then show ?case
    by (cases s) (auto simp: loop_start_def loop_inv_def mid_round_def)
next
  case (2 s s')
  then show ?case
    by (cases s; cases s')
      (auto simp: loop_inv_def environment_def elim!: loop_stepE intro: mid_round_same poll_round_mid)
qed

text \<open>
  C1. No descriptor leaks: in every state the event loop can reach, whatever the peers, the kernel
  and the files do, every open descriptor is the listening socket or in the client list, which
  stays sorted, without duplicates and without the listening socket, so the next round polls
  it. WebSocket handlers may close their own socket but touch no other.
\<close>

theorem no_descriptor_leaks:
  assumes "run_setup fd True True True sv0 = Serving sv" "sv_client_list sv0 = []"
    and "w_open w = {fd}" "w_closed w = []" "handlers_behave sv0"
    and "(loop_step u)\<^sup>*\<^sup>* (sv, w) (sv', w')"
  shows "w_open w' \<subseteq> insert (sv_sockfd sv') (set (sv_client_list sv')) \<and> sv_sockfd sv' \<in> w_open w' \<and>
    sorted (sv_client_list sv') \<and> distinct (sv_client_list sv') \<and> sv_sockfd sv' \<notin> set (sv_client_list sv')"
proof -
  have "loop_start False (sv, w)"
    using assms(2-5) run_setup_Serving [OF assms(1)] by (auto simp: loop_start_def handlers_behave_def)
  from server_loop.inv_reachable [OF this assms(6)] show ?thesis
    by (auto simp: loop_inv_def mid_round_def)
qed

text \<open>
  C2. Without WebSocket routes the client list is exact: in every reachable state the open
  descriptors are the listening socket and the clients, so none is forgotten and none is stale,
  and no descriptor has been closed twice.
\<close>

theorem client_list_exact:
  assumes "run_setup fd True True True sv0 = Serving sv" "sv_client_list sv0 = []" "sv_wsRoutes sv0 = []"
    and "w_open w = {fd}" "w_closed w = []"
    and "(loop_step u)\<^sup>*\<^sup>* (sv, w) (sv', w')"
  shows "w_open w' = insert (sv_sockfd sv') (set (sv_client_list sv')) \<and>
    (\<forall>c \<in> set (w_closed w'). snd c)"
proof -
  have "loop_start True (sv, w)"
    using assms(2-5) run_setup_Serving [OF assms(1)] by (auto simp: loop_start_def handlers_behave_def)
  from server_loop.inv_reachable [OF this assms(6)] show ?thesis
    by (auto simp: loop_inv_def mid_round_def)
qed

text \<open>
  C38. A WebSocket close frame takes the next connection down with it: the server closes the
  descriptor but keeps it in the client list, so when \<open>accept\<close> hands out the same number
  in the next round, the event \<open>poll\<close> had reported for the dead descriptor closes the new
  connection before anything is read from it.
\<close>

theorem close_frame_drops_next_connection:
  assumes "sv_wsRoutes sv \<noteq> []" "getWebSocketFrame raw = Some Close"
    and "sv_client_list sv = [fd]" "fd \<noteq> sv_sockfd sv" "w_open w = {sv_sockfd sv, fd}"
    and "w1 = (sys_close fd w)\<lparr>w_backlog := [Accepted fd]\<rparr>"
    and "ev = (\<lambda>d. if d = sv_sockfd sv then \<lparr>rv_in = True, rv_err = False, rv_hup = False, rv_nval = False\<rparr>
                  else \<lparr>rv_in = False, rv_err = False, rv_hup = False, rv_nval = True\<rparr>)"
  shows "performRequest u fd raw sv w = Ret (sv, sys_close fd w) \<and>
    environment (sys_close fd w) w1 \<and> poll_consistent (Ready ev) sv w1 \<and>
    (\<exists>sv' w'. poll_round u (Ready ev) sv w1 = Ret (True, sv', w') \<and>
       sv_client_list sv' = [] \<and> w_open w' = {sv_sockfd sv} \<and> w_closed w' = w_closed w @ [(fd, True), (fd, True)])"
proof -
  have req: "performRequest u fd raw sv w = Ret (sv, sys_close fd w)"
    using assms(1,2) by (simp add: performRequest_def Let_def closeSocket_def)
  have env: "environment (sys_close fd w) w1" "poll_consistent (Ready ev) sv w1"
    using assms(3-7) by (auto simp: environment_def backlog_fresh_def accepted_fds_def sys_close_def poll_consistent_def)
  have acc: "accept_all sv w1 = (sv, (sys_close fd w)\<lparr>w_open := insert fd (w_open (sys_close fd w)), w_backlog := []\<rparr>)"
    using assms(3,6) by (simp add: accept_all.simps sys_accept_def insort_insert_key_def)
  show ?thesis
    using req env acc assms(3-5,7)
    by (auto simp: poll_round_def no_event_def handleListenSocket_def handleClientSocket_def sys_close_def)
qed

section \<open>A run\<close>

definition sample_server :: Server where
  "sample_server = (Server_new ''127.0.0.1'' 8080)\<lparr>sv_sockfd := 3, sv_running := True\<rparr>"

definition sample_world :: world where
  "sample_world = \<lparr>w_open = {3}, w_closed = [], w_out = [], w_sends = [],
     w_socks = (\<lambda>_. \<lparr>rq_pending = [], rq_end = Recv_error EAGAIN\<rparr>), w_backlog = [], w_files = Map.empty, w_tls = tls_start\<rparr>"

text \<open>A connection arrives and is accepted as descriptor 4.\<close>

lemma sample_run:
  "(loop_step u)\<^sup>*\<^sup>* (sample_server, sample_world)
     (sample_server\<lparr>sv_client_list := [4]\<rparr>, sample_world\<lparr>w_open := {3, 4}\<rparr>)"
proof -
  let ?w = "sample_world\<lparr>w_backlog := [Accepted 4]\<rparr>"
  let ?ev = "\<lambda>d::int. \<lparr>rv_in = True, rv_err = False, rv_hup = False, rv_nval = False\<rparr>"
  have "loop_step u (sample_server, sample_world) (sample_server, ?w)"
    by (rule outside) (simp add: environment_def backlog_fresh_def accepted_fds_def sample_world_def)
  moreover have "loop_step u (sample_server, ?w)
      (sample_server\<lparr>sv_client_list := [4]\<rparr>, sample_world\<lparr>w_open := {3, 4}\<rparr>)"
  proof (rule round [where rc = "Ready ?ev"])
    show "poll_round u (Ready ?ev) sample_server ?w =
        Ret (True, sample_server\<lparr>sv_client_list := [4]\<rparr>, sample_world\<lparr>w_open := {3, 4}\<rparr>)"
      by (simp add: poll_round_def no_event_def handleListenSocket_def accept_all.simps sys_accept_def
          sample_server_def sample_world_def Server_new_def insort_insert_key_def insert_commute)
  qed (simp_all add: sample_server_def sample_world_def backlog_fresh_def accepted_fds_def poll_consistent_def
      Server_new_def)
  ultimately show ?thesis by (meson r_into_rtranclp rtranclp_trans)
qed

lemma sample_setup: "run_setup 3 True True True (Server_new ''127.0.0.1'' 8080) = Serving sample_server"
  by (simp add: run_setup_def sample_server_def)

theorem no_descriptor_leaks_witness:
  "w_open (sample_world\<lparr>w_open := {3, 4}\<rparr>) \<subseteq> insert 3 (set [4])"
  using no_descriptor_leaks [OF sample_setup _ _ _ _ sample_run]
  by (simp add: Server_new_def sample_server_def sample_world_def handlers_behave_def)

theorem client_list_exact_witness:
  "w_open (sample_world\<lparr>w_open := {3, 4}\<rparr>) = insert 3 (set [4])"
  using client_list_exact [OF sample_setup _ _ _ _ sample_run]
  by (simp add: Server_new_def sample_server_def sample_world_def)

theorem close_frame_drops_next_connection_witness:
  "\<exists>sv w. sv_client_list sv = [4] \<and>
     performRequest \<lparr>un_content_type = None, un_masking_key = [], un_sockfd = 0\<rparr> 4
       (from_bytes [0x88, 0x80, 0, 0, 0, 0]) sv w = Ret (sv, sys_close 4 w)"
proof -
  let ?sv = "setWsRoute ''/ws'' (\<lambda>ws w. Ret w) (sample_server\<lparr>sv_client_list := [4]\<rparr>)"
  let ?w = "sample_world\<lparr>w_open := {3, 4}\<rparr>"
  have "getWebSocketFrame (from_bytes [0x88, 0x80, 0, 0, 0, 0]) = Some Close"
    by code_simp
  from close_frame_drops_next_connection [OF _ this _ _ _ refl refl, of ?sv 4 ?w]
  show ?thesis
    by (intro exI [of _ ?sv] exI [of _ ?w])
      (simp add: setWsRoute_def sample_server_def Server_new_def sample_world_def)
qed

end
