(* ===== verification/Server_Exchange.thy ===== *)
theory Server_Exchange
  imports Server
begin

text \<open>
  What one exchange of the plain-text server does: the send loop, a registered route from
  bytes to bytes, static files, the handshake and WebSocket traffic. The samples at the end
  are the concrete servers and files the witnesses run.
\<close>

unbundle bit_operations_syntax

section \<open>Sending\<close>

lemma sendAll_sent:
  "sendAll sd data w = Ret (ok, w') \<Longrightarrow>
   (\<exists>n \<le> length data. sent_to sd w' = sent_to sd w @ take n data \<and> (ok \<longrightarrow> n = length data)) \<and>
   (\<forall>fd. fd \<noteq> sd \<longrightarrow> sent_to fd w' = sent_to fd w)"
proof (induction sd data w rule: sendAll.induct)
  case (1 sd data w)
  obtain r w1 where s: "sys_send sd data w = Some (r, w1)"
    using "1.prems" by (cases "sys_send sd data w") (auto simp: sendAll.simps [of sd data w])
  show ?case
  proof (cases r)
    case (Send_failed e)
    with s have "sent_to fd w1 = sent_to fd w" for fd
      by (auto simp: sys_send_def sent_to_def split: list.splits send_outcome.splits)
    moreover have "ok = False \<and> w' = w1 \<or> sendAll sd data w1 = Ret (ok, w') \<and> (e = EAGAIN \<or> e = EWOULDBLOCK)"
      using "1.prems" s Send_failed by (auto simp: sendAll.simps [of sd data w] split: if_splits)
    ultimately show ?thesis
      using "1.IH"(2) [OF s refl Send_failed] by fastforce
  next
    case (Sent n)
    with s have n: "n \<le> length data" "sent_to sd w1 = sent_to sd w @ take n data"
      and other: "\<And>fd. fd \<noteq> sd \<Longrightarrow> sent_to fd w1 = sent_to fd w"
      by (auto simp: sys_send_def sent_to_append min_def split: list.splits send_outcome.splits)
    show ?thesis
    proof (cases "n < length data")
      case True
      with "1.prems" s Sent have "sendAll sd (drop n data) w1 = Ret (ok, w')"
        by (simp add: sendAll.simps [of sd data w])
      from "1.IH"(1) [OF s refl Sent True this] obtain k where
        "k \<le> length data - n" "sent_to sd w' = sent_to sd w1 @ take k (drop n data)"
        "ok \<longrightarrow> k = length data - n" "\<forall>fd. fd \<noteq> sd \<longrightarrow> sent_to fd w' = sent_to fd w1"
        by auto
      with n other True show ?thesis
        by (intro conjI exI [of _ "n + k"]) (auto simp: take_add)
    next
      case False
      with "1.prems" s Sent n other show ?thesis
        by (auto simp: sendAll.simps [of sd data w])
    qed
  qed
qed

text \<open>
  C23. Whatever the kernel does, short writes, a full buffer or an error, a socket receives a
  prefix of the response, in order and once; when \<open>sendResponse\<close> reports success it has received
  all of it, and no other socket has received anything.
\<close>

theorem sendResponse_delivers:
  assumes "sendResponse sd body w = Ret (ok, w')"
  shows "(ok \<longrightarrow> sent_to sd w' = sent_to sd w @ body) \<and>
    (\<not> ok \<longrightarrow> (\<exists>n \<le> length body. sent_to sd w' = sent_to sd w @ take n body)) \<and>
    (\<forall>fd. fd \<noteq> sd \<longrightarrow> sent_to fd w' = sent_to fd w)"
  using sendAll_sent [of sd body w ok w'] assms by (auto simp: sendResponse_def)

text \<open>
  There is no bound on the retries: as long as a peer that does not read keeps its socket
  full, the single server thread stays in \<open>sendAll\<close>, and no other client is served.
\<close>

lemma unready_peer_stalls_server:
  assumes "w_sends w = replicate n (Send_failed EAGAIN)"
  shows "sendResponse sd body w = Spin"
proof -
  have "w_sends w = replicate n (Send_failed EAGAIN) \<Longrightarrow> sendAll sd body w = Spin" for w
    by (induction n arbitrary: w) (simp_all add: sendAll.simps sys_send_def)
  with assms show ?thesis by (simp add: sendResponse_def)
qed

lemma sendAll_completes:
  "w_sends w = map Sent ns \<Longrightarrow> 0 \<notin> set ns \<Longrightarrow> length data \<le> sum_list ns \<Longrightarrow> data \<noteq> [] \<Longrightarrow>
   \<exists>w'. sendAll sd data w = Ret (True, w')"
proof (induction ns arbitrary: data w)
  case (Cons n ns)
  show ?case
  proof (cases "n < length data")
    case True
    let ?w = "w\<lparr>w_sends := map Sent ns, w_out := w_out w @ [(sd, take n data)]\<rparr>"
    have "\<exists>w'. sendAll sd (drop n data) ?w = Ret (True, w')"
      using Cons.prems True by (intro Cons.IH) auto
    then show ?thesis
      using Cons.prems True by (subst sendAll.simps) (simp add: sys_send_def)
  next
    case False
    then show ?thesis
      using Cons.prems by (subst sendAll.simps) (simp add: sys_send_def)
  qed
qed simp

text \<open>
  C24. The send loop ends: once the kernel takes at least a byte per call and as many as the
  response has in all, \<open>sendResponse\<close> returns and reports success.
\<close>

theorem sendResponse_completes:
  assumes "w_sends w = map Sent ns" "0 \<notin> set ns" "length body \<le> sum_list ns" "body \<noteq> []"
  shows "\<exists>w'. sendResponse sd body w = Ret (True, w')"
  using sendAll_completes [OF assms] by (simp add: sendResponse_def)

section \<open>A registered route\<close>

lemma registered_route_found:
  assumes "routes (sv_router sv) (pattern p, toString m) = None"
    and "\<forall>s \<in> set (splitPath p). \<not> starts_with s '':''" "CHR '' '' \<notin> set p" "CHR ''?'' \<notin> set p"
    and "plain_line (toString m @ '' '' @ p @ '' '' @ v)" "\<forall>l \<in> set ls. plain_line l"
    and "req = parsed_request (toString m) p v (foldl apply_header Map.empty ls) body"
  shows "Request_new (http_message (toString m) p v ls body) = req"
    and "match_route (sv_router (setRoute m p h sv)) req = (Some h, req)"
proof -
  have sp: "CHR '' '' \<notin> set (toString m)" by (cases m) auto
  show "Request_new (http_message (toString m) p v ls body) = req"
    using Request_new_parsed [OF sp assms(3,5,6)] assms(7) by simp
  have t: "target_path p = p"
    using assms(4) find_char_None [of "CHR ''?''" p 0] by (simp add: target_path_def)
  have "routes (snd (registerHandler (toString m) p h (sv_router sv))) (pattern p, toString m) = Some h"
    using router.table_add [of "(toString m, p)" h "sv_router sv" "(pattern p, toString m)"] assms(1) by simp
  then show "match_route (sv_router (setRoute m p h sv)) req = (Some h, req)"
    using assms(2,7) t by (intro static_route_match) (simp_all add: setRoute_def parsed_request_def)
qed

text \<open>
  Requests the WebSocket code leaves alone: all of them on a server without WebSocket routes, and
  those that start with no frame header and carry no \<open>Upgrade\<close> header on any server.
\<close>

definition ordinary :: "Server \<Rightarrow> string \<Rightarrow> bool" where
  "ordinary sv raw \<longleftrightarrow> sv_wsRoutes sv = [] \<or>
     getWebSocketFrame raw = None \<and> req_headers (Request_new raw) ''Upgrade'' = None"

lemma ordinary_performs:
  assumes "ordinary sv raw"
  shows "performRequest u fd raw sv w = answer u fd (Request_new raw) (run_hook (sv_pre_routing_handler sv) (Request_new raw)
    (Response_new (sv_default_headers sv) fd (un_content_type u))) sv w"
  using assms by (auto simp: ordinary_def performRequest_def Let_def processWebsocketHandshake_def)

lemma text_is_no_frame: "getWebSocketFrame (http_message (toString m) p v ls body) = None"
  by (cases m) (simp_all add: getWebSocketFrame_def http_message_def to_bytes_def Let_def)

lemma setRoute_fields:
  "sv_static_directory (setRoute m p h sv) = sv_static_directory sv"
  "sv_pre_routing_handler (setRoute m p h sv) = sv_pre_routing_handler sv"
  "sv_post_routing_handler (setRoute m p h sv) = sv_post_routing_handler sv"
  "sv_default_headers (setRoute m p h sv) = sv_default_headers sv" "sv_wsRoutes (setRoute m p h sv) = sv_wsRoutes sv"
  by (simp_all add: setRoute_def)

lemma matched_route_performs:
  assumes "Request_new raw = q" "match_route (sv_router sv) q = (Some h, req)" "ordinary sv raw"
    and "res = setStaticDirectory (sv_static_directory sv) (run_hook (sv_pre_routing_handler sv) q
           (Response_new (sv_default_headers sv) fd (un_content_type u)))"
  shows "performRequest u fd raw sv w =
    (case fst (build (file_contents w) False (run_hook (sv_post_routing_handler sv) req (h req res))) of
       None \<Rightarrow> Ret (sv, w)
     | Some text \<Rightarrow> and_then (sendResponse fd text w) (\<lambda>(_, w). Ret (sv, w)))"
  using assms(1,2,4) by (simp add: ordinary_performs [OF assms(3)] answer_def handleRoute_def Let_def cong: option.case_cong)

text \<open>
  C18. From bytes to bytes: a route registered for a method and a path without parameters, where
  that pair is free, answers every request for it with plain header lines and any body, on a server
  without WebSocket routes or without an \<open>Upgrade\<close> header in the request: the pre-routing hook, the
  handler and the post-routing hook run one after the other on the parsed request and a response with
  the default headers, and what they leave is built and sent to the client's socket, unless its
  content is empty.
\<close>

theorem registered_route_answers:
  assumes "routes (sv_router sv) (pattern p, toString m) = None"
    and "\<forall>s \<in> set (splitPath p). \<not> starts_with s '':''" "CHR '' '' \<notin> set p" "CHR ''?'' \<notin> set p"
    and "plain_line (toString m @ '' '' @ p @ '' '' @ v)" "\<forall>l \<in> set ls. plain_line l"
    and "req = parsed_request (toString m) p v (foldl apply_header Map.empty ls) body"
    and "sv_wsRoutes sv = [] \<or> req_headers req ''Upgrade'' = None"
    and "res = setStaticDirectory (sv_static_directory sv) (run_hook (sv_pre_routing_handler sv) req
           (Response_new (sv_default_headers sv) fd (un_content_type u)))"
  shows "performRequest u fd (http_message (toString m) p v ls body) (setRoute m p h sv) w =
    (case fst (build (file_contents w) False (run_hook (sv_post_routing_handler sv) req (h req res))) of
       None \<Rightarrow> Ret (setRoute m p h sv, w)
     | Some text \<Rightarrow> and_then (sendResponse fd text w) (\<lambda>(_, w). Ret (setRoute m p h sv, w)))"
proof -
  note found = registered_route_found [OF assms(1-7)]
  have "ordinary (setRoute m p h sv) (http_message (toString m) p v ls body)"
    using assms(8) by (auto simp: ordinary_def text_is_no_frame found(1) setRoute_def)
  from matched_route_performs [OF found this assms(9) [folded setRoute_fields [of m p h sv]]] show ?thesis
    by (simp add: setRoute_fields)
qed

section \<open>Static files\<close>

lemma file_setters:
  "res_content (setHeader k v r) = res_content r" "res_content (put_content c r) = res_content r @ c"
  "res_headers (put_content c r) = res_headers r" "res_status (put_content c r) = res_status r"
  by (simp_all add: put_content_def)

definition file_headers :: "string \<Rightarrow> string \<Rightarrow> inode \<Rightarrow> (string \<times> string) list" where
  "file_headers mime content st =
     [(''Content-Type'', mime), (''Cache-Control'', ''public, max-age=3600''),
      (''Content-Length'', to_string (length content))] @
     (if fileMtimeToHttpDate (i_mtime st) = [] then []
      else [(''Last-Modified'', fileMtimeToHttpDate (i_mtime st))]) @
     (if computeEtag (to_int32 (i_mtime st)) (of_nat (i_size st)) = [] then []
      else [(''ETag'', computeEtag (to_int32 (i_mtime st)) (of_nat (i_size st)))])"

lemma serve_file_ok:
  assumes "stat_of w path = Some st" "i_open st = Some content" "mimeType req = Some mime"
  shows "serve_file w path req res =
    Inr (put_content content (fold (\<lambda>(k, v). setHeader k v) (file_headers mime content st) res))"
  using assms by (simp add: serve_file_def file_headers_def Let_def)

lemma static_file_served:
  assumes "stat_of w (dir @ req_path req) = Some st" "i_kind st = Regular"
    and "i_open st = Some content" "mimeType req = Some mime" "map_ok (res_headers res)"
  shows "\<exists>res'. handleStaticResource w dir req res = Inr (req, res') \<and>
    res_content res' = res_content res @ content \<and> res_status res' = res_status res \<and>
    (\<forall>k. map_of (res_headers res') k =
       (case map_of (rev (file_headers mime content st)) k of
          Some v \<Rightarrow> Some v | None \<Rightarrow> map_of (res_headers res) k))"
proof -
  let ?r = "fold (\<lambda>(k, v). setHeader k v) (file_headers mime content st) res"
  have "handleStaticResource w dir req res = Inr (req, put_content content ?r)"
    using assms(1,2) serve_file_ok [OF assms(1,3,4)] by (simp add: handleStaticResource_def Let_def)
  then show ?thesis
    using response_headers.lookup_fold [OF assms(5), of "file_headers mime content st"]
      fold_setHeader_frame [of "file_headers mime content st" res]
    by (intro exI [of _ "put_content content ?r"]) (simp add: file_setters)
qed

lemma unknown_extension_throws:
  assumes "stat_of w (dir @ req_path req) = Some st" "i_kind st = Regular" "i_open st = Some content"
    and "mimeType req = None"
  shows "handleStaticResource w dir req res = Inl Bad_optional_access"
  using assms by (simp add: handleStaticResource_def serve_file_def Let_def)

section \<open>Unrouted requests\<close>

lemma match_step_frame:
  "req_path (snd (match_step s part)) = req_path (snd s)"
  "req_method (snd (match_step s part)) = req_method (snd s)"
  "req_mime_type (snd (match_step s part)) = req_mime_type (snd s)"
  by (cases s; auto simp: match_step_def setParam_def split: option.split)+

lemma foldl_match_frame:
  "req_path (snd (foldl match_step s parts)) = req_path (snd s) \<and>
   req_method (snd (foldl match_step s parts)) = req_method (snd s) \<and>
   req_mime_type (snd (foldl match_step s parts)) = req_mime_type (snd s)"
  by (induction parts arbitrary: s) (simp_all add: match_step_frame)

lemma unmatched_frame:
  assumes "match_route root req = (None, req')"
  shows "req_path req' = req_path req \<and> req_method req' = req_method req \<and> req_mime_type req' = req_mime_type req"
proof -
  obtain n r where f: "foldl match_step (Some root, req) (splitPath (case find_char CHR ''?'' (req_path req) 0 of
      None \<Rightarrow> req_path req | Some q \<Rightarrow> sub (req_path req) 0 q)) = (n, r)" by force
  have "req' = r"
    using assms f by (auto simp: match_route_def Let_def split: option.splits)
  then show ?thesis
    using foldl_match_frame [of "(Some root, req)"] f by (metis snd_conv)
qed

definition no_hooks :: "Server \<Rightarrow> bool" where
  "no_hooks sv \<longleftrightarrow> sv_pre_routing_handler sv = None \<and> sv_post_routing_handler sv = None"

definition get_message :: "string \<Rightarrow> string" where
  "get_message p = http_message ''GET'' p ''HTTP/1.1'' [] []"

definition parsed_get :: "string \<Rightarrow> Request" where
  "parsed_get p = parsed_request ''GET'' p ''HTTP/1.1'' Map.empty []"

definition plain_target :: "string \<Rightarrow> bool" where
  "plain_target p \<longleftrightarrow> CHR '' '' \<notin> set p \<and> CR \<notin> set p \<and> LF \<notin> set p"

lemma Request_new_get: "plain_target p \<Longrightarrow> Request_new (get_message p) = parsed_get p"
  using Request_new_parsed [of "''GET''" p "''HTTP/1.1''" "[]" "[]"]
  by (simp add: get_message_def parsed_get_def plain_target_def plain_line_def)

lemma get_ordinary: "plain_target p \<Longrightarrow> ordinary sv (get_message p)"
  using text_is_no_frame [of GET p]
  by (simp add: ordinary_def Request_new_get) (simp add: get_message_def parsed_get_def parsed_request_def)

text \<open>A GET request no route matches, on a server without hooks.\<close>

lemma performRequest_unrouted:
  assumes "no_hooks sv" "plain_target p" "match_route (sv_router sv) (parsed_get p) = (None, req')"
  shows "performRequest u fd (get_message p) sv w =
    (case handleStaticResource w (sv_static_directory sv) req'
       (setStaticDirectory (sv_static_directory sv) (Response_new (sv_default_headers sv) fd (un_content_type u))) of
       Inl e \<Rightarrow> Throw e
     | Inr (req, res) \<Rightarrow>
         (case fst (build (file_contents w) False res) of
            None \<Rightarrow> Ret (sv, w)
          | Some text \<Rightarrow> and_then (sendResponse fd text w) (\<lambda>(_, w). Ret (sv, w))))"
proof -
  have "req_method req' = ''GET''"
    using unmatched_frame [OF assms(3)] by (simp add: parsed_get_def parsed_request_def)
  with assms(1,3) show ?thesis
    unfolding ordinary_performs [OF get_ordinary [OF assms(2)]]
    by (simp add: Request_new_get [OF assms(2)] no_hooks_def Let_def answer_def
        handleRoute_def run_hook_def split: sum.split prod.split)
qed

lemma parsed_get_mime:
  "req_path (parsed_get p) = p" "mimeType (parsed_get p) = (if getMimeType p = [] then None else Some (getMimeType p))"
  by (simp_all add: parsed_get_def parsed_request_def mimeType_def)

lemma unmatched_get:
  assumes "match_route root (parsed_get p) = (None, req')"
  shows "req_path req' = p" "mimeType req' = (if getMimeType p = [] then None else Some (getMimeType p))"
  using unmatched_frame [OF assms] by (simp_all add: parsed_get_def parsed_request_def mimeType_def)

text \<open>
  C37. Two requests end the process: a GET for a file whose extension has no MIME type lets
  \<open>bad_optional_access\<close> escape, and a GET with an empty target reads \<open>back()\<close> of an empty string.
\<close>

theorem static_request_kills_server:
  assumes "no_hooks sv" "plain_target p" "match_route (sv_router sv) (parsed_get p) = (None, req')"
    and "stat_of w (sv_static_directory sv @ p) = Some st"
  shows "(i_kind st = Regular \<and> i_open st \<noteq> None \<and> getMimeType p = [] \<longrightarrow>
       performRequest u fd (get_message p) sv w = Throw Bad_optional_access) \<and>
     (i_kind st = Directory \<and> p = [] \<longrightarrow>
       performRequest u fd (get_message p) sv w = Throw Undefined_behaviour)"
  unfolding performRequest_unrouted [OF assms(1-3)]
  using assms(4) unmatched_get [OF assms(3)]
  by (auto simp: handleStaticResource_def serve_file_def Let_def)

text \<open>
  What \<open>build\<close> makes of a file: the file's bytes, except when the uninitialised content type of the
  response happens to be \<open>HTML\<close>, the first of the enumeration, and the bytes end in \<open>.html\<close>. Then the
  bytes are taken for the name of another file.
\<close>

definition sent_file :: "ContentType option \<Rightarrow> (string \<rightharpoonup> string) \<Rightarrow> string \<Rightarrow> string \<Rightarrow> string" where
  "sent_file g fs dir content =
     (if g = Some HTML \<and> ends_with content ''.html'' then readFile fs (dir @ ''/'' @ content) else content)"

lemma load_content_sent:
  "res_content (load_content fs r) = sent_file (res_content_type r) fs (res_static_directory r) (res_content r)"
  by (simp add: load_content_def sent_file_def)

text \<open>
  C19. On a server without hooks, a GET request without headers that no route matches, for an existing
  regular file with a known extension, is answered from the file at the assets directory followed by
  the target, as it stands (dot-dot segments and the query string included): status 200, the file's
  length and the type of its extension, and the content; but if the response's content type, which
  the constructor leaves uninitialised, happens to be HTML and the content ends in \<open>.html\<close>, the
  bytes of the file that content names are sent instead, under the length of the first. An
  empty file sends no response at all.
\<close>

theorem static_get_sends_file:
  assumes "no_hooks sv" "plain_target p" "match_route (sv_router sv) (parsed_get p) = (None, req')"
    and "stat_of w (sv_static_directory sv @ p) = Some st" "i_kind st = Regular" "i_open st = Some content"
    and "getMimeType p \<noteq> []"
  shows "(content = [] \<longrightarrow> performRequest u fd (get_message p) sv w = Ret (sv, w)) \<and>
    (content \<noteq> [] \<longrightarrow> (\<exists>hs.
       performRequest u fd (get_message p) sv w =
         and_then (sendResponse fd (''HTTP/1.0 200 OK'' @ crlf @ crlf_lines (map (\<lambda>h. fst h @ '': '' @ snd h) hs) @
            crlf @ sent_file (un_content_type u) (file_contents w) (sv_static_directory sv) content) w) (\<lambda>(_, w). Ret (sv, w)) \<and>
       map_of hs ''Content-Length'' = Some (to_string (length content)) \<and>
       map_of hs ''Content-Type'' = Some (getMimeType p)))"
proof -
  let ?dir = "sv_static_directory sv"
  let ?res = "setStaticDirectory ?dir (Response_new (sv_default_headers sv) fd (un_content_type u))"
  let ?fh = "file_headers (getMimeType p) content st"
  let ?r = "put_content content (fold (\<lambda>(k, v). setHeader k v) ?fh ?res)"
  note req = unmatched_get [OF assms(3)]
  have mime: "mimeType req' = Some (getMimeType p)" using req(2) assms(7) by simp
  have h: "handleStaticResource w ?dir req' ?res = Inr (req', ?r)"
    using assms(4-6) serve_file_ok [OF assms(4,6) mime, of ?res] req(1)
    by (simp add: handleStaticResource_def Let_def)
  have res: "res_content ?res = []" "res_status ?res = S_ok" "res_content_type ?res = un_content_type u"
    "map_ok (res_headers ?res)"
    using Response_new_ok [of "sv_default_headers sv" fd "un_content_type u"]
      fold_setHeader_frame [of "sv_default_headers sv" "blank_response (un_content_type u) fd"]
    by (simp_all add: setStaticDirectory_def Response_new_def blank_response_def)
  have frame: "res_content ?r = content" "res_status ?r = S_ok" "res_content_type ?r = un_content_type u"
    "res_headers ?r = res_headers (fold (\<lambda>(k, v). setHeader k v) ?fh ?res)"
    using fold_setHeader_frame [of ?fh ?res] res by (simp_all add: file_setters) (simp add: put_content_def)
  have ok: "map_ok (res_headers ?r)"
    using response_headers.ok_fold [OF res(4)] frame(4) by simp
  note look = response_headers.lookup_fold [OF res(4), of ?fh]
  have keys: "map_of (res_headers ?r) ''Content-Length'' = Some (to_string (length content))"
    "map_of (res_headers ?r) ''Content-Type'' = Some (getMimeType p)"
    unfolding frame(4) look by (simp_all add: file_headers_def)
  have dir: "res_static_directory ?r = ?dir"
  proof -
    have "res_static_directory (fold (\<lambda>(k, v). setHeader k v) hs x) = res_static_directory x" for hs x
      by (induction hs arbitrary: x) (auto simp: setHeader_def)
    then show ?thesis by (simp add: put_content_def setStaticDirectory_def)
  qed
  have load: "res_content (load_content (file_contents w) ?r) = sent_file (un_content_type u) (file_contents w) ?dir content"
    by (simp only: load_content_sent frame(1,3) dir)
  note b = built_headers(2) [OF ok, of _ _ "file_contents w" False]
  show ?thesis
  proof (intro conjI impI)
    assume "content = []"
    then show "performRequest u fd (get_message p) sv w = Ret (sv, w)"
      using frame(1) by (simp add: performRequest_unrouted [OF assms(1-3)] h build_empty)
  next
    assume "content \<noteq> []"
    then have ne: "res_content ?r \<noteq> []" using frame(1) by simp
    show "\<exists>hs. performRequest u fd (get_message p) sv w =
         and_then (sendResponse fd (''HTTP/1.0 200 OK'' @ crlf @ crlf_lines (map (\<lambda>h. fst h @ '': '' @ snd h) hs) @
            crlf @ sent_file (un_content_type u) (file_contents w) ?dir content) w) (\<lambda>(_, w). Ret (sv, w)) \<and>
       map_of hs ''Content-Length'' = Some (to_string (length content)) \<and>
       map_of hs ''Content-Type'' = Some (getMimeType p)"
      using b [OF keys(1)] b [OF keys(2)] load frame(1,2)
      by (intro exI [of _ "res_headers (built (file_contents w) False ?r)"])
        (simp add: performRequest_unrouted [OF assms(1-3)] h build_eq [OF ne] line_of_def)
  qed
qed

section \<open>The handshake\<close>

definition valid_client_key :: "string \<Rightarrow> bool" where
  "valid_client_key k \<longleftrightarrow> length k = 24 \<and> k ! 22 = CHR ''='' \<and> k ! 23 = CHR ''=''"

lemma handshake_accepts:
  assumes "req_headers req ''Upgrade'' = Some ''websocket''" "req_headers req ''Connection'' = Some c"
    and "req_headers req ''Sec-WebSocket-Key'' = Some k" "valid_client_key k"
  shows "processWebsocketHandshake sendResponse sd req w = sendResponse sd (handshake_response k) w"
  using assms by (auto simp: processWebsocketHandshake_def valid_client_key_def)

text \<open>
  The handshake has three outcomes, by the headers alone: the 101 response for the key is
  sent for a \<open>websocket\<close> upgrade with a well-formed key and any \<open>Connection\<close> value; an \<open>Upgrade\<close> header
  without a \<open>Connection\<close> header dereferences the end iterator; everything else is turned down.
\<close>

lemma handshake_decision:
  "(\<exists>k. req_headers req ''Upgrade'' = Some ''websocket'' \<and> req_headers req ''Connection'' \<noteq> None \<and>
        req_headers req ''Sec-WebSocket-Key'' = Some k \<and> valid_client_key k \<and>
        processWebsocketHandshake sendResponse sd req w = sendResponse sd (handshake_response k) w) \<or>
   (req_headers req ''Upgrade'' \<noteq> None \<and> req_headers req ''Connection'' = None \<and>
        processWebsocketHandshake sendResponse sd req w = Throw Undefined_behaviour) \<or>
   ((req_headers req ''Upgrade'' = None \<or> (req_headers req ''Connection'' \<noteq> None \<and>
       (req_headers req ''Upgrade'' \<noteq> Some ''websocket'' \<or>
         (\<nexists>k. req_headers req ''Sec-WebSocket-Key'' = Some k \<and> valid_client_key k)))) \<and>
        processWebsocketHandshake sendResponse sd req w = Ret (False, w))"
proof (cases "req_headers req ''Upgrade'' = Some ''websocket'' \<and> req_headers req ''Connection'' \<noteq> None \<and>
    (\<exists>k. req_headers req ''Sec-WebSocket-Key'' = Some k \<and> valid_client_key k)")
  case True
  then show ?thesis using handshake_accepts by blast
next
  case False
  then show ?thesis
    by (cases "req_headers req ''Upgrade''"; cases "req_headers req ''Connection''";
        cases "req_headers req ''Sec-WebSocket-Key''")
      (auto simp: processWebsocketHandshake_def valid_client_key_def)
qed

lemma handshake_decision_witness:
  "\<forall>w. processWebsocketHandshake sendResponse 4 (empty_request\<lparr>req_headers := [''Upgrade'' \<mapsto> ''websocket'']\<rparr>) w =
     Throw Undefined_behaviour"
  using handshake_decision [of "empty_request\<lparr>req_headers := [''Upgrade'' \<mapsto> ''websocket'']\<rparr>" 4] by simp

section \<open>WebSocket traffic\<close>

lemma routed_frame:
  assumes "getWebSocketFrame raw = Some opcode" "opcode \<noteq> Close"
    and "getWsRouteBySocketId sd (sv_wsRoutes sv) = Some route"
  shows "performRequest u sd raw sv w =
    and_then (wr_handler route (WebSocket_new sd raw (wr_query route) (un_masking_key u)) w) (\<lambda>w. Ret (sv, w))"
  using assms by (cases "sv_wsRoutes sv") (auto simp: performRequest_def Let_def dispatchWebSocket_def)

text \<open>A handler that first reads its message, like every handler of the examples.\<close>

definition reading_handler :: "(Result \<times> string \<times> WebSocket \<times> bool \<Rightarrow> world \<Rightarrow> world exec) \<Rightarrow> ws_handler" where
  "reading_handler k ws w = and_then (of_result (ws_read ws [])) (\<lambda>x. k x w)"

text \<open>
  C26. A masked text frame on a socket that has a WebSocket route reaches the route's handler,
  whose first \<open>read\<close> gets exactly the text the client sent.
\<close>

theorem text_frame_reaches_handler:
  assumes "getWsRouteBySocketId sd (sv_wsRoutes sv) = Some route" "wr_handler route = reading_handler k"
    and "length key = 4" "length msg \<le> max_size"
    and "raw = from_bytes (ws_encode True Text (Some key) (to_bytes msg))"
  shows "\<exists>ws. performRequest u sd raw sv w = and_then (k (Text_result, msg, ws, False) w) (\<lambda>w. Ret (sv, w)) \<and>
    f_sockfd (ws_frame ws) = sd"
proof -
  let ?f = "new_frame sd (un_masking_key u)"
  have "getWebSocketFrame raw = Some Text"
    using getWebSocketFrame_ws_encode [of Text True "Some key" "to_bytes msg" "[]"] assms(5) by simp
  note p = routed_frame [OF this _ assms(1), of u w]
  have "readFrame (to_bytes raw) ?f = Inr (True, decoded True Text (Some key) (to_bytes msg) ?f)"
    using readFrame_ws_encode [of Text "to_bytes msg" "Some key" True "[]" ?f] assms(3-5)
    by (simp add: to_from_bytes)
  then have "ws_read (WebSocket_new sd raw (wr_query route) (un_masking_key u)) [] =
      Inr (Text_result, msg, (WebSocket_new sd raw (wr_query route) (un_masking_key u))
        \<lparr>ws_frame := decoded True Text (Some key) (to_bytes msg) ?f\<rparr>, False)"
    by (simp add: WebSocket_new_def ws_read_def decoded_def)
  then show ?thesis
    using p assms(2)
    by (intro exI [of _ "(WebSocket_new sd raw (wr_query route) (un_masking_key u))
        \<lparr>ws_frame := decoded True Text (Some key) (to_bytes msg) ?f\<rparr>"])
      (simp add: reading_handler_def decoded_def new_frame_def)
qed

text \<open>
  C36. Ten bytes from any connected WebSocket client end the process: the handler's \<open>read\<close>
  throws \<open>length_error\<close>, and nothing between it and the event loop catches it.
\<close>

theorem hostile_frame_kills_server:
  assumes "getWsRouteBySocketId sd (sv_wsRoutes sv) = Some route" "wr_handler route = reading_handler k"
  shows "performRequest u sd (from_bytes ([0x81, 0x7F] @ replicate 8 0xFF @ rest)) sv w = Throw Length_error"
proof -
  let ?raw = "from_bytes ([0x81, 0x7F] @ replicate 8 0xFF @ rest)"
  have "getWebSocketFrame ?raw = Some Text"
    by (simp add: getWebSocketFrame_def to_from_bytes opcode_of_def Let_def)
  note p = routed_frame [OF this _ assms(1), of u w]
  have "readFrame (to_bytes ?raw) (new_frame sd (un_masking_key u)) = Inl Length_error"
    using readFrame_wraps [of "0x81" rest "new_frame sd (un_masking_key u)"]
    by (simp add: to_from_bytes opcode_of_def)
  then show ?thesis
    using p assms(2) by (simp add: reading_handler_def WebSocket_new_def ws_read_def)
qed

lemma updateWsRoute_other:
  "getWsRouteBySocketId fd (snd (updateWsRoute p q fd' rs)) = None"
  if "fd \<noteq> fd'" "\<forall>r \<in> set rs. wr_sockfd r = fd \<longrightarrow> wr_path r = p" "distinct (map wr_path rs)"
  using that
proof (induction rs)
  case (Cons r rs)
  have "getWsRouteBySocketId fd rs = None" if "\<forall>r \<in> set rs. wr_sockfd r \<noteq> fd" for rs
    using that by (induction rs) auto
  note none = this
  show ?case
  proof (cases "wr_path r = p")
    case True
    with Cons.prems(2,3) have "\<forall>r \<in> set rs. wr_sockfd r \<noteq> fd" by (auto simp: image_iff)
    from none [OF this] True Cons.prems(1) show ?thesis by simp
  next
    case False
    with Cons show ?thesis by (auto simp: Let_def split: prod.splits)
  qed
qed simp

lemma updateWsRoute_paths:
  "map wr_path (snd (updateWsRoute p q fd rs)) = map wr_path rs"
  by (induction rs) (auto simp: Let_def split: prod.splits)

lemma updateWsRoute_found:
  "fst (updateWsRoute p q fd rs) \<longleftrightarrow> p \<in> set (map wr_path rs)"
  by (induction rs) (auto simp: Let_def split: prod.splits)

lemma updateWsRoute_routes:
  "p \<in> set (map wr_path rs) \<Longrightarrow> \<forall>r \<in> set rs. wr_sockfd r \<noteq> fd \<Longrightarrow>
   \<exists>r. getWsRouteBySocketId fd (snd (updateWsRoute p q fd rs)) = Some r \<and> wr_path r = p \<and> wr_query r = q"
  by (induction rs) (auto simp: Let_def split: prod.splits)

lemma updateWsRoute_sockfds:
  "r \<in> set (snd (updateWsRoute p q fd rs)) \<Longrightarrow> distinct (map wr_path rs) \<Longrightarrow>
   wr_sockfd r = fd \<and> wr_path r = p \<or> r \<in> set rs \<and> wr_path r \<noteq> p"
proof (induction rs)
  case (Cons s rs)
  show ?case
  proof (cases "wr_path s = p")
    case True
    with Cons.prems show ?thesis by (auto simp: image_iff)
  next
    case False
    with Cons show ?thesis by (auto simp: Let_def split: prod.splits)
  qed
qed simp

text \<open>
  A WebSocket path serves one client: when a second one completes its handshake for the
  same path, the route is moved to it, and frames of the first find no route any more.
\<close>

lemma second_client_unroutes_first:
  assumes "distinct (map wr_path rs)" "p \<in> set (map wr_path rs)" "\<forall>r \<in> set rs. wr_sockfd r = - 1"
    and "fd1 \<noteq> fd2" "0 \<le> fd1" "0 \<le> fd2"
    and "rs1 = snd (updateWsRoute p q1 fd1 rs)" "rs2 = snd (updateWsRoute p q2 fd2 rs1)"
  shows "(\<exists>r. getWsRouteBySocketId fd1 rs1 = Some r \<and> wr_path r = p \<and> wr_query r = q1) \<and>
    getWsRouteBySocketId fd1 rs2 = None \<and>
    (\<exists>r. getWsRouteBySocketId fd2 rs2 = Some r \<and> wr_path r = p \<and> wr_query r = q2)"
proof -
  have d: "distinct (map wr_path rs1)" "p \<in> set (map wr_path rs1)"
    using assms(1,2) by (simp_all only: assms(7) updateWsRoute_paths)
  have s: "wr_sockfd r = fd1 \<and> wr_path r = p \<or> wr_sockfd r = - 1" if "r \<in> set rs1" for r
    using updateWsRoute_sockfds [of r p q1 fd1 rs] that assms(1,3,7) by auto
  have "\<exists>r. getWsRouteBySocketId fd1 rs1 = Some r \<and> wr_path r = p \<and> wr_query r = q1"
    unfolding assms(7) using assms(2,3,5) by (intro updateWsRoute_routes) auto
  moreover have "getWsRouteBySocketId fd1 rs2 = None"
    unfolding assms(8) using assms(4,5) d s by (intro updateWsRoute_other) (auto dest!: s)
  moreover have "\<exists>r. getWsRouteBySocketId fd2 rs2 = Some r \<and> wr_path r = p \<and> wr_query r = q2"
    unfolding assms(8) using assms(4,6) d s by (intro updateWsRoute_routes) force+
  ultimately show ?thesis by blast
qed

section \<open>Samples\<close>

definition sample_memory :: uninitialised where
  "sample_memory = \<lparr>un_content_type = None, un_masking_key = [], un_sockfd = 0\<rparr>"

definition assets_world :: "inode \<Rightarrow> world" where
  "assets_world st =
     \<lparr>w_open = {3, 4}, w_closed = [], w_out = [], w_sends = [Sent 2, Send_failed EAGAIN, Sent 4000],
      w_socks = (\<lambda>_. \<lparr>rq_pending = [], rq_end = Recv_error EAGAIN\<rparr>), w_backlog = [],
      w_files = (\<lambda>p. if p = ''./assets/a.bin'' \<or> p = ''./assets/../a.txt'' then Some st else None), w_tls = tls_start\<rparr>"

definition sample_file :: inode where
  "sample_file = \<lparr>i_kind = Regular, i_mtime = - 1, i_size = 2, i_open = Some ''hi''\<rparr>"

definition host_server :: Server where
  "host_server = Server_new ''127.0.0.1'' 8080"

lemmas sample_defs = host_server_def Server_new_def assets_world_def sample_file_def sample_memory_def

theorem sendResponse_delivers_witness:
  "\<exists>w'. sendResponse 4 ''hello'' (assets_world sample_file) = Ret (True, w') \<and> sent_to 4 w' = ''hello''"
proof -
  obtain w' where w: "sendResponse 4 ''hello'' (assets_world sample_file) = Ret (True, w')"
    by (simp add: sendResponse_def sendAll.simps sys_send_def assets_world_def)
  moreover have "sent_to 4 (assets_world sample_file) = []"
    by (simp add: sent_to_def assets_world_def)
  ultimately show ?thesis using sendResponse_delivers [OF w] by simp
qed

lemma unready_peer_stalls_server_witness:
  "sendResponse 4 ''hello'' ((assets_world sample_file)\<lparr>w_sends := [Send_failed EAGAIN, Send_failed EAGAIN]\<rparr>) = Spin"
  by (rule unready_peer_stalls_server [of _ 2]) (simp add: numeral_2_eq_2)

theorem sendResponse_completes_witness:
  "\<exists>w'. sendResponse 4 ''hello'' ((assets_world sample_file)\<lparr>w_sends := [Sent 2, Sent 3]\<rparr>) = Ret (True, w')"
  by (rule sendResponse_completes [of _ "[2, 3]"]) simp_all

definition hello_handler :: request_handler where
  "hello_handler req res = setContent PLAIN_TEXT S_created ''hello'' res"

definition stamp_hook :: request_handler where
  "stamp_hook req res = setHeader ''X-Stamp'' ''1'' res"

text \<open>A server with a WebSocket route and a post-routing hook.\<close>

definition busy_server :: Server where
  "busy_server = setPostRoute stamp_hook (setWsRoute ''/ws'' (\<lambda>ws w. Ret w) host_server)"

definition stamped_hello :: string where
  "stamped_hello = ''HTTP/1.0 201 Created'' @ crlf @ ''Connection: keep-alive'' @ crlf @ ''Content-Length: 5'' @ crlf @
     ''Content-Type: text/plain; charset=utf-8'' @ crlf @ ''X-Stamp: 1'' @ crlf @ crlf @ ''hello''"

definition hi_server :: Server where
  "hi_server = setRoute POST ''/hi'' hello_handler busy_server"

definition hi_message :: string where
  "hi_message = http_message ''POST'' ''/hi'' ''HTTP/1.1'' [''Host: h''] ''data''"

definition hi_request :: Request where
  "hi_request = parsed_request ''POST'' ''/hi'' ''HTTP/1.1'' (foldl apply_header Map.empty [''Host: h'']) ''data''"

lemma hi_route:
  "routes (sv_router busy_server) (pattern ''/hi'', toString POST) = None" "\<forall>s \<in> set (splitPath ''/hi''). \<not> starts_with s '':''"
  "CHR '' '' \<notin> set ''/hi''" "CHR ''?'' \<notin> set ''/hi''"
  "plain_line (toString POST @ '' '' @ ''/hi'' @ '' '' @ ''HTTP/1.1'')" "\<forall>l \<in> set [''Host: h'']. plain_line l"
  "hi_request = parsed_request (toString POST) ''/hi'' ''HTTP/1.1'' (foldl apply_header Map.empty [''Host: h'']) ''data''"
  "req_headers hi_request ''Upgrade'' = None"
  by (simp_all add: busy_server_def setPostRoute_def setWsRoute_def host_server_def Server_new_def splitPath_def
      starts_with_def plain_line_def hi_request_def parsed_request_def apply_header_def header_of_line_def find_char_def trim_id)

lemma hi_reply:
  "fst (build fs False (run_hook (sv_post_routing_handler busy_server) req
     (hello_handler req (setStaticDirectory (sv_static_directory busy_server) (run_hook (sv_pre_routing_handler busy_server) req
       (Response_new (sv_default_headers busy_server) fd (un_content_type sample_memory))))))) = Some stamped_hello"
proof -
  have five: "to_string (Suc (Suc (Suc (Suc (Suc 0))))) = ''5''" by code_simp
  show ?thesis
    by (simp add: busy_server_def setPostRoute_def setWsRoute_def host_server_def Server_new_def sample_memory_def run_hook_def
        stamp_hook_def hello_handler_def Response_new_def blank_response_def setContent_def setStaticDirectory_def setHeader_def
        build_def Let_def load_content_def add_type_headers_def add_length_header_def five header_text_def
        stamped_hello_def line_of_def)
qed

theorem registered_route_answers_witness:
  "performRequest sample_memory 4 hi_message hi_server (assets_world sample_file) =
   and_then (sendResponse 4 stamped_hello (assets_world sample_file)) (\<lambda>(_, w). Ret (hi_server, w))"
  using registered_route_answers [OF hi_route(1-7) disjI2 [OF hi_route(8)] refl, of sample_memory 4 hello_handler
      "assets_world sample_file"]
  by (simp add: hi_reply hi_message_def hi_server_def)

lemma sample_unmatched: "match_route (sv_router host_server) (parsed_get ''/a.bin'') = (None, parsed_get ''/a.bin'')"
  "match_route (sv_router host_server) (parsed_get ''/../a.txt'') = (None, parsed_get ''/../a.txt'')"
  by (simp_all add: match_route_def host_server_def Server_new_def empty_node_def parsed_get_def parsed_request_def
      splitPath_def find_char_def match_step_def Let_def)

lemma sample_paths: "c_str ''./assets/a.bin'' = ''./assets/a.bin''" "c_str ''./assets/../a.txt'' = ''./assets/../a.txt''"
  by (simp_all add: c_str_def)

lemma sample_mime: "getMimeType ''/a.bin'' = []" "getMimeType ''/../a.txt'' = ''text/plain''"
  by code_simp+

theorem static_get_sends_file_witness:
  "\<exists>hs. performRequest sample_memory 4 (get_message ''/../a.txt'') host_server (assets_world sample_file) =
     and_then (sendResponse 4 (''HTTP/1.0 200 OK'' @ crlf @ crlf_lines (map (\<lambda>h. fst h @ '': '' @ snd h) hs) @
       crlf @ ''hi'') (assets_world sample_file)) (\<lambda>(_, w). Ret (host_server, w)) \<and>
     map_of hs ''Content-Type'' = Some ''text/plain''"
proof -
  have "stat_of (assets_world sample_file) (sv_static_directory host_server @ ''/../a.txt'') = Some sample_file"
    using sample_paths by (simp add: stat_of_def host_server_def Server_new_def assets_world_def)
  from static_get_sends_file [OF _ _ sample_unmatched(2) this, of "''hi''" sample_memory 4] sample_mime
  show ?thesis
    by (auto simp: no_hooks_def plain_target_def host_server_def Server_new_def sample_memory_def sample_file_def sent_file_def)
qed

theorem static_request_kills_server_witness:
  "performRequest sample_memory 4 (get_message ''/a.bin'') host_server (assets_world sample_file) = Throw Bad_optional_access"
proof -
  have "stat_of (assets_world sample_file) (sv_static_directory host_server @ ''/a.bin'') = Some sample_file"
    using sample_paths by (simp add: stat_of_def host_server_def Server_new_def assets_world_def)
  from static_request_kills_server [OF _ _ sample_unmatched(1) this, of sample_memory 4] sample_mime
  show ?thesis
    by (simp add: no_hooks_def plain_target_def host_server_def Server_new_def sample_file_def)
qed

definition ws_server :: "ws_handler \<Rightarrow> Server" where
  "ws_server h = host_server\<lparr>sv_wsRoutes := [\<lparr>wr_sockfd = 4, wr_path = ''/ws'', wr_handler = h, wr_query = Map.empty\<rparr>]\<rparr>"

theorem text_frame_reaches_handler_witness:
  "performRequest sample_memory 4 (from_bytes (ws_encode True Text (Some [1, 2, 3, 4]) (to_bytes ''hi'')))
     (ws_server (reading_handler (\<lambda>(r, msg, _) w. if msg = ''hi'' then Ret w else Spin))) (assets_world sample_file) =
   Ret (ws_server (reading_handler (\<lambda>(r, msg, _) w. if msg = ''hi'' then Ret w else Spin)), assets_world sample_file)"
proof -
  let ?k = "\<lambda>(r :: Result, msg, _) w. if msg = ''hi'' then Ret w else Spin"
  obtain ws where "performRequest sample_memory 4 (from_bytes (ws_encode True Text (Some [1, 2, 3, 4]) (to_bytes ''hi'')))
      (ws_server (reading_handler ?k)) (assets_world sample_file) =
    and_then (?k (Text_result, ''hi'', ws, False) (assets_world sample_file)) (\<lambda>w. Ret (ws_server (reading_handler ?k), w))"
    using text_frame_reaches_handler [OF _ _ _ _ refl, of 4 "ws_server (reading_handler ?k)" _
        ?k "[1, 2, 3, 4]" "''hi''" sample_memory "assets_world sample_file"]
    by (auto simp: ws_server_def max_size_def)
  then show ?thesis by simp
qed

theorem hostile_frame_kills_server_witness:
  "performRequest sample_memory 4 (from_bytes ([0x81, 0x7F] @ replicate 8 0xFF))
     (ws_server (reading_handler (\<lambda>x w. Ret w))) (assets_world sample_file) = Throw Length_error"
  using hostile_frame_kills_server [of 4 "ws_server (reading_handler (\<lambda>x w. Ret w))" _ "\<lambda>x w. Ret w"
      sample_memory "[]" "assets_world sample_file"]
  by (simp add: ws_server_def)

lemma second_client_unroutes_first_witness:
  "getWsRouteBySocketId 4 (snd (updateWsRoute ''/ws'' Map.empty 5 (snd (updateWsRoute ''/ws'' Map.empty 4
     [\<lparr>wr_sockfd = - 1, wr_path = ''/ws'', wr_handler = (\<lambda>ws w. Ret w), wr_query = Map.empty\<rparr>])))) = None"
  using second_client_unroutes_first [OF _ _ _ _ _ _ refl refl, of "[\<lparr>wr_sockfd = - 1, wr_path = ''/ws'',
      wr_handler = (\<lambda>ws w. Ret w), wr_query = Map.empty\<rparr>]" "''/ws''" 4 5 Map.empty Map.empty]
  by simp

end
