(* ===== verification/Client.thy ===== *)
theory Client
  imports Response Utils_Text Os_World
begin

text \<open>
  The HTTP client, \<open>src/src/client.h\<close> and \<open>src/src/client.cc\<close>: parsing of the status, of a
  response and of a chunked body, the four request methods over the virtual \<open>sendRequest\<close>,
  the plain-text transport (\<open>HttpClient\<close>), and the URL parser of \<open>ClientFactory\<close>. The TLS
  transport is in \<open>Https_Client\<close>. \<open>std::expected<T, std::string>\<close> is \<open>expected\<close>; a call that
  throws or does not return is the \<open>exec\<close> around it.
\<close>

section \<open>std::expected and std::stoi\<close>

datatype 'a expected = Unexpected string | Expected 'a

text \<open>
  \<open>stoi\<close>: leading white space, an optional sign, digits up to the first other byte; it
  throws when there is no digit or the number is not an \<open>int\<close>.
\<close>

definition stoi :: "string \<Rightarrow> int result" where
  "stoi s =
     (let t = dropWhile is_space s;
          neg = (t \<noteq> [] \<and> hd t = CHR ''-'');
          t = (if t \<noteq> [] \<and> (hd t = CHR ''-'' \<or> hd t = CHR ''+'') then tl t else t);
          ds = takeWhile is_digit t;
          n = (if neg then - dec_num ds 0 else dec_num ds 0)
      in if ds = [] then Inl Invalid_argument
         else if n < - (2 ^ 31) \<or> 2 ^ 31 \<le> n then Inl Out_of_range
         else Inr n)"

section \<open>Parsing a response\<close>

text \<open>The \<open>switch\<close> of \<open>parseStatus\<close>: a code it does not list is \<open>ok\<close>.\<close>

definition status_of :: "int \<Rightarrow> Status" where
  "status_of n =
     (if n = 200 then S_ok else if n = 201 then S_created else if n = 202 then S_accepted
      else if n = 204 then S_no_content else if n = 300 then S_multiple_choices
      else if n = 301 then S_moved_permanently else if n = 302 then S_moved_temporarily
      else if n = 304 then S_not_modified else if n = 400 then S_bad_request
      else if n = 401 then S_unauthorized else if n = 403 then S_forbidden
      else if n = 404 then S_not_found else if n = 500 then S_internal_server_error
      else if n = 501 then S_not_implemented else if n = 502 then S_bad_gateway
      else if n = 503 then S_service_unavailable else S_ok)"

definition parseStatus :: "string \<Rightarrow> Status result" where
  "parseStatus raw =
     (let status_start =
            (case find_str ''HTTP/1.1 '' raw 0 of None \<Rightarrow> find_str ''HTTP/1.0 '' raw 0 | Some i \<Rightarrow> Some i)
      in case status_start of
           None \<Rightarrow> Inr S_ok
         | Some i \<Rightarrow>
             (case find_char CHR '' '' raw (i + 9) of
                None \<Rightarrow> Inr S_ok
              | Some status_end \<Rightarrow>
                  map_sum id status_of (stoi (sub raw (i + 9) (status_end - (i + 9))))))"

text \<open>
  \<open>parseChunkedBody\<close>: the lambda \<open>parse\<close> calls itself at the position after a chunk. Its
  positions are \<open>size_t\<close> values, the sums wrap, and nothing makes them grow: on some
  bodies it does not return, which is the value \<open>None\<close>. \<open>append\<close> takes what is there.
\<close>

partial_function (option) parseChunk :: "string \<Rightarrow> nat \<Rightarrow> string \<Rightarrow> string expected option" where
  "parseChunk body pos res =
     (if length body \<le> pos then Some (Expected res)
      else (case find_str crlf body pos of
              None \<Rightarrow> Some (Unexpected ''Invalid chunked encoding: missing size line'')
            | Some line_end \<Rightarrow>
                (let (valid, chunk_size) = parseHexSize (sub body pos (line_end - pos));
                     n = unat chunk_size; data_start = line_end + 2
                 in if \<not> valid then Some (Unexpected ''Invalid chunk size'')
                    else if n = 0 then Some (Expected res)
                    else if length body < add_sz data_start n then Some (Unexpected ''Truncated chunk body'')
                    else parseChunk body (add_sz (add_sz data_start n) 2) (res @ sub body data_start n))))"

declare parseChunk.simps [code]

definition parseChunkedBody :: "string \<Rightarrow> string expected option" where
  "parseChunkedBody body = parseChunk body 0 []"

definition add_header_line :: "Response \<Rightarrow> string \<Rightarrow> Response" where
  "add_header_line r line =
     (case find_char CHR '':'' line 0 of
        None \<Rightarrow> r
      | Some colon_pos \<Rightarrow> setHeader (trim (sub line 0 colon_pos)) (trim (drop (colon_pos + 1) line)) r)"

definition header_lines :: "string \<Rightarrow> string list" where
  "header_lines header_section = takeWhile (\<lambda>line. line \<noteq> []) (split_on LF header_section)"

text \<open>\<open>g\<close> and \<open>fd\<close> are the members the default constructor of \<open>Response\<close> leaves uninitialised.\<close>

definition parseResponse :: "ContentType option \<Rightarrow> int \<Rightarrow> string \<Rightarrow> Response expected exec" where
  "parseResponse g fd raw =
     (let response = Response_default g fd
      in case find_str (crlf @ crlf) raw 0 of
           None \<Rightarrow> Ret (Unexpected ''Invalid HTTP response: missing header terminator'')
         | Some header_end \<Rightarrow>
             and_then (of_result (parseStatus raw)) (\<lambda>status.
               let response = foldl add_header_line response (header_lines (sub raw 0 header_end));
                   body = drop (header_end + 4) raw
               in if map_of (res_headers response) ''Transfer-Encoding'' = Some ''chunked'' then
                    (case parseChunkedBody body of
                       None \<Rightarrow> Spin
                     | Some (Unexpected e) \<Rightarrow> Ret (Unexpected e)
                     | Some (Expected body) \<Rightarrow> Ret (Expected (put_content body (put_status status response))))
                  else Ret (Expected (put_content body (put_status status response)))))"

section \<open>The request methods\<close>

text \<open>
  \<open>sendRequest\<close> is virtual: a parameter, from the method and the path to the raw response, acting
  on the state of the transport.
  \<open>post\<close> and \<open>put\<close> print a request with the body into a stream of their own and then call
  \<open>sendRequest\<close> with the path alone.
\<close>

record Base_Client =
  cl_host :: string
  cl_port :: int
  cl_keep_alive :: bool

definition connection_value :: "Base_Client \<Rightarrow> string" where
  "connection_value c = (if cl_keep_alive c then ''keep-alive'' else ''close'')"

definition body_request :: "string \<Rightarrow> Base_Client \<Rightarrow> string \<Rightarrow> string \<Rightarrow> string" where
  "body_request method c path body =
     method @ '' '' @ path @ '' HTTP/1.1'' @ crlf @ ''Host: '' @ cl_host c @ crlf @
     ''Content-Type: application/json'' @ crlf @ ''Content-Length: '' @ to_string (length body) @ crlf @
     ''Connection: '' @ connection_value c @ crlf @ crlf @ body"

type_synonym 's send_request = "string \<Rightarrow> string \<Rightarrow> 's \<Rightarrow> (string expected \<times> 's) exec"

definition request_and_parse ::
  "'s send_request \<Rightarrow> ContentType option \<Rightarrow> int \<Rightarrow> string \<Rightarrow> string \<Rightarrow> 's \<Rightarrow> (Response expected \<times> 's) exec" where
  "request_and_parse sendRequest g fd method path st =
     and_then (sendRequest method path st) (\<lambda>(response, st).
       case response of
         Unexpected e \<Rightarrow> Ret (Unexpected e, st)
       | Expected raw \<Rightarrow> and_then (parseResponse g fd raw) (\<lambda>r. Ret (r, st)))"

definition client_get ::
  "'s send_request \<Rightarrow> ContentType option \<Rightarrow> int \<Rightarrow> string \<Rightarrow> 's \<Rightarrow> (Response expected \<times> 's) exec" where
  "client_get sendRequest g fd path = request_and_parse sendRequest g fd ''GET'' path"

definition client_post ::
  "'s send_request \<Rightarrow> Base_Client \<Rightarrow> ContentType option \<Rightarrow> int \<Rightarrow> string \<Rightarrow> string \<Rightarrow> 's \<Rightarrow>
     (Response expected \<times> 's) exec" where
  "client_post sendRequest c g fd path body =
     (let request = body_request ''POST'' c path body
      in request_and_parse sendRequest g fd ''POST'' path)"

definition client_put ::
  "'s send_request \<Rightarrow> Base_Client \<Rightarrow> ContentType option \<Rightarrow> int \<Rightarrow> string \<Rightarrow> string \<Rightarrow> 's \<Rightarrow>
     (Response expected \<times> 's) exec" where
  "client_put sendRequest c g fd path body =
     (let request = body_request ''PUT'' c path body
      in request_and_parse sendRequest g fd ''PUT'' path)"

definition client_del ::
  "'s send_request \<Rightarrow> ContentType option \<Rightarrow> int \<Rightarrow> string \<Rightarrow> 's \<Rightarrow> (Response expected \<times> 's) exec" where
  "client_del sendRequest g fd path = request_and_parse sendRequest g fd ''DELETE'' path"

section \<open>The plain-text transport\<close>

text \<open>
  What the system calls of one exchange return: the new descriptor, whether the host is
  found, the timeouts are set and the connection is made, what \<open>send\<close> returns, and the
  results of the \<open>recv\<close> calls in order.
\<close>

record exchange =
  ex_socket :: int
  ex_host_found :: bool
  ex_options_set :: bool
  ex_connected :: bool
  ex_sent :: int
  ex_recv :: "recv_outcome list"

text \<open>The Linux numbers of the \<open>errno\<close> values.\<close>

fun errno_number :: "errno \<Rightarrow> nat" where
  "errno_number EAGAIN = 11"
| "errno_number EWOULDBLOCK = 11"
| "errno_number EINTR = 4"
| "errno_number ENOTCONN = 107"
| "errno_number (E_other n) = n"

definition closeSocket_client :: "int \<Rightarrow> world \<Rightarrow> world" where
  "closeSocket_client sock w = (if 0 \<le> sock then sys_close sock w else w)"

fun readResponse :: "int \<Rightarrow> recv_outcome list \<Rightarrow> string \<Rightarrow> world \<Rightarrow> (string expected \<times> world) exec" where
  "readResponse sock [] response w = Spin"
| "readResponse sock (Recv_failed e # rs) response w =
     (if e = EINTR then readResponse sock rs response w
      else Ret (Unexpected (''recv failed: '' @ to_string (errno_number e)), closeSocket_client sock w))"
| "readResponse sock (Peer_closed # rs) response w = Ret (Expected response, closeSocket_client sock w)"
| "readResponse sock (Received s # rs) response w =
     (if length s < READ_BUFFER_SIZE then Ret (Expected (response @ s), closeSocket_client sock w)
      else readResponse sock rs (response @ s) w)"

definition request_text :: "Base_Client \<Rightarrow> string \<Rightarrow> string \<Rightarrow> string" where
  "request_text c method path =
     method @ '' '' @ path @ '' HTTP/1.1'' @ crlf @ ''Host: '' @ cl_host c @ crlf @
     ''Connection: '' @ connection_value c @ crlf @ crlf"

definition int_string :: "int \<Rightarrow> string" where
  "int_string n = (if n < 0 then ''-'' @ to_string (nat (- n)) else to_string (nat n))"

text \<open>A short \<open>send\<close> is not noticed: what counts is that it did not fail.\<close>

definition http_sendRequest :: "Base_Client \<Rightarrow> exchange \<Rightarrow> world send_request" where
  "http_sendRequest c ex method path w =
     (let sock = ex_socket ex; request = request_text c method path
      in if sock < 0 then Ret (Unexpected ''Failed to create socket'', w)
         else (let w = w\<lparr>w_open := insert sock (w_open w)\<rparr>
               in if \<not> ex_host_found ex then Ret (Unexpected (''Host not found: '' @ cl_host c), closeSocket_client sock w)
                  else if \<not> ex_options_set ex then
                    Ret (Unexpected ''Failed to set socket timeout'', closeSocket_client sock w)
                  else if \<not> ex_connected ex then
                    Ret (Unexpected (''Connection failed to '' @ cl_host c @ '':'' @ int_string (cl_port c)),
                         closeSocket_client sock w)
                  else if ex_sent ex < 0 then Ret (Unexpected ''Failed to send request'', closeSocket_client sock w)
                  else readResponse sock (ex_recv ex) []
                         (w\<lparr>w_out := w_out w @ [(sock, take (nat (ex_sent ex)) request)]\<rparr>)))"

section \<open>The factory\<close>

datatype Protocol = HTTP | HTTPS

text \<open>
  \<open>from_chars\<close> for an \<open>int\<close>: an optional minus and digits, no white space and no plus; the
  whole text has to be used and the number has to fit.
\<close>

definition parsePort :: "string \<Rightarrow> int option" where
  "parsePort s =
     (let neg = (s \<noteq> [] \<and> hd s = CHR ''-''); t = (if neg then tl s else s);
          n = (if neg then - dec_num t 0 else dec_num t 0)
      in if t = [] \<or> \<not> list_all is_digit t then None
         else if n < - (2 ^ 31) \<or> 2 ^ 31 \<le> n then None
         else Some n)"

text \<open>The host and port in what follows the scheme.\<close>

definition client_for :: "Protocol \<Rightarrow> string \<Rightarrow> Base_Client" where
  "client_for client_protocol remaining =
     (let host_end = find_first_of [CHR '':'', CHR ''/''] remaining;
          host = (case host_end of None \<Rightarrow> remaining | Some e \<Rightarrow> sub remaining 0 e);
          port_str =
            (case host_end of
               None \<Rightarrow> []
             | Some e \<Rightarrow>
                 if remaining ! e = CHR '':'' then
                   (case find_char CHR ''/'' remaining (e + 1) of
                      None \<Rightarrow> drop (e + 1) remaining
                    | Some port_end \<Rightarrow> sub remaining (e + 1) (port_end - (e + 1)))
                 else []);
          port =
            (if port_str = [] then (if client_protocol = HTTPS then 443 else 80)
             else (case parsePort port_str of None \<Rightarrow> 80 | Some p \<Rightarrow> p))
      in \<lparr>cl_host = host, cl_port = port, cl_keep_alive = True\<rparr>)"

text \<open>
  Without \<open>"://"\<close> the search gives \<open>npos\<close>, and \<open>npos + 3\<close> wraps to 2. The \<open>https\<close> protocol
  selects a default port and nothing else: the result is always a plain \<open>HttpClient\<close>.
\<close>

definition createClient :: "string \<Rightarrow> Base_Client expected result" where
  "createClient url =
     (let protocol_end = find_str ''://'' url 0;
          protocol = (case protocol_end of None \<Rightarrow> ''http'' | Some e \<Rightarrow> sub url 0 e);
          client_protocol = (if protocol = ''https'' then HTTPS else HTTP)
      in case substr url (add_sz (pos_of protocol_end) 3) (length url) of
           Inl e \<Rightarrow> Inl e
         | Inr remaining \<Rightarrow> Inr (Expected (client_for client_protocol remaining)))"

section \<open>The client\<close>

text \<open>
  \<open>Client\<close> keeps what the factory made and passes the four methods on. \<open>result.value()\<close> would
  throw for an error of the factory.
\<close>

definition Client_new :: "string \<Rightarrow> Base_Client exec" where
  "Client_new url =
     (case createClient url of
        Inl e \<Rightarrow> Throw e
      | Inr (Unexpected m) \<Rightarrow> Throw Bad_expected_access
      | Inr (Expected c) \<Rightarrow> Ret c)"

end
