(* ===== verification/Client_Facts.thy ===== *)
theory Client_Facts
  imports Client
begin

text \<open>
  Theorems about the client: chunked bodies (round trip, termination, a body on which it does
  not return), the round trip of a response from the server's \<open>build\<close> to the client's
  \<open>parseResponse\<close>, and the ways the client departs from what a caller expects.
\<close>

section \<open>Chunked bodies\<close>

definition enc_chunk :: "string \<Rightarrow> string" where
  "enc_chunk c = fromIntToHex (of_nat (length c)) @ crlf @ c @ crlf"

definition last_chunk :: string where
  "last_chunk = ''0'' @ crlf @ crlf"

definition encode_chunks :: "string list \<Rightarrow> string" where
  "encode_chunks cs = concat (map enc_chunk cs) @ last_chunk"

lemma all_hex_no_CR: "all_hex s \<Longrightarrow> CR \<notin> set s"
  by (auto simp: all_hex_def hex_value_def)

lemma parseChunk_step:
  assumes "all_hex hex" "length (pre @ hex @ crlf @ tail) < size_mod"
  shows "parseChunk (pre @ hex @ crlf @ tail) (length pre) res =
    (let n = hex_num hex 0 mod size_mod; start = length pre + length hex + 2 in
     if n = 0 then Some (Expected res)
     else if length (pre @ hex @ crlf @ tail) < add_sz start n then Some (Unexpected ''Truncated chunk body'')
     else parseChunk (pre @ hex @ crlf @ tail) (add_sz (add_sz start n) 2) (res @ take n tail))"
proof -
  let ?b = "pre @ hex @ crlf @ tail"
  have f: "find_str crlf ?b (length pre) = Some (length pre + length hex)"
    using find_str_append [OF all_hex_no_CR [OF assms(1)], of "length pre" pre "[LF]" tail] by simp
  have s: "sub ?b (length pre) (length pre + length hex - length pre) = hex"
    by (simp add: sub_def)
  have n: "unat (of_nat m :: 64 word) = m mod size_mod" for m
    by (simp add: unat_of_nat size_mod_def)
  have t: "sub ?b (length pre + length hex + 2) k = take k tail" for k
    by (simp add: sub_def)
  show ?thesis
    by (subst parseChunk.simps)
      (simp only: f s t n option.case Let_def parseHexSize_hex [OF assms(1)] prod.case, simp)
qed

lemma chunk_hex:
  assumes "length c < size_mod"
  shows "all_hex (fromIntToHex (of_nat (length c)))" "hex_num (fromIntToHex (of_nat (length c))) 0 = length c"
  using assms fromIntToHex_props [of "of_nat (length c)"] by (simp_all add: unat_of_nat size_mod_def)

lemma parseChunk_chunk:
  assumes "c \<noteq> []" "length (pre @ enc_chunk c @ rest) < size_mod"
  shows "parseChunk (pre @ enc_chunk c @ rest) (length pre) res =
    parseChunk (pre @ enc_chunk c @ rest) (length (pre @ enc_chunk c)) (res @ c)"
proof -
  let ?hex = "fromIntToHex (of_nat (length c))"
  have c: "length c < size_mod" using assms(2) by (simp add: enc_chunk_def)
  note h = chunk_hex [OF c]
  have b: "pre @ enc_chunk c @ rest = pre @ ?hex @ crlf @ c @ crlf @ rest"
    by (simp add: enc_chunk_def)
  have "add_sz (length pre + length ?hex + 2) (length c) = length pre + length ?hex + 2 + length c"
    "add_sz (length pre + length ?hex + 2 + length c) 2 = length pre + length ?hex + 2 + length c + 2"
    using assms(2) by (intro add_sz_small; simp add: enc_chunk_def)+
  then show ?thesis
    using parseChunk_step [OF h(1), of pre "c @ crlf @ rest" res] assms c
    unfolding b by (simp add: h(2) Let_def enc_chunk_def add.assoc)
qed

lemma parseChunk_chunks:
  assumes "[] \<notin> set cs" "length (pre @ concat (map enc_chunk cs) @ rest) < size_mod"
  shows "parseChunk (pre @ concat (map enc_chunk cs) @ rest) (length pre) res =
    parseChunk (pre @ concat (map enc_chunk cs) @ rest) (length (pre @ concat (map enc_chunk cs))) (res @ concat cs)"
  using assms
proof (induction cs arbitrary: pre res)
  case (Cons c cs)
  from Cons.IH [of "pre @ enc_chunk c" "res @ c"] Cons.prems
    parseChunk_chunk [of c pre "concat (map enc_chunk cs) @ rest" res]
  show ?case by auto
qed simp

lemma parseChunkedBody_chunks:
  assumes "[] \<notin> set cs" "length (encode_chunks cs) < size_mod"
  shows "parseChunkedBody (encode_chunks cs) = Some (Expected (concat cs))"
    "parseChunkedBody (concat (map enc_chunk cs)) = Some (Expected (concat cs))"
proof -
  have z: "all_hex ''0''" "hex_num ''0'' 0 = 0"
    by (simp_all add: all_hex_def hex_value_def)
  show "parseChunkedBody (encode_chunks cs) = Some (Expected (concat cs))"
    using parseChunk_chunks [OF assms(1), of "[]" last_chunk "[]"] assms(2)
      parseChunk_step [OF z(1), of "concat (map enc_chunk cs)" crlf "concat cs"]
    by (simp add: parseChunkedBody_def encode_chunks_def last_chunk_def z(2) [simplified] Let_def)
  show "parseChunkedBody (concat (map enc_chunk cs)) = Some (Expected (concat cs))"
    using parseChunk_chunks [OF assms(1), of "[]" "[]" "[]"] assms(2)
    by (simp add: parseChunkedBody_def encode_chunks_def parseChunk.simps)
qed

text \<open>
  C21. Chunked decoding inverts chunked encoding: any sequence of non-empty chunks comes back as
  its concatenation. The terminating zero chunk is not needed for that, so a body cut off after a
  whole chunk is taken for complete.
\<close>

theorem chunked_roundtrip:
  assumes "[] \<notin> set cs" "length (encode_chunks cs) < size_mod"
  shows "parseChunkedBody (encode_chunks cs) = Some (Expected (concat cs)) \<and>
    parseChunkedBody (concat (map enc_chunk cs)) = Some (Expected (concat cs))"
  using parseChunkedBody_chunks [OF assms] by simp

text \<open>
  The size lines the recursion reads: the one at the start of the body, and the one behind each chunk
  that is there in full.
\<close>

definition size_line :: "string \<Rightarrow> nat \<Rightarrow> nat \<Rightarrow> nat \<Rightarrow> bool" where
  "size_line body pos line_end n \<longleftrightarrow> pos < length body \<and> find_str crlf body pos = Some line_end \<and>
     fst (parseHexSize (sub body pos (line_end - pos))) \<and> n = unat (snd (parseHexSize (sub body pos (line_end - pos))))"

inductive reaches :: "string \<Rightarrow> nat \<Rightarrow> bool" for body where
  first_line: "reaches body 0"
| next_line: "reaches body pos \<Longrightarrow> size_line body pos line_end n \<Longrightarrow> n \<noteq> 0 \<Longrightarrow> line_end + 2 + n \<le> length body \<Longrightarrow>
    reaches body (line_end + 2 + n + 2)"

lemma parseChunk_returns:
  assumes "length body + 2 < size_mod"
    and "\<And>pos line_end n. reaches body pos \<Longrightarrow> size_line body pos line_end n \<Longrightarrow> line_end + 2 + n < size_mod"
    and "reaches body pos"
  shows "\<exists>r. parseChunk body pos res = Some r"
  using assms(3)
proof (induction "Suc (length body) - pos" arbitrary: pos res rule: less_induct)
  case less
  show ?case
  proof (cases "length body \<le> pos \<or> find_str crlf body pos = None")
    case True
    then show ?thesis by (auto simp: parseChunk.simps [of body pos res])
  next
    case False
    then obtain line_end where f: "find_str crlf body pos = Some line_end" and p: "pos < length body" by auto
    obtain valid size where h: "parseHexSize (sub body pos (line_end - pos)) = (valid, size)" by force
    let ?n = "unat size" and ?start = "line_end + 2"
    have b: "pos \<le> line_end" using find_str_bounds [OF f] p by auto
    show ?thesis
    proof (cases "valid \<and> ?n \<noteq> 0")
      case True
      then have line: "size_line body pos line_end ?n" using f p h by (simp add: size_line_def)
      then have start: "add_sz ?start ?n = ?start + ?n" using assms(2) [OF less.prems] by (simp add: add_sz_small)
      show ?thesis
      proof (cases "?start + ?n \<le> length body")
        case fits: True
        then have "add_sz (?start + ?n) 2 = ?start + ?n + 2" using assms(1) by (simp add: add_sz_small)
        moreover have "reaches body (?start + ?n + 2)" using next_line [OF less.prems line] True fits by simp
        then have "\<exists>r. parseChunk body (?start + ?n + 2) (res @ sub body ?start ?n) = Some r"
          using p b by (intro less.hyps) arith+
        ultimately show ?thesis
          using True fits f h p start by (subst parseChunk.simps) (simp add: Let_def)
      next
        case False
        then show ?thesis using True f h p start by (subst parseChunk.simps) (simp add: Let_def)
      qed
    next
      case False
      then show ?thesis using f h p by (subst parseChunk.simps) (auto simp: Let_def)
    qed
  qed
qed

text \<open>
  C22. The recursion of \<open>parseChunkedBody\<close> ends, on any bytes, as long as no size line it comes to is
  so large that adding it to the position behind that line wraps around; whatever the data of
  the chunks looks like.
\<close>

theorem chunked_body_returns:
  assumes "length body + 2 < size_mod"
    and "\<And>pos line_end n. reaches body pos \<Longrightarrow> size_line body pos line_end n \<Longrightarrow> line_end + 2 + n < size_mod"
  shows "\<exists>r. parseChunkedBody body = Some r"
  unfolding parseChunkedBody_def by (rule parseChunk_returns [OF assms first_line])

text \<open>A chunk, then a size that brings the position back to its own size line.\<close>

definition loop_body :: string where
  "loop_body = ''1'' @ crlf @ ''X'' @ crlf @ ''ffffffffffffffec'' @ crlf"

lemma loop_body_facts:
  "length loop_body = 24" "find_str crlf loop_body 6 = Some 22"
  "parseHexSize (sub loop_body 6 16) = (True, of_nat (2 ^ 64 - 20))"
  "unat (of_nat (2 ^ 64 - 20) :: 64 word) = 2 ^ 64 - 20"
  "add_sz 24 (2 ^ 64 - 20) = 4" "add_sz 4 2 = 6"
proof -
  let ?pre = "''1'' @ crlf @ ''X'' @ crlf" and ?hex = "''ffffffffffffffec''"
  have h: "all_hex ?hex" "hex_num ?hex 0 = 2 ^ 64 - 20"
    by (simp_all add: all_hex_def hex_value_def)
  show "length loop_body = 24" by (simp add: loop_body_def)
  show "find_str crlf loop_body 6 = Some 22"
    using find_str_append [OF all_hex_no_CR [OF h(1)], of 6 ?pre "[LF]" "[]"] by (simp add: loop_body_def)
  have "sub loop_body 6 16 = ?hex"
    using sub_middle [of 6 ?pre 16 ?hex crlf] by (simp add: loop_body_def)
  then show "parseHexSize (sub loop_body 6 16) = (True, of_nat (2 ^ 64 - 20))"
    by (simp only: parseHexSize_hex [OF h(1)] h(2))
  show "unat (of_nat (2 ^ 64 - 20) :: 64 word) = 2 ^ 64 - 20"
    by (subst unat_of_nat) simp
  show "add_sz 24 (2 ^ 64 - 20) = 4" "add_sz 4 2 = 6"
    by (simp_all add: add_sz_def size_mod_def)
qed

lemma loop_body_stuck: "parseChunk loop_body 6 res = None"
proof (rule ccontr)
  assume "parseChunk loop_body 6 res \<noteq> None"
  then obtain y where "parseChunk loop_body 6 res = Some y" by blast
  then have "\<not> (loop_body = loop_body \<and> (6 :: nat) = 6)"
  proof (rule parseChunk.raw_induct [rotated, where P = "\<lambda>body pos res y. \<not> (body = loop_body \<and> pos = 6)"])
    fix f body pos res r
    assume ih: "\<And>body pos res r. f body pos res = Some r \<Longrightarrow> \<not> (body = loop_body \<and> pos = 6)"
      and eq: "(if length body \<le> pos then Some (Expected res)
       else case find_str crlf body pos of
          None \<Rightarrow> Some (Unexpected ''Invalid chunked encoding: missing size line'')
        | Some line_end \<Rightarrow>
            let (valid, chunk_size) = parseHexSize (sub body pos (line_end - pos));
                n = unat chunk_size; data_start = line_end + 2
            in if \<not> valid then Some (Unexpected ''Invalid chunk size'')
               else if n = 0 then Some (Expected res)
               else if length body < add_sz data_start n then Some (Unexpected ''Truncated chunk body'')
               else f body (add_sz (add_sz data_start n) 2) (res @ sub body data_start n)) = Some r"
    show "\<not> (body = loop_body \<and> pos = 6)"
    proof
      assume "body = loop_body \<and> pos = 6"
      with eq have "f loop_body 6 (res @ sub loop_body 24 (2 ^ 64 - 20)) = Some r"
        using loop_body_facts by (simp only: Let_def) simp
      then show False using ih by blast
    qed
  qed
  then show False by simp
qed

text \<open>
  C39. A 24-byte body sends the client into an endless recursion: the size
  \<open>ffffffffffffffec\<close> passes the wrapping bounds check and leads back to the same size line.
\<close>

theorem chunked_body_never_returns: "parseChunkedBody loop_body = None"
proof -
  have "enc_chunk ''X'' = ''1'' @ crlf @ ''X'' @ crlf"
    by (simp add: enc_chunk_def fromIntToHex_def fromIntToHex_loop.simps charset_def)
  then have b: "loop_body = [] @ enc_chunk ''X'' @ ''ffffffffffffffec'' @ crlf"
    by (simp add: loop_body_def)
  have "length ([] @ enc_chunk ''X'') = 6" using \<open>enc_chunk ''X'' = _\<close> by simp
  then have "parseChunk loop_body 0 [] = parseChunk loop_body 6 ''X''"
    using parseChunk_chunk [of "''X''" "[]" "''ffffffffffffffec'' @ crlf" "[]", folded b] loop_body_facts(1)
    by (simp add: size_mod_def)
  then show ?thesis by (simp add: parseChunkedBody_def loop_body_stuck)
qed

section \<open>Numbers\<close>

lemma to_string_is_digit: "list_all is_digit (to_string n)"
  using to_string_digits by (auto simp: list_all_iff is_digit_def)

lemma dec_num_append: "dec_num (s @ t) n = dec_num t (dec_num s n)"
  by (induction s arbitrary: n) auto

lemma dec_num_to_string: "dec_num (to_string n) 0 = int n"
proof (induction n rule: to_string.induct)
  case (1 n)
  have d: "byte_of (char_of (48 + k)) = 48 + k" if "k < 10" for k :: nat
    using that by simp
  show ?case
  proof (cases "n < 10")
    case True
    then show ?thesis by (simp add: to_string.simps [of n])
  next
    case False
    then have "dec_num (to_string (n div 10)) 0 = int (n div 10)" using 1 by simp
    moreover have "int (n div 10) * 10 + int (n mod 10) = int n"
      using div_mult_mod_eq [of n 10] by linarith
    ultimately show ?thesis using False by (simp add: to_string.simps [of n] dec_num_append)
  qed
qed

lemma not_space_digit: "is_digit c \<Longrightarrow> \<not> is_space c \<and> c \<noteq> CHR ''-'' \<and> c \<noteq> CHR ''+''"
  by (auto simp: is_digit_def is_space_def)

lemma digits_stop:
  assumes "list_all is_digit ds" "ds \<noteq> []" "rest = [] \<or> \<not> is_digit (hd rest)"
  shows "dropWhile is_space (ds @ rest) = ds @ rest" "hd (ds @ rest) \<noteq> CHR ''-''" "hd (ds @ rest) \<noteq> CHR ''+''"
    "takeWhile is_digit (ds @ rest) = ds"
proof -
  from assms(1,2) obtain c cs where c: "ds = c # cs" "is_digit c" by (cases ds) auto
  with not_space_digit [OF c(2)] show "dropWhile is_space (ds @ rest) = ds @ rest"
    "hd (ds @ rest) \<noteq> CHR ''-''" "hd (ds @ rest) \<noteq> CHR ''+''"
    by simp_all
  have "takeWhile is_digit rest = []" using assms(3) by (cases rest) auto
  then show "takeWhile is_digit (ds @ rest) = ds"
    using assms(1) by (simp add: takeWhile_append list_all_iff)
qed

lemma stoi_to_string:
  assumes "n < 2 ^ 31"
  shows "stoi (to_string n) = Inr (int n)"
  using digits_stop [OF to_string_is_digit to_string_nonempty, of "[]" n] assms
  by (simp add: stoi_def Let_def dec_num_to_string del: takeWhile_eq_all_conv)

section \<open>The round trip of a response\<close>

definition plain_header :: "string \<times> string \<Rightarrow> bool" where
  "plain_header h \<longleftrightarrow>
     CHR '':'' \<notin> set (fst h) \<and> CR \<notin> set (fst h) \<and> LF \<notin> set (fst h) \<and> trim (fst h) = fst h \<and>
     CR \<notin> set (snd h) \<and> LF \<notin> set (snd h) \<and> trim (snd h) = snd h"

definition header_line :: "string \<times> string \<Rightarrow> string" where
  "header_line h = fst h @ '': '' @ snd h"

lemma add_header_line_plain:
  assumes "plain_header (k, v)"
  shows "add_header_line r (header_line (k, v) @ [CR]) = setHeader k v r"
    "add_header_line r (header_line (k, v)) = setHeader k v r"
proof -
  have f: "find_char CHR '':'' (k @ CHR '':'' # t) 0 = Some (length k)" for t
    using assms by (simp add: find_char_append plain_header_def)
  have t: "trim k = k" "trim v = v" using assms by (simp_all add: plain_header_def)
  have "trim ('' '' @ v @ [CR]) = v" "trim ('' '' @ v @ []) = v"
    using trim_blank_around [of "'' ''" "[CR]" v] trim_blank_around [of "'' ''" "[]" v] t(2)
    by (simp_all add: trim_chars_def)
  with f t show "add_header_line r (header_line (k, v) @ [CR]) = setHeader k v r"
    "add_header_line r (header_line (k, v)) = setHeader k v r"
    by (simp_all add: add_header_line_def header_line_def)
qed

lemma split_crlf_lines:
  assumes "\<forall>l \<in> set (ls @ [m]). LF \<notin> set l"
  shows "split_on LF (crlf_lines ls @ m) = map (\<lambda>l. l @ [CR]) ls @ [m]"
  using assms
proof (induction ls)
  case Nil
  then show ?case by (simp add: split_on_absent)
next
  case (Cons l ls)
  have "LF \<notin> set (l @ [CR])" using Cons.prems by simp
  from split_on_append [OF this, of "crlf_lines ls @ m"] Cons show ?case by simp
qed

text \<open>The header section the parser cuts out ends without the last line break.\<close>

lemma header_section:
  assumes "ls \<noteq> []" "\<forall>l \<in> set ls. plain_line l"
  shows "header_lines (take (length (crlf_lines ls) - 2) (crlf_lines ls @ rest)) =
    map (\<lambda>l. l @ [CR]) (butlast ls) @ [last ls]"
proof -
  have "crlf_lines ls = crlf_lines (butlast ls) @ last ls @ crlf"
    using assms(1) by (metis append_butlast_last_id crlf_lines_simps(1,2,3) append_Nil2)
  then have t: "take (length (crlf_lines ls) - 2) (crlf_lines ls @ rest) = crlf_lines (butlast ls) @ last ls"
    by simp
  have "\<forall>l \<in> set (butlast ls @ [last ls]). LF \<notin> set l"
    using assms by (auto simp: plain_line_def dest: in_set_butlastD)
  note s = split_crlf_lines [OF this]
  have "last ls \<noteq> []" using assms by (auto simp: plain_line_def)
  then show ?thesis
    unfolding t header_lines_def s by (subst takeWhile_append2) auto
qed

lemma foldl_header_lines:
  assumes "\<forall>h \<in> set hs. plain_header h" "CHR '':'' \<notin> set l"
  shows "foldl add_header_line r (map (\<lambda>l. l @ [CR]) (butlast (l # map header_line hs)) @ [last (l # map header_line hs)]) =
    fold (\<lambda>(k, v). setHeader k v) hs r"
proof -
  have skip: "add_header_line r (l @ [CR]) = r" "add_header_line r l = r" for r
    using assms(2) find_char_None [of "CHR '':''" "l @ [CR]" 0] find_char_None [of "CHR '':''" l 0]
    by (simp_all add: add_header_line_def)
  have "foldl add_header_line r (map (\<lambda>l. l @ [CR]) (map header_line ks)) = fold (\<lambda>(k, v). setHeader k v) ks r"
    if "\<forall>h \<in> set ks. plain_header h" for ks r
    using that by (induction ks arbitrary: r) (auto simp: add_header_line_plain)
  note f = this
  show ?thesis
  proof (cases hs rule: rev_cases)
    case Nil
    then show ?thesis using skip by simp
  next
    case (snoc ks h)
    with assms(1) f [of ks r] skip add_header_line_plain(2) [of "fst h" "snd h"] show ?thesis
      by (simp add: butlast_append case_prod_unfold)
  qed
qed

lemma plain_header_line: "plain_header h \<Longrightarrow> plain_line (header_line h)"
  by (auto simp: plain_header_def plain_line_def header_line_def)

lemma parseResponse_message:
  assumes "plain_line l" "CHR '':'' \<notin> set l" "\<forall>h \<in> set hs. plain_header h"
    and "raw = crlf_lines (l # map header_line hs) @ crlf @ body" "parseStatus raw = Inr status"
    and "r = fold (\<lambda>(k, v). setHeader k v) hs (Response_default g fd)"
    and "map_of (res_headers r) ''Transfer-Encoding'' \<noteq> Some ''chunked''"
  shows "parseResponse g fd raw = Ret (Expected (put_content body (put_status status r)))"
proof -
  let ?ls = "l # map header_line hs"
  have ls: "?ls \<noteq> []" "\<forall>l \<in> set ?ls. plain_line l"
    using assms(1,3) plain_header_line by auto
  have e: "find_str (crlf @ crlf) raw 0 = Some (length (crlf_lines ?ls) - 2)"
    using find_blank_line [OF ls, of body] by (simp add: find_str_def assms(4))
  have "sub raw 0 n = take n raw" for n by (simp add: sub_def)
  then have h: "foldl add_header_line (Response_default g fd)
      (header_lines (sub raw 0 (length (crlf_lines ?ls) - 2))) = r"
    unfolding assms(4,6)
    by (simp only: header_section [OF ls] foldl_header_lines [OF assms(3,2)])
  have "length (crlf_lines ?ls) - 2 + 4 = length (crlf_lines ?ls @ crlf)" by simp
  moreover have "drop (length (xs @ crlf)) (xs @ crlf @ body) = body" for xs by simp
  ultimately have b: "drop (length (crlf_lines ?ls) - 2 + 4) raw = body"
    unfolding assms(4) by (simp only:)
  show ?thesis
    unfolding parseResponse_def Let_def e option.case assms(5) of_result.simps and_then.simps h b
    using assms(7) by (simp only: if_False)
qed

lemma parseStatus_line:
  assumes "find_str ''HTTP/1.1 '' (''HTTP/1.0 '' @ ds @ '' '' @ rest) 0 = None" "CHR '' '' \<notin> set ds"
  shows "parseStatus (''HTTP/1.0 '' @ ds @ '' '' @ rest) = map_sum id status_of (stoi ds)"
proof -
  let ?raw = "''HTTP/1.0 '' @ ds @ '' '' @ rest"
  have a: "find_str ''HTTP/1.0 '' ?raw 0 = Some 0"
    by (simp add: find_str_def)
  have b: "find_char CHR '' '' ?raw (0 + 9) = Some (9 + length ds)"
    using find_char_at [OF assms(2), of 9 "''HTTP/1.0 ''" rest] by simp
  have c: "sub ?raw (0 + 9) (9 + length ds - (0 + 9)) = ds"
    using sub_middle [of 9 "''HTTP/1.0 ''" "length ds" ds "'' '' @ rest"] by simp
  show ?thesis
    unfolding parseStatus_def Let_def assms(1) a b c option.case by (rule refl)
qed

text \<open>The status a client sees: what has no line of its own is sent as 500.\<close>

definition wire_status :: "Status \<Rightarrow> Status" where
  "wire_status s =
     (if statusToString s = statusToString S_internal_server_error then S_internal_server_error else s)"

lemma code_strings:
  "to_string 200 = ''200''" "to_string 201 = ''201''" "to_string 202 = ''202''" "to_string 204 = ''204''"
  "to_string 300 = ''300''" "to_string 301 = ''301''" "to_string 302 = ''302''" "to_string 304 = ''304''"
  "to_string 400 = ''400''" "to_string 401 = ''401''" "to_string 403 = ''403''" "to_string 404 = ''404''"
  "to_string 500 = ''500''" "to_string 501 = ''501''" "to_string 502 = ''502''" "to_string 503 = ''503''"
  by code_simp+

lemma statusToString_parts:
  "\<exists>reason. statusToString s = line_of (to_string (status_code (wire_status s)) @ '' '' @ reason) \<and>
     CR \<notin> set reason \<and> LF \<notin> set reason \<and> CHR '':'' \<notin> set reason \<and>
     status_of (int (status_code (wire_status s))) = wire_status s \<and> status_code (wire_status s) < 2 ^ 31"
  by (cases s) (simp_all add: line_of_def wire_status_def code_strings status_of_def)

lemma header_line_fun: "header_line = (\<lambda>h. fst h @ '': '' @ snd h)"
  by (rule ext) (simp add: header_line_def)

lemma to_string_no: "c \<in> {CHR '' '', CHR '':'', CR, LF} \<Longrightarrow> c \<notin> set (to_string n)"
  using to_string_digits [of c n] by auto

lemma parse_built_response:
  assumes "res_content r \<noteq> []" "load_content fs r = r" "map_ok (res_headers r)"
    and "build fs False r = (Some text, r1)" "\<forall>h \<in> set (res_headers r1). plain_header h"
    and "map_of (res_headers r1) ''Transfer-Encoding'' \<noteq> Some ''chunked''"
    and "find_str ''HTTP/1.1 '' text 0 = None"
  shows "\<exists>r'. parseResponse g fd text = Ret (Expected r') \<and> res_content r' = res_content r \<and>
    res_status r' = wire_status (res_status r) \<and>
    (\<forall>k. map_of (res_headers r') k =
       (case map_of (res_headers r1) k of
          Some v \<Rightarrow> Some v | None \<Rightarrow> if k = ''Connection'' then Some ''keep-alive'' else None))"
proof -
  let ?code = "to_string (status_code (wire_status (res_status r)))"
  obtain reason where st: "statusToString (res_status r) = line_of (?code @ '' '' @ reason)"
    "CR \<notin> set reason" "LF \<notin> set reason" "CHR '':'' \<notin> set reason"
    "status_of (int (status_code (wire_status (res_status r)))) = wire_status (res_status r)"
    "status_code (wire_status (res_status r)) < 2 ^ 31"
    using statusToString_parts [of "res_status r"] by blast
  let ?l = "''HTTP/1.0 '' @ ?code @ '' '' @ reason"
  let ?hs = "res_headers r1"
  have b: "text = crlf_lines (?l # map header_line ?hs) @ crlf @ res_content r" "r1 = built fs False r"
    using assms(4) build_eq [OF assms(1), of fs False] st(1) assms(2)
    by (auto simp: line_of_def header_line_fun)
  have l: "plain_line ?l" "CHR '':'' \<notin> set ?l"
    using st(2-4) to_string_no by (auto simp: plain_line_def)
  have ps: "parseStatus text = Inr (wire_status (res_status r))"
    using parseStatus_line [of ?code "reason @ crlf @ crlf_lines (map header_line ?hs) @ crlf @ res_content r"]
      assms(7) stoi_to_string [OF st(6)] st(5) to_string_no [of "CHR '' ''"]
    by (simp add: b(1))
  let ?d = "Response_default g fd"
  let ?r = "fold (\<lambda>(k, v). setHeader k v) ?hs ?d"
  have d: "map_ok (res_headers ?d)" "res_headers ?d = [(''Connection'', ''keep-alive'')]" "res_content ?d = []"
    by (simp_all add: Response_default_def setHeader_def blank_response_def map_ok_def)
  have ok1: "map_ok ?hs" using built_headers(1) [OF assms(3)] b(2) by simp
  have rev: "map_of (rev ?hs) = map_of ?hs"
    using map_ok_distinct [OF ok1] map_of_inject_set [of "rev ?hs" ?hs] by (simp add: rev_map [symmetric])
  note look = response_headers.lookup_fold [OF d(1), of ?hs, unfolded rev d(2)]
  have te: "map_of (res_headers ?r) ''Transfer-Encoding'' \<noteq> Some ''chunked''"
    unfolding look using assms(6) by (auto split: option.split)
  have "parseResponse g fd text = Ret (Expected (put_content (res_content r) (put_status (wire_status (res_status r)) ?r)))"
    by (rule parseResponse_message [OF l assms(5) b(1) ps refl te])
  moreover have "res_content ?r = []"
    using fold_setHeader_frame [of ?hs ?d] d(3) by simp
  ultimately show ?thesis
    by (intro exI [of _ "put_content (res_content r) (put_status (wire_status (res_status r)) ?r)"])
      (auto simp: put_content_def put_status_def look split: option.split)
qed

text \<open>
  Server and client agree on a response: what \<open>build\<close> writes, \<open>parseResponse\<close> reads back with
  the same content, the same headers and the status that was sent (500 for every status
  without a line of its own), as long as the headers are plain lines, no chunked transfer is announced
  and the text does not contain the marker of another HTTP version.
\<close>

lemma client_reads_built_response:
  assumes "res_content r \<noteq> []" "load_content fs r = r" "map_ok (res_headers r)"
    and "build fs False r = (Some text, r1)" "\<forall>h \<in> set (res_headers r1). plain_header h"
    and "map_of (res_headers r1) ''Transfer-Encoding'' \<noteq> Some ''chunked''"
    and "find_str ''HTTP/1.1 '' text 0 = None"
  shows "\<exists>r'. parseResponse g fd text = Ret (Expected r') \<and> res_content r' = res_content r \<and>
    res_status r' = wire_status (res_status r) \<and>
    (\<forall>k. map_of (res_headers r') k =
       (case map_of (res_headers r1) k of
          Some v \<Rightarrow> Some v | None \<Rightarrow> if k = ''Connection'' then Some ''keep-alive'' else None))"
  by (rule parse_built_response [OF assms])

section \<open>Where the client goes wrong\<close>

text \<open>
  The status is looked for in the whole response, and \<open>HTTP/1.1\<close> before \<open>HTTP/1.0\<close>: when
  a server that answers with \<open>HTTP/1.0\<close>, as this library's does, sends that marker in a header or the
  body, the word after it decides the status, and throws when it is no number.
\<close>

lemma body_text_decides_status:
  assumes "find_str ''HTTP/1.1 '' (sent @ ''HTTP/1.1 '' @ ds @ '' '' @ rest) 0 = Some (length sent)"
    and "CHR '' '' \<notin> set ds"
  shows "parseStatus (sent @ ''HTTP/1.1 '' @ ds @ '' '' @ rest) = map_sum id status_of (stoi ds)"
proof -
  let ?raw = "sent @ ''HTTP/1.1 '' @ ds @ '' '' @ rest"
  have b: "find_char CHR '' '' ?raw (length sent + 9) = Some (length sent + 9 + length ds)"
    using find_char_at [OF assms(2), of "length sent + 9" "sent @ ''HTTP/1.1 ''" rest] by simp
  have c: "sub ?raw (length sent + 9) (length sent + 9 + length ds - (length sent + 9)) = ds"
    using sub_middle [of "length sent + 9" "sent @ ''HTTP/1.1 ''" "length ds" ds "'' '' @ rest"] by simp
  show ?thesis
    unfolding parseStatus_def Let_def assms(1) b c option.case by (rule refl)
qed

text \<open>
  \<open>post\<close> and \<open>put\<close> do not send their body: two bodies give the same call, and what reaches
  the socket is a prefix of the request line with the host and connection headers, nothing more.
\<close>

lemma sent_to_closeSocket [simp]: "sent_to fd (closeSocket_client sock w) = sent_to fd w"
  by (simp add: closeSocket_client_def sent_to_def sys_close_def)

lemma readResponse_closes:
  "readResponse sock rs response w = Ret (r, w') \<Longrightarrow> w' = closeSocket_client sock w"
  by (induction sock rs response w rule: readResponse.induct) (auto split: if_splits)

lemma http_sendRequest_sent:
  assumes "http_sendRequest c ex method path w = Ret (r, w')"
  shows "\<exists>n. sent_to (ex_socket ex) w' = sent_to (ex_socket ex) w @ take n (request_text c method path)"
proof -
  have none: "\<exists>n. s = s @ take n t" for s t :: string by (rule exI [of _ 0]) simp
  show ?thesis
    using assms none
    by (auto simp: http_sendRequest_def Let_def dest!: readResponse_closes split: if_splits)
      (auto simp: sent_to_def)
qed

lemma request_body_never_sent:
  "client_post sr c g fd path body = client_post sr c g fd path body' \<and>
   client_put sr c g fd path body = client_put sr c g fd path body' \<and>
   (http_sendRequest c ex method path w = Ret (r, w') \<longrightarrow>
      (\<exists>n. sent_to (ex_socket ex) w' = sent_to (ex_socket ex) w @ take n (request_text c method path)))"
  using http_sendRequest_sent by (auto simp: client_post_def client_put_def)

text \<open>
  The client takes the first read that does not fill its buffer for the end: interrupted
  calls are retried, full blocks are collected, and everything that arrives after one short read is
  never looked at.
\<close>

lemma response_ends_at_short_read:
  "filter (\<lambda>r. r \<noteq> Recv_failed EINTR) rs = map Received blocks @ Received s # later \<Longrightarrow>
   \<forall>b \<in> set blocks. READ_BUFFER_SIZE \<le> length b \<Longrightarrow> length s < READ_BUFFER_SIZE \<Longrightarrow>
   readResponse sock rs res w = Ret (Expected (res @ concat blocks @ s), closeSocket_client sock w)"
proof (induction sock rs res w arbitrary: blocks rule: readResponse.induct)
  case (2 sock e rs res w)
  show ?case
  proof (cases "e = EINTR")
    case True
    with 2 show ?thesis by simp
  next
    case False
    with 2(2) show ?thesis by (cases blocks) auto
  qed
next
  case (4 sock x rs res w)
  show ?case
  proof (cases blocks)
    case Nil
    then show ?thesis using 4 by simp
  next
    case (Cons b bs)
    with 4 have "x = b" "\<not> length x < READ_BUFFER_SIZE" by auto
    with 4 Cons show ?thesis by auto
  qed
qed (auto simp: append_eq_Cons_conv Cons_eq_append_conv)

section \<open>One request over the plain-text transport\<close>

text \<open>Every way out of \<open>sendRequest\<close> closes the socket it made and no other.\<close>

lemma http_sendRequest_closes:
  assumes "http_sendRequest c ex method path w = Ret (r, w')" "ex_socket ex \<notin> w_open w"
  shows "w_open w' = w_open w"
  using assms
  by (auto simp: http_sendRequest_def Let_def closeSocket_client_def sys_close_def dest!: readResponse_closes split: if_splits)

text \<open>
  A GET to this library's server, from call to result: the request text goes out whole, the
  response arrives in full blocks and a last short one, interrupted calls in between, and the
  caller gets the content, the status and the headers the server's handler set; the socket is
  closed and no other descriptor touched.
\<close>

lemma client_get_exchange:
  assumes "res_content r \<noteq> []" "load_content fs r = r" "map_ok (res_headers r)"
    and "build fs False r = (Some wire, r1)" "\<forall>h \<in> set (res_headers r1). plain_header h"
    and "map_of (res_headers r1) ''Transfer-Encoding'' \<noteq> Some ''chunked''" "find_str ''HTTP/1.1 '' wire 0 = None"
    and "0 \<le> ex_socket ex" "ex_host_found ex" "ex_options_set ex" "ex_connected ex" "ex_socket ex \<notin> w_open w"
    and "int (length (request_text c ''GET'' path)) \<le> ex_sent ex"
    and "filter (\<lambda>r. r \<noteq> Recv_failed EINTR) (ex_recv ex) = map Received blocks @ [Received s]"
    and "\<forall>b \<in> set blocks. length b = READ_BUFFER_SIZE" "length s < READ_BUFFER_SIZE" "wire = concat blocks @ s"
  shows "\<exists>r' w'. client_get (http_sendRequest c ex) g fd path w = Ret (Expected r', w') \<and>
    res_content r' = res_content r \<and> res_status r' = wire_status (res_status r) \<and>
    (\<forall>k v. map_of (res_headers r1) k = Some v \<longrightarrow> map_of (res_headers r') k = Some v) \<and>
    w_open w' = w_open w \<and>
    sent_to (ex_socket ex) w' = sent_to (ex_socket ex) w @ request_text c ''GET'' path"
proof -
  let ?sock = "ex_socket ex"
  let ?w = "(w\<lparr>w_open := insert ?sock (w_open w)\<rparr>)\<lparr>w_out := w_out w @ [(?sock, request_text c ''GET'' path)]\<rparr>"
  obtain r' where r': "parseResponse g fd wire = Ret (Expected r')" "res_content r' = res_content r"
    "res_status r' = wire_status (res_status r)"
    "\<forall>k v. map_of (res_headers r1) k = Some v \<longrightarrow> map_of (res_headers r') k = Some v"
    using parse_built_response [OF assms(1-7), of g fd] by fastforce
  have "readResponse ?sock (ex_recv ex) [] ?w = Ret (Expected wire, closeSocket_client ?sock ?w)"
    using response_ends_at_short_read [OF assms(14) _ assms(16), of ?sock "[]" ?w] assms(15,17) by simp
  then have send: "http_sendRequest c ex ''GET'' path w = Ret (Expected wire, closeSocket_client ?sock ?w)"
    using assms(8-11,13) by (simp add: http_sendRequest_def Let_def)
  have "sent_to ?sock ?w = sent_to ?sock w @ request_text c ''GET'' path"
    by (simp add: sent_to_def)
  with send r' http_sendRequest_closes [OF send assms(12)] show ?thesis
    by (simp add: client_get_def request_and_parse_def)
qed

lemma parsePort_to_string: "n < 2 ^ 31 \<Longrightarrow> parsePort (to_string n) = Some (int n)"
  using digits_stop(2) [OF to_string_is_digit to_string_nonempty, of "[]" n] to_string_is_digit [of n]
  by (simp add: parsePort_def Let_def dec_num_to_string)

lemma find_first_of_append:
  "\<forall>c \<in> set xs. c \<notin> set cs \<Longrightarrow> c \<in> set cs \<Longrightarrow> find_first_of cs (xs @ c # ys) = Some (length xs)"
  by (auto simp: find_first_of_def intro!: index_of_append)

lemma scheme_found:
  assumes "CHR '':'' \<notin> set proto"
  shows "find_str ''://'' (proto @ ''://'' @ t) 0 = Some (length proto)"
  using find_str_append [OF assms, of 0 "[]" "''//''" t] by simp

lemma client_url:
  assumes "CHR '':'' \<notin> set proto" "CHR '':'' \<notin> set host" "CHR ''/'' \<notin> set host"
    and "n < 2 ^ 31" "path = [] \<or> hd path = CHR ''/''" "length proto < 2 ^ 32"
  shows "createClient (proto @ ''://'' @ host @ '':'' @ to_string n @ path) =
    Inr (Expected \<lparr>cl_host = host, cl_port = int n, cl_keep_alive = True\<rparr>)"
proof -
  let ?rem = "host @ CHR '':'' # to_string n @ path"
  have p: "add_sz (pos_of (Some (length proto))) 3 = length proto + 3"
    using assms(6) by (simp add: add_sz_small size_mod_def)
  have r: "substr (proto @ ''://'' @ ?rem) (length proto + 3) k = Inr ?rem"
    if "length ?rem \<le> k" for k
    using that by (simp add: substr_def sub_def)
  have h: "find_first_of [CHR '':'', CHR ''/''] ?rem = Some (length host)"
    using assms(2,3) by (intro find_first_of_append) auto
  have slash: "CHR ''/'' \<notin> set (to_string n)"
    using to_string_digits [of "CHR ''/''" n] by auto
  have port: "(case find_char CHR ''/'' ?rem (length host + 1) of
       None \<Rightarrow> drop (length host + 1) ?rem
     | Some e \<Rightarrow> sub ?rem (length host + 1) (e - (length host + 1))) = to_string n"
  proof (cases path)
    case Nil
    with slash have "find_char CHR ''/'' ?rem (length host + 1) = None"
      by (simp add: find_char_None)
    with Nil show ?thesis by simp
  next
    case (Cons c cs)
    with assms(5) have c: "path = CHR ''/'' # cs" by simp
    have "find_char CHR ''/'' ?rem (length host + 1) = Some (length host + 1 + length (to_string n))"
      using find_char_at [OF slash, of "length host + 1" "host @ '':''" cs] c by simp
    then show ?thesis
      using sub_middle [of "length host + 1" "host @ '':''" "length (to_string n)" "to_string n" path] by simp
  qed
  have "client_for pr ?rem = \<lparr>cl_host = host, cl_port = int n, cl_keep_alive = True\<rparr>" for pr
    using h port parsePort_to_string [OF assms(4)] by (simp add: client_for_def)
  with p r scheme_found [OF assms(1), of ?rem] show ?thesis
    by (simp add: createClient_def)
qed

text \<open>
  C34. A URL with scheme, host and port is taken apart into exactly that host and port, with
  any path behind, for every scheme alike: an \<open>https\<close> URL yields the plain-text client too.
\<close>

theorem createClient_url:
  assumes "CHR '':'' \<notin> set proto" "CHR '':'' \<notin> set host" "CHR ''/'' \<notin> set host"
    and "n < 2 ^ 31" "path = [] \<or> hd path = CHR ''/''" "length proto < 2 ^ 32"
  shows "createClient (proto @ ''://'' @ host @ '':'' @ to_string n @ path) =
    Inr (Expected \<lparr>cl_host = host, cl_port = int n, cl_keep_alive = True\<rparr>)"
  by (rule client_url [OF assms])

lemma client_for_sub: "client_for pr (sub s pos (length s)) = client_for pr (drop pos s)"
  by (simp add: sub_def)

text \<open>
  A URL without a scheme loses its first two bytes, because \<open>npos + 3\<close> wraps to 2, and
  throws \<open>out_of_range\<close> when it has fewer.
\<close>

lemma url_without_scheme:
  assumes "find_str ''://'' url 0 = None"
  shows "createClient url =
    (if length url < 2 then Inl Out_of_range else createClient (''http://'' @ drop 2 url))"
proof -
  have w: "add_sz npos 3 = 2" by (simp add: add_sz_def npos_def size_mod_def)
  have s: "add_sz 4 3 = 7" by (simp add: add_sz_small size_mod_def)
  have "createClient url = (if length url < 2 then Inl Out_of_range else Inr (Expected (client_for HTTP (drop 2 url))))"
    using assms w by (simp add: createClient_def pos_of_def substr_def client_for_sub)
  moreover have f: "find_str ''://'' (''http://'' @ drop 2 url) 0 = Some 4"
    using scheme_found [of "''http''" "drop 2 url"] by simp
  have a: "substr (''http://'' @ drop 2 url) 7 k = Inr (take k (drop 2 url))" for k
    by (simp add: substr_def sub_def)
  have "sub (''http://'' @ drop 2 url) 0 4 = ''http''" by (simp add: sub_def)
  then have "createClient (''http://'' @ drop 2 url) = Inr (Expected (client_for HTTP (drop 2 url)))"
    unfolding createClient_def Let_def f pos_of_def option.case s a sum.case by simp
  ultimately show ?thesis by simp
qed

section \<open>Samples\<close>

theorem chunked_roundtrip_witness:
  "parseChunkedBody (encode_chunks [''hello'', '' world'']) = Some (Expected ''hello world'')"
proof -
  have "fromIntToHex 5 = ''5''" "fromIntToHex 6 = ''6''"
    by (simp_all add: fromIntToHex_def fromIntToHex_loop.simps charset_def)
  then have "length (encode_chunks [''hello'', '' world'']) < size_mod"
    by (simp add: encode_chunks_def enc_chunk_def last_chunk_def size_mod_def)
  from chunked_roundtrip [OF _ this] show ?thesis by simp
qed

text \<open>A chunk whose data looks like a size line that wraps, then the last chunk.\<close>

definition trap_body :: string where
  "trap_body = ''12'' @ crlf @ ''ffffffffffffffff'' @ crlf @ crlf @ ''0'' @ crlf @ crlf"

lemma trap_lines:
  "length trap_body = 29"
  "size_line trap_body 0 e n \<longleftrightarrow> e = 2 \<and> n = 18" "size_line trap_body 24 e n \<longleftrightarrow> e = 25 \<and> n = 0"
proof -
  let ?pre = "''12'' @ crlf @ ''ffffffffffffffff'' @ crlf @ crlf"
  let ?tail = "''ffffffffffffffff'' @ crlf @ crlf @ ''0'' @ crlf @ crlf"
  have h: "all_hex ''12''" "hex_num ''12'' 0 = 18" "all_hex ''0''" "hex_num ''0'' 0 = 0"
    by (simp_all add: all_hex_def hex_value_def)
  show len: "length trap_body = 29" by (simp add: trap_body_def)
  have f: "find_str crlf trap_body 0 = Some 2" "find_str crlf trap_body 24 = Some 25"
    using find_str_append [OF all_hex_no_CR [OF h(1)], of 0 "[]" "[LF]" ?tail]
      find_str_append [OF all_hex_no_CR [OF h(3)], of 24 ?pre "[LF]" crlf]
    by (simp_all add: trap_body_def)
  have "sub trap_body 0 2 = ''12''" "sub trap_body 24 1 = ''0''" by (simp_all add: trap_body_def sub_def)
  then have s: "parseHexSize (sub trap_body 0 2) = (True, of_nat 18)" "parseHexSize (sub trap_body 24 1) = (True, of_nat 0)"
    by (simp_all only: parseHexSize_hex [OF h(1)] parseHexSize_hex [OF h(3)] h(2,4))
  show "size_line trap_body 0 e n \<longleftrightarrow> e = 2 \<and> n = 18" "size_line trap_body 24 e n \<longleftrightarrow> e = 25 \<and> n = 0"
    using s by (auto simp: size_line_def f len)
qed

theorem chunked_body_returns_witness: "reaches trap_body 24 \<and> (\<exists>r. parseChunkedBody trap_body = Some r)"
proof
  have r: "reaches trap_body pos \<Longrightarrow> pos = 0 \<or> pos = 24" for pos
    by (induction rule: reaches.induct) (auto simp: trap_lines)
  show "\<exists>r. parseChunkedBody trap_body = Some r"
  proof (rule chunked_body_returns)
    fix pos line_end n assume "reaches trap_body pos" "size_line trap_body pos line_end n"
    with r [of pos] show "line_end + 2 + n < size_mod" by (auto simp: trap_lines size_mod_def)
  qed (simp add: trap_lines size_mod_def)
  show "reaches trap_body 24"
    using next_line [OF first_line, of trap_body 2 18] by (simp add: trap_lines)
qed

text \<open>A response of the server, as it is built.\<close>

definition created_hello :: Response where
  "created_hello = setContent PLAIN_TEXT S_created ''hello'' (Response_default None 0)"

definition created_wire :: string where
  "created_wire = line_of ''201 Created'' @ ''Connection: keep-alive'' @ crlf @ ''Content-Length: 5'' @ crlf @
      ''Content-Type: text/plain; charset=utf-8'' @ crlf @ crlf @ ''hello''"

lemma created_hello_built:
  shows "\<exists>r1. build (\<lambda>_. None) False created_hello = (Some created_wire, r1) \<and>
      res_headers r1 = [(''Connection'', ''keep-alive''), (''Content-Length'', ''5''),
        (''Content-Type'', ''text/plain; charset=utf-8'')]"
    and "load_content (\<lambda>_. None) created_hello = created_hello" "map_ok (res_headers created_hello)"
    and "res_content created_hello = ''hello''" "res_status created_hello = S_created"
    and "find_str ''HTTP/1.1 '' created_wire 0 = None"
proof -
  have five: "to_string (Suc (Suc (Suc (Suc (Suc 0))))) = ''5''" by code_simp
  obtain msg r1 where b: "build (\<lambda>_. None) False created_hello = (Some msg, r1)"
    by (simp add: build_def created_hello_def setContent_def Let_def)
  note defs = build_def created_hello_def Let_def setContent_def load_content_def add_type_headers_def
      add_length_header_def setHeader_def Response_default_def blank_response_def five
  have "res_headers r1 = [(''Connection'', ''keep-alive''), (''Content-Length'', ''5''),
      (''Content-Type'', ''text/plain; charset=utf-8'')]"
    using b by (auto simp: defs)
  moreover have "msg = created_wire"
    using b by (auto simp: defs header_text_def created_wire_def)
  ultimately show "\<exists>r1. build (\<lambda>_. None) False created_hello = (Some created_wire, r1) \<and>
      res_headers r1 = [(''Connection'', ''keep-alive''), (''Content-Length'', ''5''),
        (''Content-Type'', ''text/plain; charset=utf-8'')]"
    using b by simp
  show "load_content (\<lambda>_. None) created_hello = created_hello" "map_ok (res_headers created_hello)"
    "res_content created_hello = ''hello''" "res_status created_hello = S_created"
    by (simp_all add: created_hello_def load_content_def setContent_def map_ok_def Response_default_def setHeader_def
        blank_response_def)
  show "find_str ''HTTP/1.1 '' created_wire 0 = None"
    by (simp add: created_wire_def line_of_def find_str_def)
qed

lemma client_reads_built_response_witness:
  "\<exists>r'. parseResponse None 0 created_wire = Ret (Expected r') \<and> res_content r' = ''hello'' \<and> res_status r' = S_created"
proof -
  obtain r1 where b: "build (\<lambda>_. None) False created_hello = (Some created_wire, r1)"
    "res_headers r1 = [(''Connection'', ''keep-alive''), (''Content-Length'', ''5''),
      (''Content-Type'', ''text/plain; charset=utf-8'')]"
    using created_hello_built(1) by blast
  from client_reads_built_response [OF _ created_hello_built(2,3) b(1) _ _ created_hello_built(6), of None 0] b(2)
  show ?thesis
    by (auto simp: plain_header_def trim_id trim_chars_def wire_status_def line_of_def created_hello_built(4,5))
qed

definition quiet_world :: world where
  "quiet_world = \<lparr>w_open = {}, w_closed = [], w_out = [], w_sends = [],
     w_socks = (\<lambda>_. \<lparr>rq_pending = [], rq_end = At_eof\<rparr>), w_backlog = [], w_files = Map.empty, w_tls = tls_start\<rparr>"

definition good_exchange :: exchange where
  "good_exchange = \<lparr>ex_socket = 5, ex_host_found = True, ex_options_set = True, ex_connected = True, ex_sent = 1000,
     ex_recv = [Recv_failed EINTR, Received created_wire]\<rparr>"

lemma client_get_exchange_witness:
  "\<exists>r' w'. client_get (http_sendRequest \<lparr>cl_host = ''h'', cl_port = 80, cl_keep_alive = True\<rparr> good_exchange) None 0 ''/'' quiet_world =
     Ret (Expected r', w') \<and> res_content r' = ''hello'' \<and> res_status r' = S_created \<and> w_open w' = {}"
proof -
  obtain r1 where b: "build (\<lambda>_. None) False created_hello = (Some created_wire, r1)"
    "res_headers r1 = [(''Connection'', ''keep-alive''), (''Content-Length'', ''5''),
      (''Content-Type'', ''text/plain; charset=utf-8'')]"
    using created_hello_built(1) by blast
  have len: "length created_wire < READ_BUFFER_SIZE"
    by (simp add: created_wire_def line_of_def READ_BUFFER_SIZE_def)
  have req: "int (length (request_text \<lparr>cl_host = ''h'', cl_port = 80, cl_keep_alive = True\<rparr> ''GET'' ''/'')) \<le> ex_sent good_exchange"
    by (simp add: request_text_def connection_value_def good_exchange_def)
  from client_get_exchange [OF _ created_hello_built(2,3) b(1) _ _ created_hello_built(6) _ _ _ _ _ req, of quiet_world "[]" created_wire None 0]
  show ?thesis using b(2) len
    by (auto simp: plain_header_def trim_id trim_chars_def wire_status_def line_of_def created_hello_built(4,5)
        good_exchange_def quiet_world_def)
qed

lemma body_text_decides_status_witness:
  "parseStatus (''HTTP/1.0 200 OK'' @ crlf @ crlf @ ''HTTP/1.1 '' @ ''is'' @ '' '' @ ''a protocol'') = Inl Invalid_argument"
proof -
  have "stoi ''is'' = Inl Invalid_argument"
    by (simp add: stoi_def is_space_def is_digit_def Let_def)
  moreover have "find_str ''HTTP/1.1 '' ((''HTTP/1.0 200 OK'' @ crlf @ crlf) @ ''HTTP/1.1 '' @ ''is'' @ '' '' @ ''a protocol'') 0 =
      Some (length (''HTTP/1.0 200 OK'' @ crlf @ crlf))"
    by (simp add: find_str_def)
  ultimately show ?thesis
    using body_text_decides_status [of "''HTTP/1.0 200 OK'' @ crlf @ crlf" "''is''" "''a protocol''"] by simp
qed

lemma response_ends_at_short_read_witness:
  "readResponse (- 1) [Recv_failed EINTR, Received ''ab'', Received ''cd''] [] w = Ret (Expected ''ab'', w)"
  using response_ends_at_short_read [of "[Recv_failed EINTR, Received ''ab'', Received ''cd'']" "[]" "''ab''"
      "[Received ''cd'']" "- 1" "[]" w]
  by (simp add: READ_BUFFER_SIZE_def closeSocket_client_def)

theorem createClient_url_witness:
  "createClient ''https://example.org:8443/a'' =
     Inr (Expected \<lparr>cl_host = ''example.org'', cl_port = 8443, cl_keep_alive = True\<rparr>)"
proof -
  have "to_string 8443 = ''8443''" by (simp add: to_string.simps) code_simp
  then show ?thesis
    using createClient_url [of "''https''" "''example.org''" 8443 "''/a''"] by simp
qed

lemma url_without_scheme_witness:
  "createClient ''localhost:80'' = createClient ''http://calhost:80''"
  using url_without_scheme [of "''localhost:80''"] by (simp add: find_str_def)

end
