(* ===== verification/WebSocket_Client.thy ===== *)
theory WebSocket_Client
  imports WebSocket Wire_Text Utils_Codec Os_World
begin

text \<open>
  \<open>src/src/websocketclient.h\<close>: a blocking WebSocket client. The operations take what the
  system calls return as arguments and give back their result and the bytes they handed to
  \<open>send\<close>. The sixteen random bytes of the key are an argument of \<open>handshake\<close>.
\<close>

unbundle bit_operations_syntax

section \<open>State and connection\<close>

record WebSocketClient =
  wc_socket_fd :: int
  wc_host :: string
  wc_port :: int
  wc_connected :: bool

text \<open>The constructor throws \<open>runtime_error\<close> when \<open>socket\<close> fails: \<open>None\<close>.\<close>

definition WebSocketClient_new :: "int \<Rightarrow> string \<Rightarrow> int \<Rightarrow> WebSocketClient option" where
  "WebSocketClient_new fd host port =
     (if fd = - 1 then None
      else Some \<lparr>wc_socket_fd = fd, wc_host = host, wc_port = port, wc_connected = False\<rparr>)"

definition wc_connect :: "bool \<Rightarrow> bool \<Rightarrow> WebSocketClient \<Rightarrow> bool \<times> WebSocketClient" where
  "wc_connect address_ok connect_ok c =
     (if \<not> address_ok then (False, c)
      else if \<not> connect_ok then (False, c)
      else (True, c\<lparr>wc_connected := True\<rparr>))"

text \<open>The second component: the descriptors closed.\<close>

definition wc_disconnect :: "WebSocketClient \<Rightarrow> WebSocketClient \<times> int list" where
  "wc_disconnect c =
     (if wc_connected c then (c\<lparr>wc_connected := False\<rparr>, [wc_socket_fd c]) else (c, []))"

section \<open>Handshake\<close>

definition generateWebsocketKey :: "string \<Rightarrow> string" where
  "generateWebsocketKey random_bytes = base64_encode random_bytes"

definition port_string :: "int \<Rightarrow> string" where
  "port_string n = (if n < 0 then ''-'' @ to_string (nat (- n)) else to_string (nat n))"

definition handshake_request :: "WebSocketClient \<Rightarrow> string \<Rightarrow> string \<Rightarrow> string" where
  "handshake_request c path key =
     ''GET '' @ path @ '' HTTP/1.1'' @ crlf @
     ''Host: '' @ wc_host c @ '':'' @ port_string (wc_port c) @ crlf @
     ''Upgrade: websocket'' @ crlf @ ''Connection: Upgrade'' @ crlf @
     ''Sec-WebSocket-Key: '' @ key @ crlf @ ''Sec-WebSocket-Version: 13'' @ crlf @ crlf"

definition upgrade_accepted :: "string \<Rightarrow> bool" where
  "upgrade_accepted response \<longleftrightarrow> find_str ''101 Switching Protocols'' response 0 \<noteq> None"

text \<open>One \<open>recv\<close> into a buffer of 4096 bytes, one byte of it left free.\<close>

definition recv_buffer :: nat where
  "recv_buffer = 4095"

definition wc_handshake ::
  "string \<Rightarrow> int \<Rightarrow> recv_outcome \<Rightarrow> string \<Rightarrow> WebSocketClient \<Rightarrow> bool \<times> string" where
  "wc_handshake random_bytes sent received path c =
     (if \<not> wc_connected c then (False, [])
      else (let req = handshake_request c path (generateWebsocketKey random_bytes)
            in if sent < 0 then (False, req)
               else (case received of
                       Received s \<Rightarrow> (upgrade_accepted (take recv_buffer s), req)
                     | Peer_closed \<Rightarrow> (False, req)
                     | Recv_failed e \<Rightarrow> (False, req))))"

section \<open>Messages\<close>

text \<open>The frames are not masked, which RFC 6455 demands of a client.\<close>

definition client_frame :: "byte \<Rightarrow> string \<Rightarrow> byte list" where
  "client_frame first message =
     (let len = length message
      in [first] @
         (if len \<le> 125 then [of_nat len]
          else if len \<le> 65535 then [126, of_nat (len div 256), of_nat len]
          else [127] @ map (\<lambda>i. of_nat (len div 2 ^ (8 * (7 - i)))) [0..<8]) @
         to_bytes message)"

definition sendMessage :: "int \<Rightarrow> string \<Rightarrow> bool \<Rightarrow> WebSocketClient \<Rightarrow> bool \<times> byte list" where
  "sendMessage sent message is_binary c =
     (if \<not> wc_connected c then (False, [])
      else (let frame = client_frame (0x80 OR (if is_binary then 2 else 1)) message
            in (if sent < 0 then (False, frame) else (True, frame))))"

definition sendPing :: "int \<Rightarrow> string \<Rightarrow> WebSocketClient \<Rightarrow> bool \<times> byte list" where
  "sendPing sent payload c =
     (if \<not> wc_connected c then (False, [])
      else (let frame = client_frame 0x89 payload
            in (if sent < 0 then (False, frame) else (True, frame))))"

definition receiveMessage :: "recv_outcome \<Rightarrow> WebSocketClient \<Rightarrow> string" where
  "receiveMessage received c =
     (if \<not> wc_connected c then []
      else (case received of Received s \<Rightarrow> take recv_buffer s | Peer_closed \<Rightarrow> [] | Recv_failed e \<Rightarrow> []))"

section \<open>The frames are RFC 6455 frames\<close>

lemma client_frame_rfc:
  assumes "first = first_byte True opcode"
  shows "client_frame first message = ws_encode True opcode None (to_bytes message)"
proof -
  let ?n = "length message"
  have two: "length_bytes_be 2 ?n = [of_nat (?n div 256), of_nat ?n]"
    by (simp add: length_bytes_be_def octet_def numeral_2_eq_2)
  have eight: "map (\<lambda>i. of_nat (?n div 2 ^ (8 * (7 - i)))) [0..<8] = length_bytes_be 8 ?n"
    by (simp add: length_bytes_be_def octet_def power_mult)
  show ?thesis
    using assms unfolding client_frame_def Let_def eight
    by (auto simp: ws_encode_def len_code_def len_field_def two)
qed

definition message_opcode :: "bool \<Rightarrow> WsOpcode" where
  "message_opcode is_binary = (if is_binary then Binary else Text)"

lemma sent_frames:
  assumes "wc_connected c"
  shows "snd (sendMessage sent message is_binary c) = ws_encode True (message_opcode is_binary) None (to_bytes message)"
    and "snd (sendPing sent message c) = ws_encode True Ping None (to_bytes message)"
proof -
  have m: "0x80 OR (if is_binary then 2 else 1) = first_byte True (message_opcode is_binary)"
    and p: "0x89 = first_byte True Ping"
    by (simp_all add: first_byte_def message_opcode_def)
  show "snd (sendMessage sent message is_binary c) = ws_encode True (message_opcode is_binary) None (to_bytes message)"
    using assms client_frame_rfc [OF m] by (simp add: sendMessage_def Let_def)
  show "snd (sendPing sent message c) = ws_encode True Ping None (to_bytes message)"
    using assms client_frame_rfc [OF p] by (simp add: sendPing_def Let_def)
qed

text \<open>
  The complete bytes of a message or a ping, of any length, parse back to its opcode and bytes,
  and nothing is sent before the client is connected.
\<close>

lemma client_frames_parsed:
  assumes "length message \<le> max_size"
  shows "(wc_connected c \<longrightarrow>
      readFrame (snd (sendMessage sent message is_binary c)) f =
        Inr (True, decoded True (message_opcode is_binary) None (to_bytes message) f) \<and>
      readFrame (snd (sendPing sent message c)) f = Inr (True, decoded True Ping None (to_bytes message) f)) \<and>
    (\<not> wc_connected c \<longrightarrow> sendMessage sent message is_binary c = (False, []) \<and> sendPing sent message c = (False, []))"
  using assms readFrame_ws_encode [of "message_opcode is_binary" "to_bytes message" None True "[]" f]
    readFrame_ws_encode [of Ping "to_bytes message" None True "[]" f] sent_frames
  by (auto simp: message_opcode_def sendMessage_def sendPing_def)

lemma client_frames_parsed_witness:
  "readFrame (snd (sendMessage 7 ''hello'' False
     \<lparr>wc_socket_fd = 4, wc_host = ''h'', wc_port = 80, wc_connected = True\<rparr>)) (new_frame 4 []) =
   Inr (True, decoded True Text None (to_bytes ''hello'') (new_frame 4 []))"
  using client_frames_parsed [of "''hello''" "\<lparr>wc_socket_fd = 4, wc_host = ''h'', wc_port = 80, wc_connected = True\<rparr>"
      7 False "new_frame 4 []"]
  by (simp add: max_size_def message_opcode_def)

lemma length_client_message:
  "length (ws_encode True opcode None (to_bytes message)) =
     length message + (if length message < 126 then 2 else if length message < 65536 then 4 else 10)"
  by (simp add: ws_encode_def len_field_def length_bytes_be_def)

section \<open>The key\<close>

lemma generated_key:
  assumes "length random_bytes = 16"
  shows "length (generateWebsocketKey random_bytes) = 24"
    "generateWebsocketKey random_bytes ! 22 = CHR ''=''" "generateWebsocketKey random_bytes ! 23 = CHR ''=''"
proof -
  have len: "length (generateWebsocketKey random_bytes) = 24"
    using assms by (simp add: generateWebsocketKey_def base64_encode_rfc4648 length_rfc4648)
  obtain a b where ab: "random_bytes = a @ [b]" "length a = 15"
    using assms by (metis append_butlast_last_id length_butlast list.size(3) numeral_eq_Suc diff_Suc_1 eval_nat_numeral(2) nat.simps(3) semiring_norm(26) semiring_norm(27) zero_neq_numeral)
  have "\<exists>x y. rfc4648 (a @ [b]) = rfc4648 a @ [x, y, CHR ''='', CHR ''='']"
    if "length a mod 3 = 0" for a b
    using that
  proof (induction a rule: rfc4648.induct)
    case (1 p q r rest)
    then show ?case by auto
  qed auto
  from this [of a b] ab(2) obtain x y where k: "rfc4648 random_bytes = rfc4648 a @ [x, y, CHR ''='', CHR ''='']"
    unfolding ab(1) by auto
  have "length (rfc4648 a) = 20" using ab(2) by (simp add: length_rfc4648)
  with k show "generateWebsocketKey random_bytes ! 22 = CHR ''=''" "generateWebsocketKey random_bytes ! 23 = CHR ''=''"
    by (simp_all add: generateWebsocketKey_def base64_encode_rfc4648 nth_append)
  show "length (generateWebsocketKey random_bytes) = 24" by (rule len)
qed

end
