(* ===== verification/Sha1_Vector.thy ===== *)
theory Sha1_Vector
  imports Utils_Codec
begin

text \<open>
  The opening handshake example of RFC 6455, section 1.3, computed by the model of \<open>sha1\<close>
  and \<open>base64_encode\<close> inside the kernel: 60 bytes of input, so padding, two chunks, 160
  rounds and the output order are all exercised. The steps are separate lemmas because each
  is a long evaluation.
\<close>

definition sample_chunk1 :: string where
  "sample_chunk1 =
    [CHR 0x64, CHR 0x47, CHR 0x68, CHR 0x6C, CHR 0x49, CHR 0x48, CHR 0x4E, CHR 0x68, CHR 0x62,
     CHR 0x58, CHR 0x42, CHR 0x73, CHR 0x5A, CHR 0x53, CHR 0x42, CHR 0x75, CHR 0x62, CHR 0x32,
     CHR 0x35, CHR 0x6A, CHR 0x5A, CHR 0x51, CHR 0x3D, CHR 0x3D, CHR 0x32, CHR 0x35, CHR 0x38,
     CHR 0x45, CHR 0x41, CHR 0x46, CHR 0x41, CHR 0x35, CHR 0x2D, CHR 0x45, CHR 0x39, CHR 0x31,
     CHR 0x34, CHR 0x2D, CHR 0x34, CHR 0x37, CHR 0x44, CHR 0x41, CHR 0x2D, CHR 0x39, CHR 0x35,
     CHR 0x43, CHR 0x41, CHR 0x2D, CHR 0x43, CHR 0x35, CHR 0x41, CHR 0x42, CHR 0x30, CHR 0x44,
     CHR 0x43, CHR 0x38, CHR 0x35, CHR 0x42, CHR 0x31, CHR 0x31, CHR 0x80, CHR 0x00, CHR 0x00,
     CHR 0x00]"

definition sample_chunk2 :: string where
  "sample_chunk2 =
    [CHR 0x00, CHR 0x00, CHR 0x00, CHR 0x00, CHR 0x00, CHR 0x00, CHR 0x00, CHR 0x00, CHR 0x00,
     CHR 0x00, CHR 0x00, CHR 0x00, CHR 0x00, CHR 0x00, CHR 0x00, CHR 0x00, CHR 0x00, CHR 0x00,
     CHR 0x00, CHR 0x00, CHR 0x00, CHR 0x00, CHR 0x00, CHR 0x00, CHR 0x00, CHR 0x00, CHR 0x00,
     CHR 0x00, CHR 0x00, CHR 0x00, CHR 0x00, CHR 0x00, CHR 0x00, CHR 0x00, CHR 0x00, CHR 0x00,
     CHR 0x00, CHR 0x00, CHR 0x00, CHR 0x00, CHR 0x00, CHR 0x00, CHR 0x00, CHR 0x00, CHR 0x00,
     CHR 0x00, CHR 0x00, CHR 0x00, CHR 0x00, CHR 0x00, CHR 0x00, CHR 0x00, CHR 0x00, CHR 0x00,
     CHR 0x00, CHR 0x00, CHR 0x00, CHR 0x00, CHR 0x00, CHR 0x00, CHR 0x00, CHR 0x00, CHR 0x01,
     CHR 0xE0]"

definition sample_w1 :: "u32 list" where
  "sample_w1 =
    [0x6447686C, 0x49484E68, 0x62584273, 0x5A534275, 0x6232356A, 0x5A513D3D, 0x32353845, 0x41464135,
     0x2D453931, 0x342D3437, 0x44412D39, 0x3543412D, 0x43354142, 0x30444338, 0x35423131, 0x80000000,
     0x363CA02C, 0x24E81236, 0x8856B441, 0x6FB3C92, 0x6FB4BCB6, 0x460B16E3, 0x599219AE, 0x35BF9369,
     0x3267458E, 0xF828FD04, 0x753A96A7, 0x6336F612, 0xC3D66383, 0x6EB86F9, 0x73B4FD42, 0xA503C5B8,
     0x15CDAE35, 0x531E5DC5, 0x6FB6B7D0, 0x6C16E4AC, 0x4DDD36BD, 0x35D36946, 0xE8AE8B9C, 0x4A933AD0,
     0xCE8628B4, 0x415DBA9E, 0x2792F049, 0x8E9B79E7, 0x79C425C5, 0x6353B49D, 0x994218, 0x8A950ED1,
     0xAF5D0B99, 0xFD9883DE, 0x1ED8FFEB, 0xF007FF28, 0x425E3674, 0x59631C0, 0xAD6C3C31, 0x860B71D7,
     0x87BFC548, 0x3E64F92D, 0x8D0AB761, 0x34E1EE35, 0xACF5108, 0xC2B479DA, 0x6C93370A, 0xF7935BA1,
     0xE91C91C1, 0xBED165A2, 0x4C3E4ABE, 0x50D96238, 0xB6587DDE, 0x1A2EE6E6, 0x2D335896, 0xF3495D0B,
     0xF30E0A1D, 0x32CE5459, 0x7165E3B8, 0xAB05FF94, 0xC5949F0B, 0xBCD84E4A, 0x7720392, 0xFF3FF806]"

definition sample_w2 :: "u32 list" where
  "sample_w2 =
    [0x0, 0x0, 0x0, 0x0, 0x0, 0x0, 0x0, 0x0, 0x0, 0x0, 0x0, 0x0, 0x0, 0x0, 0x0, 0x1E0, 0x0, 0x0,
     0x3C0, 0x0, 0x0, 0x780, 0x0, 0x3C0, 0xF00, 0x0, 0x0, 0x1E00, 0x0, 0xCC0, 0x3C00, 0x440, 0x0,
     0x7800, 0xF00, 0x3300, 0xF000, 0xF00, 0x0, 0x1EF00, 0x0, 0xCC00, 0x3C000, 0x4380, 0x0, 0x78F00,
     0xFF00, 0x32680, 0xF0000, 0xF000, 0x3300, 0x1EFF00, 0x0, 0xCB800, 0x3C0000, 0x40B00, 0xF000,
     0x78FF00, 0xFF000, 0x338700, 0xF00000, 0xFC300, 0xF000, 0x1EFBB00, 0x0, 0xCC0000, 0x3C0F000,
     0x438000, 0x0, 0x78F0000, 0xFF0000, 0x3269E00, 0xF000000, 0xF0F000, 0x333C00, 0x1EFF8800, 0x0,
     0xCB88800, 0x3C00F000, 0x40A4A00]"

lemma sha1_zeros_step:
  "length msg mod 64 \<noteq> 56 \<Longrightarrow> sha1_zeros msg = sha1_zeros (msg @ [CHR 0x00])"
  "length msg mod 64 = 56 \<Longrightarrow> sha1_zeros msg = msg"
  by (subst sha1_zeros.simps; simp)+

lemma sample_pad:
  "sha1_pad ''dGhlIHNhbXBsZSBub25jZQ==258EAFA5-E914-47DA-95CA-C5AB0DC85B11'' = sample_chunk1 @ sample_chunk2"
  by (simp add: sha1_pad_def sha1_zeros_step Let_def sample_chunk1_def sample_chunk2_def char_of_def bit_0)

lemma sha1_schedule_words:
  "map (sha1_word chunk) [0..<16] = ws \<Longrightarrow>
   sha1_schedule chunk = fold (\<lambda>i w. w @ [left_rotate (w ! (i - 3) XOR w ! (i - 8) XOR w ! (i - 14) XOR w ! (i - 16)) 1])
     [16..<80] ws"
  by (simp only: sha1_schedule_def)

lemma sample_words1: "map (sha1_word sample_chunk1) [0..<16] = take 16 sample_w1"
  by (simp add: sha1_word_def upt_rec sample_chunk1_def sample_w1_def)

lemma sample_words2: "map (sha1_word sample_chunk2) [0..<16] = take 16 sample_w2"
  by (simp add: sha1_word_def upt_rec sample_chunk2_def sample_w2_def)

lemma sample_schedule1: "sha1_schedule sample_chunk1 = sample_w1"
  unfolding sha1_schedule_words [OF sample_words1]
  by (simp add: upt_rec left_rotate_def sample_w1_def)

lemma sample_schedule2: "sha1_schedule sample_chunk2 = sample_w2"
  unfolding sha1_schedule_words [OF sample_words2]
  by (simp add: upt_rec left_rotate_def sample_w2_def)

lemma sha1_round_tuple:
  "sha1_round w i (a, b, c, d, e) =
     (left_rotate a 5 + fst (sha1_fk i b c d) + e + snd (sha1_fk i b c d) + w ! i,
      a, left_rotate b 30, c, d)"
  by (simp add: sha1_round_def split: prod.split)

lemma sample_rounds1:
  "fold (sha1_round sample_w1) [0..<80] sha1_init =
     (0xF48A5426, 0x835995E1, 0x25C11EFB, 0x4A45C402, 0x9A73C2F2)"
  by (simp add: upt_rec left_rotate_def sha1_round_tuple sha1_fk_def sha1_init_def sample_w1_def)

lemma sample_rounds2:
  "fold (sha1_round sample_w2) [0..<80]
     (0x5BCF7727, 0x7327416A, 0xBE7BFBF9, 0x5A781878, 0x5E46A4E2) =
     (0x57AAD805, 0x4D3B0DAC, 0xD27A4A0D, 0x74C040CD, 0x54782008)"
  by (simp add: upt_rec left_rotate_def sha1_round_tuple sha1_fk_def sample_w2_def)

lemma sample_step1:
  "sha1_chunk sample_chunk1 sha1_init =
     (0x5BCF7727, 0x7327416A, 0xBE7BFBF9, 0x5A781878, 0x5E46A4E2)"
  using sample_rounds1 by (simp add: sha1_chunk_def sample_schedule1 sha1_init_def)

lemma sample_step2:
  "sha1_chunk sample_chunk2 (0x5BCF7727, 0x7327416A, 0xBE7BFBF9, 0x5A781878, 0x5E46A4E2) =
     (0xB37A4F2C, 0xC0624F16, 0x90F64606, 0xCF385945, 0xB2BEC4EA)"
  using sample_rounds2 by (simp add: sha1_chunk_def sample_schedule2)

lemma sha1_chunks_step:
  "length c = 64 \<Longrightarrow> sha1_chunks (c @ msg) h = sha1_chunks msg (sha1_chunk c h)"
  by (subst sha1_chunks.simps) auto

lemma sample_lengths: "length sample_chunk1 = 64" "length sample_chunk2 = 64"
  by (simp_all add: sample_chunk1_def sample_chunk2_def)

lemma sample_digest:
  "sha1 ''dGhlIHNhbXBsZSBub25jZQ==258EAFA5-E914-47DA-95CA-C5AB0DC85B11'' =
    [CHR 0xB3, CHR 0x7A, CHR 0x4F, CHR 0x2C, CHR 0xC0, CHR 0x62, CHR 0x4F, CHR 0x16, CHR 0x90,
     CHR 0xF6, CHR 0x46, CHR 0x06, CHR 0xCF, CHR 0x38, CHR 0x59, CHR 0x45, CHR 0xB2, CHR 0xBE,
     CHR 0xC4, CHR 0xEA]"
  using sha1_chunks_step [OF sample_lengths(2), of "[]"]
  by (simp add: sha1_def sample_pad sha1_chunks_step sample_lengths sample_step1 sample_step2
      sha1_chunks.simps [of "[]"] be_bytes_def upt_rec char_of_def bit_0)

lemma sample_accept:
  "base64_encode (sha1 ''dGhlIHNhbXBsZSBub25jZQ==258EAFA5-E914-47DA-95CA-C5AB0DC85B11'') = ''s3pPLMBiTxaQ9kYGzzhZRbK+xOo=''"
  by (simp add: sample_digest base64_encode_rfc4648 lookup_def)

end
