(* ===== verification/Handshake.thy ===== *)
theory Handshake
  imports WebSocket_Client Server_Exchange Sha1_Vector
begin

text \<open>
  The WebSocket handshake between the client (\<open>src/src/websocketclient.h\<close>) and the server
  (\<open>src/src/server.cc\<close>): the request the client writes, as the server parses it, the answer, as the
  client reads it, the route that is found afterwards, also when an earlier client left one behind,
  and a message, as the handler's \<open>read\<close> returns it.
\<close>

section \<open>The request as the server parses it\<close>

definition upgrade_lines :: "WebSocketClient \<Rightarrow> string \<Rightarrow> string list" where
  "upgrade_lines c key =
     [''Host: '' @ wc_host c @ '':'' @ port_string (wc_port c), ''Upgrade: websocket'', ''Connection: Upgrade'',
      ''Sec-WebSocket-Key: '' @ key, ''Sec-WebSocket-Version: 13'']"

lemma handshake_request_message:
  "handshake_request c path key = http_message ''GET'' path ''HTTP/1.1'' (upgrade_lines c key) []"
  by (simp add: handshake_request_def http_message_def upgrade_lines_def)

lemma port_string_plain: "CR \<notin> set (port_string n)" "LF \<notin> set (port_string n)"
  using to_string_plain [of "nat n"] to_string_plain [of "nat (- n)"] by (auto simp: port_string_def plain_line_def)

lemma generated_key_plain: "CR \<notin> set (generateWebsocketKey r)" "LF \<notin> set (generateWebsocketKey r)"
proof -
  have "CR \<notin> set lookup" "LF \<notin> set lookup" by (simp_all add: lookup_def)
  then show "CR \<notin> set (generateWebsocketKey r)" "LF \<notin> set (generateWebsocketKey r)"
    using rfc4648_chars [of CR r] rfc4648_chars [of LF r] by (auto simp: generateWebsocketKey_def base64_encode_rfc4648)
qed

lemma upgrade_request_parsed:
  assumes "plain_target (wc_host c)" "plain_target path" "key = generateWebsocketKey r"
  shows "Request_new (handshake_request c path key) =
    parsed_request ''GET'' path ''HTTP/1.1'' (foldl apply_header Map.empty (upgrade_lines c key)) []"
proof -
  have "\<forall>l \<in> set (upgrade_lines c key). plain_line l"
    using assms(1,3) port_string_plain [of "wc_port c"] generated_key_plain [of r]
    by (auto simp: upgrade_lines_def plain_line_def plain_target_def)
  then show ?thesis
    unfolding handshake_request_message using assms(2)
    by (intro Request_new_parsed) (auto simp: plain_target_def plain_line_def)
qed

lemma upgrade_headers:
  "foldl apply_header Map.empty (upgrade_lines c key) =
     [''Host'' \<mapsto> wc_host c @ '':'' @ port_string (wc_port c), ''Upgrade'' \<mapsto> ''websocket'', ''Connection'' \<mapsto> ''Upgrade'',
      ''Sec-WebSocket-Key'' \<mapsto> key, ''Sec-WebSocket-Version'' \<mapsto> ''13'']"
  using header_of_line_pair [of "''Host''" "wc_host c @ '':'' @ port_string (wc_port c)"]
    header_of_line_pair [of "''Upgrade''" "''websocket''"] header_of_line_pair [of "''Connection''" "''Upgrade''"]
    header_of_line_pair [of "''Sec-WebSocket-Key''" key] header_of_line_pair [of "''Sec-WebSocket-Version''" "''13''"]
  by (simp add: upgrade_lines_def apply_header_def)

lemma generated_key_valid: "length r = 16 \<Longrightarrow> valid_client_key (generateWebsocketKey r)"
  using generated_key by (simp add: valid_client_key_def)

lemma upgrade_request_no_frame: "getWebSocketFrame (handshake_request c path key) = None"
  by (simp add: handshake_request_def getWebSocketFrame_def to_bytes_def Let_def)

section \<open>The answer as the client reads it\<close>

lemma handshake_response_accepted: "upgrade_accepted (take recv_buffer (handshake_response key))"
  by (simp add: upgrade_accepted_def handshake_response_def recv_buffer_def find_str_def)

text \<open>The sample handshake of RFC 6455.\<close>

lemma rfc6455_accept_key: "accept_key ''dGhlIHNhbXBsZSBub25jZQ=='' = ''s3pPLMBiTxaQ9kYGzzhZRbK+xOo=''"
  using sample_accept by (simp add: accept_key_def magic_def)

section \<open>The server's side\<close>

lemma updateWsRoute_keeps_handler:
  "r \<in> set (snd (updateWsRoute p q fd rs)) \<Longrightarrow> \<exists>r' \<in> set rs. wr_path r' = wr_path r \<and> wr_handler r' = wr_handler r"
proof (induction rs)
  case (Cons s rs)
  obtain found rs' where "updateWsRoute p q fd rs = (found, rs')" by force
  with Cons show ?case by (auto split: if_splits)
qed simp

lemma getWsRoute_member: "getWsRouteBySocketId fd rs = Some r \<Longrightarrow> r \<in> set rs"
  by (induction rs) (auto split: if_splits)

lemma handshake_performed:
  assumes "plain_target (wc_host c)" "plain_target path" "length r = 16" "key = generateWebsocketKey r"
    and "sv_wsRoutes sv \<noteq> []" "sendResponse sd (handshake_response key) w = Ret (True, w1)"
    and "rs = snd (updateWsRoute (target_path path) (req_query (Request_new (handshake_request c path key))) sd (sv_wsRoutes sv))"
  shows "performRequest u sd (handshake_request c path key) sv w =
    and_then (dispatchWebSocket u sd (handshake_request c path key) rs w1) (\<lambda>w. Ret (sv\<lparr>sv_wsRoutes := rs\<rparr>, w))"
proof -
  let ?raw = "handshake_request c path key"
  note req = upgrade_request_parsed [OF assms(1,2,4)]
  have path: "req_normalize_path (Request_new ?raw) = target_path path" by (simp add: req parsed_request_def)
  have "processWebsocketHandshake sendResponse sd (Request_new ?raw) w = Ret (True, w1)"
    unfolding assms(6) [symmetric]
    unfolding req using generated_key_valid [OF assms(3)] unfolding assms(4) [symmetric]
    by (intro handshake_accepts) (simp_all add: parsed_request_def upgrade_headers)
  then show ?thesis
    using assms(5,7) by (simp add: performRequest_def Let_def upgrade_request_no_frame path)
qed

text \<open>
  Routes are never detached when their client goes. On a reused descriptor number the route of the
  earlier client, if it comes first, is found instead of the one just requested: the handshake for
  one path runs the handler of another.
\<close>

lemma updateWsRoute_first:
  "p \<in> set (map wr_path rs) \<Longrightarrow> \<forall>r \<in> set (takeWhile (\<lambda>r. wr_path r \<noteq> p) rs). wr_sockfd r \<noteq> fd \<Longrightarrow>
   \<exists>r. getWsRouteBySocketId fd (snd (updateWsRoute p q fd rs)) = Some r \<and> wr_path r = p \<and> wr_query r = q"
  by (induction rs) (auto simp: Let_def split: prod.splits if_splits)

lemma updateWsRoute_stale:
  assumes "\<forall>r \<in> set pre. wr_sockfd r \<noteq> fd \<and> wr_path r \<noteq> p" "wr_sockfd stale = fd" "wr_path stale \<noteq> p"
  shows "getWsRouteBySocketId fd (snd (updateWsRoute p q fd (pre @ stale # post))) = Some stale"
  using assms by (induction pre) (auto simp: Let_def split: prod.splits)

lemma stale_route_answers:
  assumes "plain_target (wc_host c)" "plain_target path" "length r = 16" "key = generateWebsocketKey r"
    and "sv_wsRoutes sv = pre @ stale # post" "\<forall>r \<in> set pre. wr_sockfd r \<noteq> sd \<and> wr_path r \<noteq> target_path path"
    and "wr_sockfd stale = sd" "wr_path stale \<noteq> target_path path"
    and "sendResponse sd (handshake_response key) w = Ret (True, w1)"
  shows "\<exists>rs. performRequest u sd (handshake_request c path key) sv w =
    and_then (wr_handler stale (WebSocket_new sd (handshake_request c path key) (wr_query stale) (un_masking_key u)) w1)
      (\<lambda>w. Ret (sv\<lparr>sv_wsRoutes := rs\<rparr>, w))"
proof -
  have "sv_wsRoutes sv \<noteq> []" by (simp add: assms(5))
  note h = handshake_performed [OF assms(1-4) this assms(9) refl, of u]
  show ?thesis
    using updateWsRoute_stale [OF assms(6-8), of _ post] unfolding h assms(5) dispatchWebSocket_def by auto
qed

section \<open>A message as its handler reads it\<close>

lemma to_bytes_received: "to_bytes (take n (from_bytes bs @ later)) = take n (bs @ to_bytes later)"
proof -
  have "to_bytes (take n s) = take n (to_bytes s)" "to_bytes (s @ t) = to_bytes s @ to_bytes t" for s t
    by (simp_all add: to_bytes_def take_map)
  then show ?thesis by (simp only: to_from_bytes)
qed

lemma message_probed:
  "getWebSocketFrame (take BUFFER_SIZE (from_bytes (ws_encode True (message_opcode b) None payload) @ later)) =
     Some (message_opcode b)"
proof -
  have n: "BUFFER_SIZE = Suc (Suc 1022)" by (simp add: BUFFER_SIZE_def)
  obtain x y zs where e: "ws_encode True (message_opcode b) None payload = x # y # zs" "x = first_byte True (message_opcode b)"
    by (simp add: ws_encode_def)
  have "to_bytes (from_bytes [x]) = [x]" by (rule to_from_bytes)
  then show ?thesis
    unfolding n e(1) by (simp add: getWebSocketFrame_def from_bytes_def to_bytes_def Let_def)
      (simp add: e(2) message_opcode_def first_byte_def opcode_of_def)
qed

lemma message_read:
  assumes "length message \<le> max_size" "f_text_payload (ws_frame ws) = []"
    and "ws_byte_data ws = take BUFFER_SIZE (ws_encode True (message_opcode b) None (to_bytes message) @ later)"
  shows "\<exists>ws'. ws_read ws [] = Inr (if BUFFER_SIZE < length message + 4 then (Fail, [], ws', False)
      else if b then (Binary_result, [], ws', False) else (Text_result, message, ws', False)) \<and>
    (length message + 4 \<le> BUFFER_SIZE \<longrightarrow> f_payload_data (ws_frame ws') = to_bytes message)"
proof -
  let ?e = "ws_encode True (message_opcode b) None (to_bytes message)" and ?f = "ws_frame ws"
  have op: "valid_opcode (message_opcode b)" "message_opcode b \<noteq> Close" by (simp_all add: message_opcode_def)
  note len = length_client_message [of "message_opcode b" message]
  show ?thesis
  proof (cases "BUFFER_SIZE < length message + 4")
    case True
    then have m: "BUFFER_SIZE < length ?e" "14 \<le> BUFFER_SIZE" using len by (auto simp: BUFFER_SIZE_def)
    then have "ws_byte_data ws = take BUFFER_SIZE ?e" by (simp add: assms(3))
    then have "readFrame (ws_byte_data ws) ?f = Inr (False, header_read True (message_opcode b) None (length message) ?f)"
      using readFrame_cut [OF op _ _ m(2,1)] assms(1) by simp
    with True show ?thesis by (simp add: ws_read_def)
  next
    case False
    then have "length ?e \<le> BUFFER_SIZE" using len by (auto simp: BUFFER_SIZE_def)
    then have "ws_byte_data ws = ?e @ take (BUFFER_SIZE - length ?e) later" by (simp add: assms(3))
    then have "readFrame (ws_byte_data ws) ?f = Inr (True, decoded True (message_opcode b) None (to_bytes message) ?f)"
      using readFrame_ws_encode [OF op, of "to_bytes message" None] assms(1) by simp
    with False assms(2) show ?thesis
      by (cases b) (simp_all add: ws_read_def decoded_def message_opcode_def Let_def)
  qed
qed

end
