(* ===== verification/Https_Client.thy ===== *)
theory Https_Client
  imports Client
begin

text \<open>
  The TLS transport of the client, class \<open>HttpsClient\<close> of \<open>src/src/client.h\<close>: its context
  and TLS object, one request, reading the response, the certificate setting and the
  destructor. The state keeps the pointer the class keeps, so what is freed, forgotten or
  freed again can be told from the state. The factory never builds this class.
\<close>

section \<open>State\<close>

text \<open>Of a context only matters whether it verifies the peer's certificate.\<close>

record ssl_context =
  ctx_verify_peer :: bool

record Https_Client =
  hc_base :: Base_Client
  hc_use_custom_ca :: bool
  hc_ca_cert_file :: string
  hc_ssl_ctx :: "ssl_context option"
  hc_ssl :: "ssl option"

definition HttpsClient_new :: "string \<Rightarrow> int \<Rightarrow> Https_Client" where
  "HttpsClient_new host port =
     \<lparr>hc_base = \<lparr>cl_host = host, cl_port = port, cl_keep_alive = True\<rparr>, hc_use_custom_ca = True,
      hc_ca_cert_file = [], hc_ssl_ctx = None, hc_ssl = None\<rparr>"

definition https_closeSocket :: "int \<Rightarrow> Https_Client \<times> world \<Rightarrow> (Https_Client \<times> world) exec" where
  "https_closeSocket sock = (\<lambda>(c, w).
     and_then (of_result (ssl_free (hc_ssl c) (w_tls w))) (\<lambda>t.
       let w = w\<lparr>w_tls := t\<rparr> in Ret (c\<lparr>hc_ssl := None\<rparr>, if 0 \<le> sock then sys_close sock w else w)))"

text \<open>The arguments: whether \<open>SSL_CTX_new\<close> gives a context, and whether the CA file loads.\<close>

definition https_initializeSSL :: "bool \<Rightarrow> bool \<Rightarrow> Https_Client \<Rightarrow> bool \<times> Https_Client" where
  "https_initializeSSL ctx_made ca_loaded c =
     (if \<not> ctx_made then (False, c\<lparr>hc_ssl_ctx := None\<rparr>)
      else if hc_use_custom_ca c \<and> hc_ca_cert_file c \<noteq> [] then
        (if \<not> ca_loaded then (False, c\<lparr>hc_ssl_ctx := None\<rparr>)
         else (True, c\<lparr>hc_ssl_ctx := Some \<lparr>ctx_verify_peer = True\<rparr>\<rparr>))
      else (True, c\<lparr>hc_ssl_ctx := Some \<lparr>ctx_verify_peer = False\<rparr>\<rparr>))"

text \<open>A CA file that does not load into an existing context is logged and otherwise ignored.\<close>

definition setCert :: "string \<Rightarrow> Https_Client \<Rightarrow> Https_Client" where
  "setCert cert_file c =
     (let c = c\<lparr>hc_ca_cert_file := cert_file, hc_use_custom_ca := True\<rparr>
      in case hc_ssl_ctx c of None \<Rightarrow> c | Some ctx \<Rightarrow> c\<lparr>hc_ssl_ctx := Some (ctx\<lparr>ctx_verify_peer := True\<rparr>)\<rparr>)"

text \<open>The destructor: \<open>SSL_shutdown\<close> and \<open>SSL_free\<close> on the object there is.\<close>

definition cleanupSSL :: "Https_Client \<times> world \<Rightarrow> (Https_Client \<times> world) exec" where
  "cleanupSSL = (\<lambda>(c, w).
     and_then (of_result (ssl_free (hc_ssl c) (w_tls w))) (\<lambda>t.
       Ret (c\<lparr>hc_ssl := None, hc_ssl_ctx := None\<rparr>, w\<lparr>w_tls := t\<rparr>)))"

section \<open>Reading the response\<close>

fun ssl_error_number :: "ssl_error \<Rightarrow> nat" where
  "ssl_error_number Want_read = 2"
| "ssl_error_number Want_write = 3"
| "ssl_error_number (Ssl_error n) = n"

definition reads_left :: "ssl_read list \<Rightarrow> nat" where
  "reads_left rs = sum_list (map (\<lambda>r. case r of Read d \<Rightarrow> Suc (length d) | Read_failed e \<Rightarrow> 1) rs)"

lemma ssl_read_left:
  assumes "ssl_read n p t = Inr (r, t')" "t_reads t \<noteq> []" "0 < n"
  shows "reads_left (t_reads t') < reads_left (t_reads t)"
  using assms by (auto simp: ssl_read_def reads_left_def Let_def split: sum.splits list.splits ssl_read.splits if_splits)

text \<open>
  An error that is not a request to try again ends the loop without closing anything. The
  thread stays in the loop when nothing more ever arrives.
\<close>

function https_readResponse ::
  "int \<Rightarrow> string \<Rightarrow> Https_Client \<times> world \<Rightarrow> (string expected \<times> Https_Client \<times> world) exec" where
  "https_readResponse sock response (c, w) =
     (if t_reads (w_tls w) = [] then Spin
      else (case ssl_read READ_BUFFER_SIZE (hc_ssl c) (w_tls w) of
              Inl e \<Rightarrow> Throw e
            | Inr (Read_failed e, t) \<Rightarrow>
                if e = Want_read \<or> e = Want_write then https_readResponse sock response (c, w\<lparr>w_tls := t\<rparr>)
                else Ret (Unexpected (''SSL read failed with error: '' @ to_string (ssl_error_number e)), c, w\<lparr>w_tls := t\<rparr>)
            | Inr (Read d, t) \<Rightarrow>
                if length d < READ_BUFFER_SIZE then
                  and_then (https_closeSocket sock (c, w\<lparr>w_tls := t\<rparr>)) (\<lambda>st. Ret (Expected (response @ d), st))
                else https_readResponse sock (response @ d) (c, w\<lparr>w_tls := t\<rparr>)))"
  by pat_completeness auto

termination
  by (relation "measure (\<lambda>(sock, response, c, w). reads_left (t_reads (w_tls w)))")
    (auto dest: ssl_read_left simp: READ_BUFFER_SIZE_def)

declare https_readResponse.simps [simp del]

section \<open>One request\<close>

text \<open>
  The socket calls give what \<open>ex\<close> says, the TLS library what the script in the world says;
  the pair says whether a context can be made and the CA file loads.
\<close>

definition https_fail :: "int \<Rightarrow> string \<Rightarrow> Https_Client \<times> world \<Rightarrow> (string expected \<times> Https_Client \<times> world) exec" where
  "https_fail sock message st = and_then (https_closeSocket sock st) (\<lambda>st. Ret (Unexpected message, st))"

definition https_exchange ::
  "int \<Rightarrow> string \<Rightarrow> string \<Rightarrow> Https_Client \<times> world \<Rightarrow> (string expected \<times> Https_Client \<times> world) exec" where
  "https_exchange sock method path = (\<lambda>(c, w).
     let (p, t) = ssl_new (w_tls w); c = c\<lparr>hc_ssl := p\<rparr>; w = w\<lparr>w_tls := t\<rparr>
     in if p = None then https_fail sock ''Failed to create SSL connection'' (c, w)
        else and_then (of_result (ssl_handshake (hc_ssl c) (w_tls w))) (\<lambda>(err, t).
          let w = w\<lparr>w_tls := t\<rparr>
          in case err of
               Some e \<Rightarrow>
                 and_then (of_result (ssl_free (hc_ssl c) (w_tls w))) (\<lambda>t.
                   https_fail sock (''SSL handshake failed: '' @ to_string (ssl_error_number e)) (c, w\<lparr>w_tls := t\<rparr>))
             | None \<Rightarrow>
                 and_then (of_result (ssl_write (hc_ssl c) (request_text (hc_base c) method path) (w_tls w))) (\<lambda>r.
                   case r of
                     None \<Rightarrow> Spin
                   | Some (n, e, t) \<Rightarrow>
                       (let w = w\<lparr>w_tls := t\<rparr>
                        in if n = 0 then
                             and_then (of_result (ssl_free (hc_ssl c) (w_tls w))) (\<lambda>t.
                               Ret (Unexpected ''Failed to send HTTPS request'', c, sys_close sock (w\<lparr>w_tls := t\<rparr>)))
                           else https_readResponse sock [] (c, w)))))"

definition https_sendRequest ::
  "exchange \<Rightarrow> bool \<times> bool \<Rightarrow> string \<Rightarrow> string \<Rightarrow> Https_Client \<times> world \<Rightarrow>
     (string expected \<times> Https_Client \<times> world) exec" where
  "https_sendRequest ex ctx method path = (\<lambda>(c, w).
     let sock = ex_socket ex
     in if sock < 0 then Ret (Unexpected ''Failed to create socket'', c, w)
        else (let w = w\<lparr>w_open := insert sock (w_open w)\<rparr>
              in if \<not> ex_host_found ex then https_fail sock (''Host not found: '' @ cl_host (hc_base c)) (c, w)
                 else if \<not> ex_options_set ex then https_fail sock ''Failed to set socket timeout'' (c, w)
                 else if \<not> ex_connected ex then
                   https_fail sock (''Connection failed to '' @ cl_host (hc_base c) @ '':'' @
                     int_string (cl_port (hc_base c))) (c, w)
                 else if hc_ssl_ctx c = None then
                   (let (ok, c) = https_initializeSSL (fst ctx) (snd ctx) c
                    in if \<not> ok then https_fail sock ''Failed to initialize SSL context'' (c, w)
                       else https_exchange sock method path (c, w))
                 else https_exchange sock method path (c, w)))"

section \<open>What a request leaves behind\<close>

definition keeps_context :: "ssl_context option \<Rightarrow> (string expected \<times> Https_Client \<times> world) exec \<Rightarrow> bool" where
  "keeps_context ctx m \<longleftrightarrow> (\<forall>r c w. m = Ret (r, c, w) \<longrightarrow> hc_ssl_ctx c = ctx)"

lemma keeps_context_simps [simp]:
  "keeps_context ctx (Ret (r, c, w)) \<longleftrightarrow> hc_ssl_ctx c = ctx" "keeps_context ctx (Throw e)" "keeps_context ctx Spin"
  by (auto simp: keeps_context_def)

lemma keeps_context_and_then:
  "(\<And>x. m = Ret x \<Longrightarrow> keeps_context ctx (f x)) \<Longrightarrow> keeps_context ctx (and_then m f)"
  by (cases m) auto

lemma closeSocket_context: "https_closeSocket sock (c, w) = Ret (c', w') \<Longrightarrow> hc_ssl_ctx c' = hc_ssl_ctx c"
  by (auto simp: https_closeSocket_def and_then_Ret Let_def)

lemma fail_context: "keeps_context (hc_ssl_ctx c) (https_fail sock m (c, w))"
  unfolding https_fail_def by (rule keeps_context_and_then) (auto dest: closeSocket_context)

lemma readResponse_context: "keeps_context (hc_ssl_ctx c) (https_readResponse sock response (c, w))"
proof (induction sock response "(c, w)" arbitrary: c w rule: https_readResponse.induct)
  case (1 sock response c w)
  have close: "keeps_context (hc_ssl_ctx c) (and_then (https_closeSocket sock (c, w')) (\<lambda>st. Ret (x, st)))" for w' x
    by (rule keeps_context_and_then) (auto dest: closeSocket_context)
  show ?case
    by (subst https_readResponse.simps) (auto simp: close intro: "1.hyps" split: sum.split ssl_read.split)
qed

lemma exchange_context: "keeps_context (hc_ssl_ctx c) (https_exchange sock method path (c, w))"
  using fail_context [of "c\<lparr>hc_ssl := p\<rparr>" for p] readResponse_context [of "c\<lparr>hc_ssl := p\<rparr>" for p]
  by (auto simp: https_exchange_def Let_def intro!: keeps_context_and_then split: prod.split option.split)

text \<open>
  A client nobody called \<open>setCert\<close> on does not verify the server: whatever happens in its first
  request, the context it ends up with, if it has one, does not verify the peer, although the
  default trust store was set up; and \<open>setCert\<close> turns verification on.
\<close>

lemma unset_cert_trusts_anyone:
  "(\<forall>r c w'. https_sendRequest ex ctx method path (HttpsClient_new host port, w) = Ret (r, c, w') \<longrightarrow>
      hc_ssl_ctx c = None \<or> hc_ssl_ctx c = Some \<lparr>ctx_verify_peer = False\<rparr>) \<and>
   (cert \<noteq> [] \<longrightarrow> snd (https_initializeSSL True True (setCert cert (HttpsClient_new host port))) =
      (setCert cert (HttpsClient_new host port))\<lparr>hc_ssl_ctx := Some \<lparr>ctx_verify_peer = True\<rparr>\<rparr>)"
proof (rule conjI)
  let ?c = "HttpsClient_new host port"
  obtain ok c1 where i: "https_initializeSSL (fst ctx) (snd ctx) ?c = (ok, c1)" by force
  then have c1: "hc_ssl_ctx c1 = None \<or> hc_ssl_ctx c1 = Some \<lparr>ctx_verify_peer = False\<rparr>"
    by (auto simp: https_initializeSSL_def HttpsClient_new_def split: if_splits)
  have none: "hc_ssl_ctx ?c = None" by (simp add: HttpsClient_new_def)
  show "\<forall>r c w'. https_sendRequest ex ctx method path (?c, w) = Ret (r, c, w') \<longrightarrow>
      hc_ssl_ctx c = None \<or> hc_ssl_ctx c = Some \<lparr>ctx_verify_peer = False\<rparr>"
    using c1 none fail_context [of ?c] fail_context [of c1] exchange_context [of c1]
    by (auto simp: https_sendRequest_def i Let_def keeps_context_def split: if_splits)
qed (simp add: https_initializeSSL_def setCert_def HttpsClient_new_def)

text \<open>
  C40. A failed TLS handshake frees the TLS object twice: once by hand and once more in
  \<open>closeSocket\<close>, which still finds the pointer.
\<close>

theorem failed_handshake_frees_twice:
  assumes "0 \<le> ex_socket ex" "ex_host_found ex" "ex_options_set ex" "ex_connected ex" "hc_ssl_ctx c \<noteq> None"
    and "t_new (w_tls w) = True # ns" "t_handshakes (w_tls w) = Some e # hs"
  shows "https_sendRequest ex ctx method path (c, w) = Throw Invalid_pointer"
proof -
  obtain y where "hc_ssl_ctx c = Some y" using assms(5) by blast
  with assms show ?thesis
    by (simp add: https_sendRequest_def https_exchange_def https_fail_def https_closeSocket_def ssl_new_def
        ssl_handshake_def deref_def ssl_free_def Let_def)
qed

lemma readResponse_all:
  assumes "t_reads (w_tls w) = map Read ds @ [Read d]" "\<forall>x \<in> set ds. length x = READ_BUFFER_SIZE"
    and "d \<noteq> []" "length d < READ_BUFFER_SIZE" "hc_ssl c = Some s" "s \<in> t_live (w_tls w)" "0 \<le> sock"
  shows "https_readResponse sock response (c, w) = Ret (Expected (response @ concat ds @ d), c\<lparr>hc_ssl := None\<rparr>,
    sys_close sock (w\<lparr>w_tls := (w_tls w)\<lparr>t_used := insert s (t_used (w_tls w)), t_reads := [], t_live := t_live (w_tls w) - {s}\<rparr>\<rparr>))"
  using assms
proof (induction ds arbitrary: w response)
  case Nil
  then show ?case
    by (subst https_readResponse.simps)
      (simp add: ssl_read_def deref_def Let_def https_closeSocket_def ssl_free_def)
next
  case (Cons x ds)
  let ?w = "w\<lparr>w_tls := (w_tls w)\<lparr>t_used := insert s (t_used (w_tls w)), t_reads := map Read ds @ [Read d]\<rparr>\<rparr>"
  have x: "length x = READ_BUFFER_SIZE" "x \<noteq> []" using Cons.prems(2) by (auto simp: READ_BUFFER_SIZE_def)
  have "https_readResponse sock response (c, w) = https_readResponse sock (response @ x) (c, ?w)"
    using Cons.prems x
    by (subst https_readResponse.simps) (simp add: ssl_read_def deref_def Let_def)
  then show ?case
    using Cons.IH [of ?w "response @ x"] Cons.prems by simp
qed

text \<open>
  A request that goes well: the bytes written are the request line and headers, the result is
  all the data up to the first read that does not fill the buffer, the socket is closed and
  the TLS object freed, so nothing is left open.
\<close>

lemma https_request_clean:
  assumes "0 \<le> ex_socket ex" "ex_host_found ex" "ex_options_set ex" "ex_connected ex"
    and "hc_ssl_ctx c \<noteq> None \<or> fst (https_initializeSSL (fst ctx) (snd ctx) c)"
    and "tls_ok (w_tls w)" "ex_socket ex \<notin> w_open w"
    and "t_new (w_tls w) = [True]" "t_handshakes (w_tls w) = [None]" "t_writes (w_tls w) = [(n, e)]"
    and "length (request_text (hc_base c) method path) \<le> n"
    and "t_reads (w_tls w) = map Read ds @ [Read d]" "\<forall>x \<in> set ds. length x = READ_BUFFER_SIZE"
    and "d \<noteq> []" "length d < READ_BUFFER_SIZE"
  shows "\<exists>c' w'. https_sendRequest ex ctx method path (c, w) = Ret (Expected (concat ds @ d), c', w') \<and>
    hc_ssl c' = None \<and> w_open w' = w_open w \<and> t_live (w_tls w') = t_live (w_tls w) \<and>
    ssl_sent (t_next (w_tls w)) (w_tls w') = ssl_sent (t_next (w_tls w)) (w_tls w) @ request_text (hc_base c) method path"
proof -
  let ?s = "t_next (w_tls w)" and ?req = "request_text (hc_base c) method path"
  have new: "?s \<notin> t_live (w_tls w)" using assms(6) by (auto simp: tls_ok_def)
  have req: "0 < length ?req" by (simp add: request_text_def)
  let ?w = "w\<lparr>w_open := insert (ex_socket ex) (w_open w), w_tls := (w_tls w)\<lparr>t_next := ?s + 1, t_live := insert ?s (t_live (w_tls w)), t_new := [],
     t_established := insert ?s (t_established (w_tls w)), t_handshakes := [], t_used := insert ?s (t_used (w_tls w)),
     t_out := t_out (w_tls w) @ [(?s, ?req)], t_writes := []\<rparr>\<rparr>"
  obtain c1 where c1: "hc_base c1 = hc_base c" "https_sendRequest ex ctx method path (c, w) =
      https_exchange (ex_socket ex) method path (c1, w\<lparr>w_open := insert (ex_socket ex) (w_open w)\<rparr>)"
  proof (cases "hc_ssl_ctx c = None")
    case True
    then obtain c1 where i: "https_initializeSSL (fst ctx) (snd ctx) c = (True, c1)"
      using assms(5) by (cases "https_initializeSSL (fst ctx) (snd ctx) c") auto
    then have "hc_base c1 = hc_base c" by (auto simp: https_initializeSSL_def split: if_splits)
    then show thesis
      using assms(1-4) True i by (intro that [of c1]) (simp_all add: https_sendRequest_def Let_def)
  next
    case False
    then obtain y where "hc_ssl_ctx c = Some y" by blast
    then show thesis using assms(1-4) by (intro that [of c]) (simp_all add: https_sendRequest_def Let_def)
  qed
  then have "https_sendRequest ex ctx method path (c, w) = https_readResponse (ex_socket ex) [] (c1\<lparr>hc_ssl := Some ?s\<rparr>, ?w)"
    using assms(8-11) req
    by (simp add: https_exchange_def ssl_new_def ssl_handshake_def ssl_write_def deref_def Let_def)
  also have "\<dots> = Ret (Expected (concat ds @ d), c1\<lparr>hc_ssl := None\<rparr>, sys_close (ex_socket ex)
      (?w\<lparr>w_tls := (w_tls ?w)\<lparr>t_used := insert ?s (t_used (w_tls ?w)), t_reads := [], t_live := t_live (w_tls ?w) - {?s}\<rparr>\<rparr>))"
    using readResponse_all [of ?w ds d "c1\<lparr>hc_ssl := Some ?s\<rparr>" ?s "ex_socket ex" "[]"] assms(1,12-15) by simp
  finally show ?thesis
    using new assms(7) by (auto simp: sys_close_def ssl_sent_def)
qed

section \<open>Instances\<close>

definition https_world :: "ssl_error option \<Rightarrow> world" where
  "https_world err = \<lparr>w_open = {}, w_closed = [], w_out = [], w_sends = [],
     w_socks = (\<lambda>_. \<lparr>rq_pending = [], rq_end = At_eof\<rparr>), w_backlog = [], w_files = Map.empty,
     w_tls = tls_start\<lparr>t_new := [True], t_handshakes := [err], t_writes := [(4000, EAGAIN)], t_reads := [Read ''HTTP/1.0 200 OK'']\<rparr>\<rparr>"

definition https_sample :: Https_Client where
  "https_sample = (HttpsClient_new ''h'' 443)\<lparr>hc_ssl_ctx := Some \<lparr>ctx_verify_peer = False\<rparr>\<rparr>"

definition all_well :: exchange where
  "all_well = \<lparr>ex_socket = 5, ex_host_found = True, ex_options_set = True, ex_connected = True, ex_sent = 0, ex_recv = []\<rparr>"

theorem failed_handshake_frees_twice_witness:
  "https_sendRequest all_well (True, True) ''GET'' ''/'' (https_sample, https_world (Some (Ssl_error 1))) = Throw Invalid_pointer"
  by (rule failed_handshake_frees_twice [where ns = "[]" and hs = "[]" and e = "Ssl_error 1"])
    (simp_all add: all_well_def https_sample_def https_world_def)

lemma https_request_clean_witness:
  "\<exists>c' w'. https_sendRequest all_well (True, True) ''GET'' ''/'' (https_sample, https_world None) =
     Ret (Expected ''HTTP/1.0 200 OK'', c', w') \<and> w_open w' = {} \<and> t_live (w_tls w') = {}"
proof -
  have "length (request_text (hc_base https_sample) ''GET'' ''/'') \<le> 4000"
    by (simp add: request_text_def https_sample_def HttpsClient_new_def connection_value_def)
  from https_request_clean [OF _ _ _ _ _ _ _ _ _ _ this, where ex = all_well and ctx = "(True, True)" and w = "https_world None" and
      e = EAGAIN and ds = "[]" and d = "''HTTP/1.0 200 OK''"]
  show ?thesis
    by (auto simp: all_well_def https_sample_def https_world_def tls_start_def tls_ok_def READ_BUFFER_SIZE_def)
qed

lemma unset_cert_trusts_anyone_witness:
  "hc_ssl_ctx (snd (https_initializeSSL True True (setCert ''ca.pem'' (HttpsClient_new ''h'' 443)))) = Some \<lparr>ctx_verify_peer = True\<rparr>"
  using unset_cert_trusts_anyone [of all_well "(True, True)" "''GET''" "''/''" "''h''" 443 "https_world None" "''ca.pem''"] by simp

end
