(* ===== verification/Logger.thy ===== *)
theory Logger
  imports Http_Date
begin

text \<open>
  \<open>src/src/logger.h\<close>: the levels and their order, message formatting with \<open>{}\<close>
  placeholders, the time stamp, and the logger with its level and its optional log file. The
  logger's life is a sequence of operations. The configuration operations hold its mutex;
  \<open>log\<close> itself takes no lock, so with several threads this is the life of a logger whose
  callers do not overlap.
\<close>

section \<open>Levels\<close>

datatype Level = TRACE | DEBUG | INFO | WARNING | ERROR | CRITICAL

fun level_value :: "Level \<Rightarrow> nat" where
  "level_value TRACE = 0"
| "level_value DEBUG = 1"
| "level_value INFO = 2"
| "level_value WARNING = 3"
| "level_value ERROR = 4"
| "level_value CRITICAL = 5"

lemma level_value_inject: "level_value l = level_value m \<longleftrightarrow> l = m"
  by (cases l; cases m) simp_all

instantiation Level :: linorder
begin

definition less_eq_Level :: "Level \<Rightarrow> Level \<Rightarrow> bool" where
  "less_eq_Level l m \<longleftrightarrow> level_value l \<le> level_value m"

definition less_Level :: "Level \<Rightarrow> Level \<Rightarrow> bool" where
  "less_Level l m \<longleftrightarrow> level_value l < level_value m"

instance
  by intro_classes (auto simp: less_eq_Level_def less_Level_def level_value_inject)

end

fun level_name :: "Level \<Rightarrow> string" where
  "level_name TRACE = ''TRACE''"
| "level_name DEBUG = ''DEBUG''"
| "level_name INFO = ''INFO''"
| "level_name WARNING = ''WARNING''"
| "level_name ERROR = ''ERROR''"
| "level_name CRITICAL = ''CRITICAL''"

fun level_str :: "Level \<Rightarrow> string" where
  "level_str TRACE = ''[TRACE] ''"
| "level_str DEBUG = ''[DEBUG] ''"
| "level_str INFO = ''[INFO] ''"
| "level_str WARNING = ''[WARNING] ''"
| "level_str ERROR = ''[ERROR] ''"
| "level_str CRITICAL = ''[CRITICAL] ''"

section \<open>Formatting\<close>

text \<open>The arguments as \<open>ostringstream\<close> prints them. Each replaces the first \<open>{}\<close> of the text so far.\<close>

definition format_step :: "string \<Rightarrow> string \<Rightarrow> string" where
  "format_step result arg =
     (case find_str ''{}'' result 0 of None \<Rightarrow> result | Some pos \<Rightarrow> take pos result @ arg @ drop (pos + 2) result)"

definition Format :: "string \<Rightarrow> string list \<Rightarrow> string" where
  "Format fmt args = foldl format_step fmt args"

text \<open>\<open>strftime\<close> into 23 bytes, the terminator included, gives 0 when the text does not fit.\<close>

definition formatTime :: "tm \<Rightarrow> string" where
  "formatTime time_info =
     (let s = ''['' @ to_string (tm_year time_info) @ ''-'' @ two_digits (tm_mon time_info + 1) @ ''-'' @
            two_digits (tm_mday time_info) @ '' '' @ two_digits (tm_hour time_info) @ '':'' @
            two_digits (tm_min time_info) @ '':'' @ two_digits (tm_sec time_info) @ ''] ''
      in if length s < 23 then s else [])"

section \<open>The logger\<close>

text \<open>The log file is open or not; what was printed and what the files hold is kept as well.\<close>

record Logger =
  lg_file_logging_enabled :: bool
  lg_log_file :: "string option"
  lg_log_file_path :: string
  lg_current_level :: Level
  lg_stdout :: string
  lg_files :: "string \<Rightarrow> string"

definition Logger_new :: "(string \<Rightarrow> string) \<Rightarrow> Logger" where
  "Logger_new files =
     \<lparr>lg_file_logging_enabled = False, lg_log_file = None, lg_log_file_path = [], lg_current_level = INFO,
      lg_stdout = [], lg_files = files\<rparr>"

definition setLevel :: "Level \<Rightarrow> Logger \<Rightarrow> Logger" where
  "setLevel level lg = lg\<lparr>lg_current_level := level\<rparr>"

text \<open>\<open>openable\<close>: whether the file can be opened for appending.\<close>

definition enableFileLogging :: "bool \<Rightarrow> string \<Rightarrow> Logger \<Rightarrow> Logger" where
  "enableFileLogging openable filepath lg =
     (let lg = (if lg_log_file lg \<noteq> None then lg\<lparr>lg_log_file := None\<rparr> else lg);
          lg = lg\<lparr>lg_log_file_path := filepath, lg_log_file := (if openable then Some filepath else None)\<rparr>
      in lg\<lparr>lg_file_logging_enabled := (lg_log_file lg \<noteq> None)\<rparr>)"

definition default_log_path :: string where
  "default_log_path = ''./http-server.log''"

definition disableFileLogging :: "Logger \<Rightarrow> Logger" where
  "disableFileLogging lg =
     (let lg = lg\<lparr>lg_file_logging_enabled := False\<rparr>
      in if lg_log_file lg \<noteq> None then lg\<lparr>lg_log_file := None\<rparr> else lg)"

definition full_message :: "tm \<Rightarrow> Level \<Rightarrow> string \<Rightarrow> string list \<Rightarrow> string" where
  "full_message now level fmt args = formatTime now @ level_str level @ Format fmt args @ [LF]"

definition write_log :: "tm \<Rightarrow> Level \<Rightarrow> string \<Rightarrow> string list \<Rightarrow> Logger \<Rightarrow> Logger" where
  "write_log now level fmt args lg =
     (let msg = full_message now level fmt args; lg = lg\<lparr>lg_stdout := lg_stdout lg @ msg\<rparr>
      in case lg_log_file lg of
           Some p \<Rightarrow>
             if lg_file_logging_enabled lg then lg\<lparr>lg_files := (lg_files lg)(p := lg_files lg p @ msg)\<rparr> else lg
         | None \<Rightarrow> lg)"

text \<open>\<open>trace\<close> to \<open>critical\<close>: one shape, with the level as the argument.\<close>

definition log_at :: "Level \<Rightarrow> tm \<Rightarrow> string \<Rightarrow> string list \<Rightarrow> Logger \<Rightarrow> Logger" where
  "log_at level now fmt args lg = (if lg_current_level lg \<le> level then write_log now level fmt args lg else lg)"

datatype log_call =
    Set_level Level
  | Enable bool string
  | Disable
  | Log Level tm string "string list"

fun log_run :: "log_call \<Rightarrow> Logger \<Rightarrow> Logger" where
  "log_run (Set_level l) lg = setLevel l lg"
| "log_run (Enable openable p) lg = enableFileLogging openable p lg"
| "log_run Disable lg = disableFileLogging lg"
| "log_run (Log l now fmt args) lg = log_at l now fmt args lg"

section \<open>What is written where\<close>

definition logger_inv :: "Logger \<Rightarrow> bool" where
  "logger_inv lg \<longleftrightarrow>
     lg_log_file lg = (if lg_file_logging_enabled lg then Some (lg_log_file_path lg) else None)"

lemma logger_inv_run: "logger_inv lg \<Longrightarrow> logger_inv (log_run call lg)"
  by (cases call)
    (auto simp: logger_inv_def setLevel_def enableFileLogging_def disableFileLogging_def log_at_def write_log_def Let_def
      split: option.split if_splits)

interpretation logger_life: invariant_system "\<lambda>lg. lg = Logger_new files" "\<lambda>lg lg'. \<exists>call. lg' = log_run call lg" logger_inv
  for files
proof (unfold_locales, goal_cases)
  case (1 s)
  then show ?case by (simp add: logger_inv_def Logger_new_def)
next
  case (2 s s')
  then show ?case using logger_inv_run by blast
qed

text \<open>
  C32. A message goes where the logger says: in every state the logger can get into, a message at or
  above the current level is appended to standard output and, if file logging is enabled, to the
  file \<open>getLogFilePath\<close> names and to no other; a message below the level changes nothing.
\<close>

theorem logger_writes_where_it_says:
  assumes "(\<lambda>lg lg'. \<exists>call. lg' = log_run call lg)\<^sup>*\<^sup>* (Logger_new files) lg"
  shows "log_run (Log l now fmt args) lg =
    (if lg_current_level lg \<le> l then
       lg\<lparr>lg_stdout := lg_stdout lg @ full_message now l fmt args,
          lg_files := (if lg_file_logging_enabled lg
             then (lg_files lg)(lg_log_file_path lg := lg_files lg (lg_log_file_path lg) @ full_message now l fmt args)
             else lg_files lg)\<rparr>
     else lg)"
proof -
  have "logger_inv lg" using logger_life.inv_reachable [OF refl assms] .
  then show ?thesis by (auto simp: log_at_def write_log_def logger_inv_def Let_def)
qed

theorem logger_writes_where_it_says_witness:
  "\<forall>now. \<exists>lg. lg_file_logging_enabled lg \<and> lg_log_file_path lg = ''b.log'' \<and>
     lg_files (log_run (Log ERROR now ''x'' []) lg) = (\<lambda>_. [])(''b.log'' := full_message now ERROR ''x'' [])"
proof
  fix now
  let ?start = "Logger_new (\<lambda>_. [])"
  let ?lg = "log_run (Enable True ''b.log'') (log_run (Enable True ''a.log'') ?start)"
  let ?R = "\<lambda>lg lg'. \<exists>call. lg' = log_run call lg"
  have "?R\<^sup>*\<^sup>* ?start ?lg" by (blast intro: rtranclp.intros)
  from logger_writes_where_it_says [OF this, of ERROR now "''x''" "[]"]
  show "\<exists>lg. lg_file_logging_enabled lg \<and> lg_log_file_path lg = ''b.log'' \<and>
     lg_files (log_run (Log ERROR now ''x'' []) lg) = (\<lambda>_. [])(''b.log'' := full_message now ERROR ''x'' [])"
    by (intro exI [of _ ?lg]) (simp add: enableFileLogging_def Logger_new_def Let_def less_eq_Level_def)
qed

section \<open>Placeholders\<close>

definition template :: "string list \<Rightarrow> string" where
  "template ps = concat (map (\<lambda>p. ''{}'' @ p) ps)"

lemma format_step_template:
  assumes "CHR ''{'' \<notin> set q"
  shows "format_step (q @ template ps) arg =
    (case ps of [] \<Rightarrow> q | p # ps \<Rightarrow> q @ arg @ p @ template ps)"
  using assms find_sub_append [OF assms, of "''}''"] find_sub_absent [OF assms, of "''}''"]
  by (auto simp: format_step_def template_def find_str_def split: list.split)

text \<open>
  C33. Formatting fills the placeholders in order: with no brace in the literal pieces or the
  arguments, the k-th placeholder is replaced by the k-th argument, arguments in excess are
  dropped and placeholders in excess stay as they are.
\<close>

theorem format_fills_in_order:
  assumes "\<forall>s \<in> set (p # ps @ args). CHR ''{'' \<notin> set s"
  shows "Format (p @ template ps) args =
    p @ concat (map2 (\<lambda>a q. a @ q) args ps) @ template (drop (length args) ps)"
proof -
  have "CHR ''{'' \<notin> set q \<Longrightarrow> \<forall>s \<in> set (ps @ args). CHR ''{'' \<notin> set s \<Longrightarrow>
      foldl format_step (q @ template ps) args =
        q @ concat (map2 (\<lambda>a q. a @ q) args ps) @ template (drop (length args) ps)" for q
  proof (induction args arbitrary: q ps)
    case (Cons a args)
    show ?case
    proof (cases ps)
      case Nil
      with Cons.IH [of q "[]"] Cons.prems show ?thesis by (simp add: format_step_template) (simp add: template_def)
    next
      case (Cons r rs)
      with Cons.IH [of "q @ a @ r" rs] Cons.prems show ?thesis by (simp add: format_step_template)
    qed
  qed simp
  with assms show ?thesis by (simp add: Format_def)
qed

theorem format_fills_in_order_witness:
  "Format ''Server started on http://{}:{} in {}'' [''localhost'', ''8080''] = ''Server started on http://localhost:8080 in {}''"
  using format_fills_in_order [of "''Server started on http://''" "['':'', '' in '', []]" "[''localhost'', ''8080'']"]
  by (simp add: template_def)

text \<open>An argument that holds a placeholder itself is filled in by the next one.\<close>

lemma format_reads_arguments: "Format ''{} {}'' [''{}'', ''x''] = ''x {}''"
  by code_simp

text \<open>Five-digit years do not fit the buffer: no time stamp at all.\<close>

lemma time_stamp_fits:
  assumes "length (to_string (tm_year t)) = 4"
  shows "length (formatTime t) = 22"
  using assms by (simp add: formatTime_def two_digits_def)

end
