(* ===== verification/Ssl_Server.thy ===== *)
theory Ssl_Server
  imports Server
begin

text \<open>
  The TLS server, \<open>src/src/sslserver.h\<close>: a table of client connections, each with its TLS
  object and whether its handshake is done; accepting, the handshake state machine, one
  exchange over TLS, closing, stopping. The class inherits from \<open>Server\<close>, so its state holds
  one. The \<open>WebSocket\<close> operations that act on the connection are here as well, in the
  form a build with TLS gives them.
\<close>

section \<open>WebSocket objects on a TLS connection\<close>

definition ws_close :: "WebSocket \<Rightarrow> world \<Rightarrow> (WebSocket \<times> world) exec" where
  "ws_close ws w =
     (let w = sys_close (f_sockfd (ws_frame ws)) w
      in if f_ssl (ws_frame ws) \<noteq> None then
           and_then (of_result (ssl_free (f_ssl (ws_frame ws)) (w_tls w))) (\<lambda>t.
             Ret (ws\<lparr>ws_frame := (ws_frame ws)\<lparr>f_ssl := None\<rparr>\<rparr>, w\<lparr>w_tls := t\<rparr>))
         else Ret (ws, w))"

definition ws_is_open :: "WebSocket \<Rightarrow> world \<Rightarrow> (bool \<times> WebSocket \<times> world) exec" where
  "ws_is_open ws w =
     (let fd = f_sockfd (ws_frame ws); (alive, q) = isSocketAlive (w_socks w fd);
          w = w\<lparr>w_socks := (w_socks w)(fd := q)\<rparr>
      in if \<not> alive then and_then (ws_close ws w) (\<lambda>(ws, w). Ret (False, ws, w)) else Ret (True, ws, w))"

text \<open>\<open>SSLTransport::send\<close>: one \<open>SSL_write\<close>.\<close>

definition ws_send_ssl :: "WebSocket \<Rightarrow> string \<Rightarrow> FrameType \<Rightarrow> world \<Rightarrow> (int \<times> world) exec" where
  "ws_send_ssl ws msg ty w =
     and_then (of_result (ssl_write (f_ssl (ws_frame ws)) (from_bytes (send_buffer msg ty)) (w_tls w))) (\<lambda>r.
       case r of None \<Rightarrow> Spin | Some (n, e, t) \<Rightarrow> Ret (int n, w\<lparr>w_tls := t\<rparr>))"

section \<open>State\<close>

record ClientConnection =
  cc_fd :: int
  cc_ssl :: "ssl option"
  cc_handshake_completed :: bool

definition no_connection :: ClientConnection where
  "no_connection = \<lparr>cc_fd = - 1, cc_ssl = None, cc_handshake_completed = False\<rparr>"

record SSLServer =
  ss_server :: Server
  ss_cert_file :: string
  ss_key_file :: string
  ss_ctx :: bool
  ss_clients :: "int \<rightharpoonup> ClientConnection"

definition SSLServer_new :: "string \<Rightarrow> int \<Rightarrow> string \<Rightarrow> string \<Rightarrow> SSLServer" where
  "SSLServer_new host port cert_file key_file =
     \<lparr>ss_server = Server_new host port, ss_cert_file = cert_file, ss_key_file = key_file,
      ss_ctx = False, ss_clients = Map.empty\<rparr>"

text \<open>\<open>ssl_clients_[fd]\<close> inserts a blank connection where there is none.\<close>

definition client_at :: "int \<Rightarrow> SSLServer \<Rightarrow> ClientConnection \<times> SSLServer" where
  "client_at fd ss =
     (case ss_clients ss fd of
        Some c \<Rightarrow> (c, ss)
      | None \<Rightarrow> (no_connection, ss\<lparr>ss_clients := (ss_clients ss)(fd \<mapsto> no_connection)\<rparr>))"

section \<open>Starting\<close>

text \<open>Whether the calls on the new context succeed: \<open>SSL_CTX_new\<close>, then certificate, key and their match.\<close>

record ssl_setup =
  su_ctx :: bool
  su_cert :: bool
  su_key :: bool
  su_match :: bool

definition initializeSSL :: "ssl_setup \<Rightarrow> SSLServer \<Rightarrow> bool \<times> SSLServer" where
  "initializeSSL su ss =
     (let ss = ss\<lparr>ss_ctx := su_ctx su\<rparr>
      in if \<not> su_ctx su then (False, ss)
         else if \<not> su_cert su then (False, ss)
         else if \<not> su_key su then (False, ss)
         else if \<not> su_match su then (False, ss)
         else (True, ss))"

text \<open>The exit status of \<open>run\<close>, or the state it enters the loop with.\<close>

datatype ssl_startup = Ssl_return int | Ssl_serving SSLServer

definition ssl_run_setup :: "ssl_setup \<Rightarrow> int \<Rightarrow> bool \<Rightarrow> bool \<Rightarrow> bool \<Rightarrow> SSLServer \<Rightarrow> ssl_startup" where
  "ssl_run_setup su fd opt_ok bind_ok listen_ok ss =
     (let (ok, ss) = initializeSSL su ss
      in if \<not> ok then Ssl_return 1
         else (let ss = ss\<lparr>ss_server := (ss_server ss)\<lparr>sv_sockfd := fd\<rparr>\<rparr>
               in if fd < 0 then Ssl_return 2
                  else if \<not> opt_ok then Ssl_return 3
                  else if \<not> bind_ok then Ssl_return 4
                  else if \<not> listen_ok then Ssl_return 5
                  else Ssl_serving (ss\<lparr>ss_server := (ss_server ss)\<lparr>sv_running := True\<rparr>\<rparr>)))"

section \<open>Accepting\<close>

text \<open>One connection a call. \<open>SSL_new\<close> on a null context gives null.\<close>

definition ssl_handleListenSocket :: "SSLServer \<Rightarrow> world \<Rightarrow> SSLServer \<times> world" where
  "ssl_handleListenSocket ss w =
     (case sys_accept w of
        (Accept_failed e, w) \<Rightarrow> (ss, w)
      | (Accepted clientfd, w) \<Rightarrow>
          (case (if ss_ctx ss then ssl_new (w_tls w) else (None, w_tls w)) of
             (Some s, t) \<Rightarrow>
               (ss\<lparr>ss_clients := (ss_clients ss)(clientfd \<mapsto>
                    \<lparr>cc_fd = clientfd, cc_ssl = Some s, cc_handshake_completed = False\<rparr>)\<rparr>, w\<lparr>w_tls := t\<rparr>)
           | (None, t) \<Rightarrow> (ss, sys_close clientfd (w\<lparr>w_tls := t\<rparr>))))"

section \<open>Reading and writing\<close>

text \<open>The count, 0 to wait for more, or -1; and the bytes. One byte of the buffer stays free.\<close>

definition SSLRead :: "ClientConnection \<Rightarrow> nat \<Rightarrow> world \<Rightarrow> ((int \<times> string) \<times> world) exec" where
  "SSLRead client len w =
     and_then (of_result (ssl_read (len - 1) (cc_ssl client) (w_tls w))) (\<lambda>(r, t).
       Ret (case r of
              Read d \<Rightarrow> (int (length d), d)
            | Read_failed e \<Rightarrow> if e = Want_read \<or> e = Want_write then (0, []) else (- 1, []),
            w\<lparr>w_tls := t\<rparr>))"

text \<open>The count or -1, and \<open>errno\<close>; \<open>Spin\<close> once the script of write outcomes is used up.\<close>

definition SSLWrite :: "ClientConnection \<Rightarrow> string \<Rightarrow> world \<Rightarrow> ((int \<times> errno) \<times> world) exec" where
  "SSLWrite client data w =
     and_then (of_result (ssl_write (cc_ssl client) data (w_tls w))) (\<lambda>r.
       case r of
         None \<Rightarrow> Spin
       | Some (n, e, t) \<Rightarrow> Ret ((if 0 < n then int n else - 1, e), w\<lparr>w_tls := t\<rparr>))"

lemma SSLWrite_script:
  "SSLWrite c data w = Ret (r, w') \<Longrightarrow> length (t_writes (w_tls w')) < length (t_writes (w_tls w))"
  by (auto simp: SSLWrite_def and_then_Ret ssl_write_def split: sum.splits list.splits option.splits)

function ssl_sendAll :: "ClientConnection \<Rightarrow> string \<Rightarrow> world \<Rightarrow> (bool \<times> world) exec" where
  "ssl_sendAll client data w =
     (case SSLWrite client data w of
        Throw e \<Rightarrow> Throw e
      | Spin \<Rightarrow> Spin
      | Ret ((written, errno), w') \<Rightarrow>
          if written = - 1 then
            (if errno = EAGAIN \<or> errno = EWOULDBLOCK then ssl_sendAll client data w' else Ret (False, w'))
          else (let rest = drop (nat written) data
                in if rest = [] then Ret (True, w') else ssl_sendAll client rest w'))"
  by pat_completeness auto

termination
  by (relation "measure (\<lambda>(client, data, w). length (t_writes (w_tls w)))") (auto dest: SSLWrite_script)

declare ssl_sendAll.simps [simp del]

definition ssl_sendResponse :: "int \<Rightarrow> string \<Rightarrow> SSLServer \<times> world \<Rightarrow> (bool \<times> SSLServer \<times> world) exec" where
  "ssl_sendResponse sd body = (\<lambda>(ss, w).
     let (client, ss) = client_at sd ss
     in and_then (ssl_sendAll client body w) (\<lambda>(ok, w). Ret (ok, ss, w)))"

section \<open>Closing\<close>

definition closeClient :: "int \<Rightarrow> SSLServer \<times> world \<Rightarrow> (SSLServer \<times> world) exec" where
  "closeClient fd = (\<lambda>(ss, w).
     case ss_clients ss fd of
       None \<Rightarrow> Ret (ss, w)
     | Some client \<Rightarrow>
         and_then (of_result (ssl_free (cc_ssl client) (w_tls w))) (\<lambda>t.
           let w = w\<lparr>w_tls := t\<rparr>; w = (if cc_fd client \<noteq> - 1 then sys_close (cc_fd client) w else w)
           in Ret (ss\<lparr>ss_clients := (ss_clients ss)(fd := None)\<rparr>, w)))"

fun closeClients :: "int list \<Rightarrow> SSLServer \<times> world \<Rightarrow> (SSLServer \<times> world) exec" where
  "closeClients [] st = Ret st"
| "closeClients (fd # fds) st = and_then (closeClient fd st) (closeClients fds)"

text \<open>\<open>order\<close> is the order in which the iteration over the hash map meets its keys.\<close>

definition ssl_stop :: "int list \<Rightarrow> SSLServer \<times> world \<Rightarrow> (SSLServer \<times> world) exec" where
  "ssl_stop order = (\<lambda>(ss, w).
     let ss = ss\<lparr>ss_server := (ss_server ss)\<lparr>sv_running := False\<rparr>\<rparr>
     in and_then (closeClients order (ss, w)) (\<lambda>(ss, w).
          if sv_sockfd (ss_server ss) \<noteq> - 1 then
            Ret (ss\<lparr>ss_server := (ss_server ss)\<lparr>sv_sockfd := - 1\<rparr>\<rparr>, sys_close (sv_sockfd (ss_server ss)) w)
          else Ret (ss, w)))"

text \<open>The destructor: \<open>stop\<close>, then \<open>SSL_CTX_free\<close> on a context there is.\<close>

definition SSLServer_destroy :: "int list \<Rightarrow> SSLServer \<times> world \<Rightarrow> (SSLServer \<times> world) exec" where
  "SSLServer_destroy order st =
     and_then (ssl_stop order st) (\<lambda>(ss, w). Ret (if ss_ctx ss then ss\<lparr>ss_ctx := False\<rparr> else ss, w))"

section \<open>One exchange\<close>

definition ssl_dispatchWebSocket ::
  "uninitialised \<Rightarrow> int \<Rightarrow> string \<Rightarrow> SSLServer \<times> world \<Rightarrow> (SSLServer \<times> world) exec" where
  "ssl_dispatchWebSocket u sd raw_request = (\<lambda>(ss, w).
     case getWsRouteBySocketId sd (sv_wsRoutes (ss_server ss)) of
       None \<Rightarrow> Ret (ss, w)
     | Some route \<Rightarrow>
         (let (client, ss) = client_at sd ss
          in and_then (wr_handler route
                 (WebSocket_new_ssl sd (cc_ssl client) raw_request (wr_query route) (un_masking_key u)) w)
               (\<lambda>w. Ret (ss, w))))"

definition ssl_answer ::
  "int \<Rightarrow> Request \<Rightarrow> Response \<Rightarrow> SSLServer \<times> world \<Rightarrow> (SSLServer \<times> world) exec" where
  "ssl_answer sd req res = (\<lambda>(ss, w).
     and_then (of_result (handleRoute w (ss_server ss) req res)) (\<lambda>body_opt.
       case body_opt of
         None \<Rightarrow> Ret (ss, w)
       | Some body \<Rightarrow> and_then (ssl_sendResponse sd body (ss, w)) (\<lambda>(_, st). Ret st)))"

definition ssl_performRequest ::
  "uninitialised \<Rightarrow> int \<Rightarrow> string \<Rightarrow> SSLServer \<times> world \<Rightarrow> (SSLServer \<times> world) exec" where
  "ssl_performRequest u sd raw_request = (\<lambda>(ss, w).
     let req = Request_new raw_request;
         (client, ss) = client_at sd ss;
         sv = ss_server ss;
         res = Response_new_ssl (sv_default_headers sv) (cc_ssl client) (un_content_type u) (un_sockfd u);
         res = run_hook (sv_pre_routing_handler sv) req res
     in if sv_wsRoutes sv \<noteq> [] then
          (case getWebSocketFrame raw_request of
             Some opcode \<Rightarrow>
               if opcode = Close then Ret (ss, closeSocket sd w)
               else ssl_dispatchWebSocket u sd raw_request (ss, w)
           | None \<Rightarrow>
               and_then (processWebsocketHandshake ssl_sendResponse sd req (ss, w)) (\<lambda>(accepted, ss, w).
                 if accepted then
                   (let ss = ss\<lparr>ss_server := (ss_server ss)\<lparr>sv_wsRoutes :=
                          snd (updateWsRoute (req_normalize_path req) (req_query req) sd (sv_wsRoutes (ss_server ss)))\<rparr>\<rparr>
                    in ssl_dispatchWebSocket u sd raw_request (ss, w))
                 else ssl_answer sd req res (ss, w)))
        else ssl_answer sd req res (ss, w))"

section \<open>One client\<close>

text \<open>The handshake phase, then, once it is done, the data phase in the same call.\<close>

definition ssl_data_phase ::
  "uninitialised \<Rightarrow> int \<Rightarrow> SSLServer \<Rightarrow> world \<Rightarrow> int list \<Rightarrow> (SSLServer \<times> world \<times> int list) exec" where
  "ssl_data_phase u fd ss w closed =
     (let (client, ss) = client_at fd ss
      in and_then (SSLRead client READ_BUFFER_SIZE w) (\<lambda>((nread, buffer), w).
           if 0 < nread then and_then (ssl_performRequest u fd buffer (ss, w)) (\<lambda>(ss, w). Ret (ss, w, closed))
           else if nread < 0 then Ret (ss, w, closed @ [fd])
           else Ret (ss, w, closed)))"

definition ssl_handleClientSocket ::
  "uninitialised \<Rightarrow> int \<Rightarrow> SSLServer \<Rightarrow> world \<Rightarrow> int list \<Rightarrow> (SSLServer \<times> world \<times> int list) exec" where
  "ssl_handleClientSocket u fd ss w closed =
     (case ss_clients ss fd of
        None \<Rightarrow> Ret (ss, w, closed)
      | Some client \<Rightarrow>
          if \<not> cc_handshake_completed client then
            and_then (of_result (ssl_handshake (cc_ssl client) (w_tls w))) (\<lambda>(err, t).
              let w = w\<lparr>w_tls := t\<rparr>
              in case err of
                   None \<Rightarrow> ssl_data_phase u fd (ss\<lparr>ss_clients := (ss_clients ss)(fd \<mapsto>
                               client\<lparr>cc_handshake_completed := True\<rparr>)\<rparr>) w closed
                 | Some e \<Rightarrow>
                     if e \<noteq> Want_read \<and> e \<noteq> Want_write then Ret (ss, w, closed @ [fd]) else Ret (ss, w, closed))
          else ssl_data_phase u fd ss w closed)"

end
