(* ===== verification/Ssl_Loop.thy ===== *)
theory Ssl_Loop
  imports Ssl_Server Server_Loop
begin

text \<open>
  The event loop of the TLS server (\<open>SSLServer::handleRequests\<close>) as a step relation, and the
  invariant of its table of connections: who owns which descriptor and which TLS object, and
  that data only flows after a handshake.
\<close>

section \<open>One round\<close>

fun ssl_process ::
  "uninitialised \<Rightarrow> int list \<Rightarrow> SSLServer \<Rightarrow> world \<Rightarrow> int list \<Rightarrow> (SSLServer \<times> world \<times> int list) exec" where
  "ssl_process u [] ss w dead = Ret (ss, w, dead)"
| "ssl_process u (fd # fds) ss w dead =
     (if fd = sv_sockfd (ss_server ss) then
        (let (ss, w) = ssl_handleListenSocket ss w in ssl_process u fds ss w dead)
      else and_then (ssl_handleClientSocket u fd ss w dead) (\<lambda>(ss, w, dead). ssl_process u fds ss w dead))"

text \<open>
  \<open>order\<close> is the order in which the hash map yields its keys. Only descriptors with \<open>POLLIN\<close>
  are looked at; a failed \<open>poll\<close> is simply tried again.
\<close>

definition ssl_poll_round ::
  "uninitialised \<Rightarrow> int list \<Rightarrow> poll_result \<Rightarrow> SSLServer \<Rightarrow> world \<Rightarrow> (SSLServer \<times> world) exec" where
  "ssl_poll_round u order rc ss w =
     (case rc of
        Poll_failed e \<Rightarrow> Ret (ss, w)
      | Ready ev \<Rightarrow>
          and_then (ssl_process u (filter (\<lambda>fd. rv_in (ev fd)) (sv_sockfd (ss_server ss) # order)) ss w [])
            (\<lambda>(ss, w, dead). closeClients dead (ss, w)))"

definition enumerates :: "int list \<Rightarrow> SSLServer \<Rightarrow> bool" where
  "enumerates order ss \<longleftrightarrow> distinct order \<and> set order = dom (ss_clients ss)"

text \<open>\<open>accept\<close> hands out numbers that are free and not negative.\<close>

definition backlog_valid :: "world \<Rightarrow> bool" where
  "backlog_valid w \<longleftrightarrow> backlog_fresh w \<and> (\<forall>fd \<in> set (accepted_fds (w_backlog w)). 0 \<le> fd)"

inductive ssl_step :: "uninitialised \<Rightarrow> SSLServer \<times> world \<Rightarrow> SSLServer \<times> world \<Rightarrow> bool" for u where
  ssl_outside: "environment w w' \<Longrightarrow> ssl_step u (ss, w) (ss, w')"
| ssl_round: "sv_running (ss_server ss) \<Longrightarrow> backlog_valid w \<Longrightarrow> enumerates order ss \<Longrightarrow>
    ssl_poll_round u order rc ss w = Ret (ss', w') \<Longrightarrow> ssl_step u (ss, w) (ss', w')"

inductive_cases ssl_stepE: "ssl_step u (ss, w) (ss', w')"

section \<open>The invariant\<close>

text \<open>The same table and descriptors, a TLS state that only moved forward.\<close>

definition tls_forward :: "tls \<Rightarrow> tls \<Rightarrow> bool" where
  "tls_forward t t' \<longleftrightarrow> t_live t' = t_live t \<and> t_established t \<subseteq> t_established t' \<and> tls_ok t'"

definition quiet :: "world \<Rightarrow> world \<Rightarrow> bool" where
  "quiet w w' \<longleftrightarrow> tls_forward (w_tls w) (w_tls w') \<and> w_open w' = w_open w \<and> w_closed w' = w_closed w"

lemma quiet_refl: "tls_ok (w_tls w) \<Longrightarrow> quiet w w"
  by (simp add: quiet_def tls_forward_def)

lemma quiet_trans: "quiet w w' \<Longrightarrow> quiet w' w'' \<Longrightarrow> quiet w w''"
  by (auto simp: quiet_def tls_forward_def)

text \<open>
  What a WebSocket handler may do on an established connection: read and send, but not close or
  free anything.
\<close>

definition ws_keeps :: "ws_handler \<Rightarrow> bool" where
  "ws_keeps h \<longleftrightarrow>
     (\<forall>ws w s. f_ssl (ws_frame ws) = Some s \<and> s \<in> t_live (w_tls w) \<and> s \<in> t_established (w_tls w) \<and> tls_ok (w_tls w) \<longrightarrow>
        yields (quiet w) (h ws w))"

definition handlers_keep :: "Server \<Rightarrow> bool" where
  "handlers_keep sv \<longleftrightarrow> (\<forall>h \<in> wr_handler ` set (sv_wsRoutes sv). ws_keeps h)"

definition ssl_at :: "SSLServer \<Rightarrow> int \<rightharpoonup> ssl" where
  "ssl_at ss fd = Option.bind (ss_clients ss fd) cc_ssl"

lemma ssl_at_simps [simp]:
  "ssl_at (ss\<lparr>ss_clients := (ss_clients ss)(fd := x)\<rparr>) = (ssl_at ss)(fd := Option.bind x cc_ssl)"
  "ssl_at (ss\<lparr>ss_server := sv\<rparr>) = ssl_at ss"
  by (auto simp: ssl_at_def fun_eq_iff)

definition client_ok :: "tls \<Rightarrow> int \<Rightarrow> ClientConnection \<Rightarrow> bool" where
  "client_ok t fd c \<longleftrightarrow>
     cc_fd c = fd \<and> fd \<noteq> - 1 \<and>
     (\<exists>s. cc_ssl c = Some s \<and> s \<in> t_live t \<and> (cc_handshake_completed c \<longrightarrow> s \<in> t_established t))"

text \<open>
  Every entry owns a live TLS object of its own, and what is open is the listening socket or in the
  table. Without WebSocket routes (\<open>tight\<close>) the table is exact: all it names is open, all that is
  live is in it, and no \<open>close\<close> has failed. With them a Close frame closes a descriptor whose entry
  stays.
\<close>

definition ssl_inv :: "bool \<Rightarrow> SSLServer \<times> world \<Rightarrow> bool" where
  "ssl_inv tight = (\<lambda>(ss, w).
     handlers_keep (ss_server ss) \<and> sv_sockfd (ss_server ss) \<noteq> - 1 \<and> ss_ctx ss \<and>
     sv_sockfd (ss_server ss) \<notin> dom (ss_clients ss) \<and>
     (\<forall>fd c. ss_clients ss fd = Some c \<longrightarrow> client_ok (w_tls w) fd c) \<and>
     inj_on (ssl_at ss) (dom (ssl_at ss)) \<and> ran (ssl_at ss) \<subseteq> t_live (w_tls w) \<and> tls_ok (w_tls w) \<and>
     w_open w \<subseteq> insert (sv_sockfd (ss_server ss)) (dom (ss_clients ss)) \<and> sv_sockfd (ss_server ss) \<in> w_open w \<and>
     (tight \<longrightarrow> sv_wsRoutes (ss_server ss) = [] \<and> t_live (w_tls w) \<subseteq> ran (ssl_at ss) \<and> dom (ss_clients ss) \<subseteq> w_open w \<and>
        (\<forall>(fd, ok) \<in> set (w_closed w). ok)))"

lemma ssl_invD:
  assumes "ssl_inv tight (ss, w)"
  shows "handlers_keep (ss_server ss)" "sv_sockfd (ss_server ss) \<noteq> - 1" "ss_ctx ss"
    "sv_sockfd (ss_server ss) \<notin> dom (ss_clients ss)"
    "\<And>fd c. ss_clients ss fd = Some c \<Longrightarrow> client_ok (w_tls w) fd c"
    "inj_on (ssl_at ss) (dom (ssl_at ss))" "ran (ssl_at ss) \<subseteq> t_live (w_tls w)" "tls_ok (w_tls w)"
    "w_open w \<subseteq> insert (sv_sockfd (ss_server ss)) (dom (ss_clients ss))" "sv_sockfd (ss_server ss) \<in> w_open w"
    "tight \<Longrightarrow> sv_wsRoutes (ss_server ss) = []" "tight \<Longrightarrow> t_live (w_tls w) \<subseteq> ran (ssl_at ss)"
    "tight \<Longrightarrow> dom (ss_clients ss) \<subseteq> w_open w" "tight \<Longrightarrow> \<forall>(fd, ok) \<in> set (w_closed w). ok"
  using assms by (auto simp: ssl_inv_def)

lemma ssl_invI:
  assumes "handlers_keep (ss_server ss)" "sv_sockfd (ss_server ss) \<noteq> - 1" "ss_ctx ss"
    "sv_sockfd (ss_server ss) \<notin> dom (ss_clients ss)"
    "\<And>fd c. ss_clients ss fd = Some c \<Longrightarrow> client_ok (w_tls w) fd c"
    "inj_on (ssl_at ss) (dom (ssl_at ss))" "ran (ssl_at ss) \<subseteq> t_live (w_tls w)" "tls_ok (w_tls w)"
    "w_open w \<subseteq> insert (sv_sockfd (ss_server ss)) (dom (ss_clients ss))" "sv_sockfd (ss_server ss) \<in> w_open w"
    "tight \<Longrightarrow> sv_wsRoutes (ss_server ss) = []" "tight \<Longrightarrow> t_live (w_tls w) \<subseteq> ran (ssl_at ss)"
    "tight \<Longrightarrow> dom (ss_clients ss) \<subseteq> w_open w" "tight \<Longrightarrow> \<forall>(fd, ok) \<in> set (w_closed w). ok"
  shows "ssl_inv tight (ss, w)"
  using assms unfolding ssl_inv_def by blast

lemma ssl_inv_forward:
  assumes "ssl_inv tight (ss, w)" "tls_forward (w_tls w) (w_tls w')" "w_open w' = w_open w" "w_closed w' = w_closed w"
  shows "ssl_inv tight (ss, w')"
  using assms by (fastforce simp: ssl_inv_def tls_forward_def client_ok_def)

lemma ssl_inv_quiet: "ssl_inv tight (ss, w) \<Longrightarrow> quiet w w' \<Longrightarrow> ssl_inv tight (ss, w')"
  using ssl_inv_forward by (auto simp: quiet_def)

text \<open>A change of the routes that keeps their handlers, and a close outside the table's knowledge.\<close>

lemma ssl_inv_routes:
  assumes "ssl_inv tight (ss, w)" "sv_wsRoutes (ss_server ss) \<noteq> []" "wr_handler ` set rs = wr_handler ` set (sv_wsRoutes (ss_server ss))"
  shows "ssl_inv tight (ss\<lparr>ss_server := (ss_server ss)\<lparr>sv_wsRoutes := rs\<rparr>\<rparr>, w)"
proof -
  have r: "sv_wsRoutes ((ss_server ss)\<lparr>sv_wsRoutes := rs\<rparr>) = rs" by simp
  have "handlers_keep ((ss_server ss)\<lparr>sv_wsRoutes := rs\<rparr>)"
    using ssl_invD(1) [OF assms(1)] unfolding handlers_keep_def r assms(3) .
  then show ?thesis using assms(1,2) by (simp add: ssl_inv_def)
qed

lemma ssl_inv_close:
  assumes "ssl_inv tight (ss, w)" "sv_wsRoutes (ss_server ss) \<noteq> []" "fd \<noteq> sv_sockfd (ss_server ss)"
  shows "ssl_inv tight (ss, sys_close fd w)"
  using assms by (auto simp: ssl_inv_def sys_close_def)

lemma client_at_present: "ss_clients ss fd = Some c \<Longrightarrow> client_at fd ss = (c, ss)"
  by (simp add: client_at_def)

section \<open>Every operation keeps the invariant\<close>

lemma ssl_listen_inv:
  assumes "ssl_inv tight (ss, w)" "backlog_valid w" "ssl_handleListenSocket ss w = (ss', w')"
  shows "ssl_inv tight (ss', w') \<and> dom (ss_clients ss) \<subseteq> dom (ss_clients ss') \<and> ss_server ss' = ss_server ss"
proof -
  note inv = ssl_invD [OF assms(1)]
  obtain r w1 where a: "sys_accept w = (r, w1)" by force
  show ?thesis
  proof (cases r)
    case (Accept_failed e)
    with a have "w_open w1 = w_open w" "w_closed w1 = w_closed w" "w_tls w1 = w_tls w"
      by (auto simp: sys_accept_def split: list.splits accept_outcome.splits)
    then have "ssl_inv tight (ss, w1)"
      using ssl_inv_forward [OF assms(1)] inv(8) by (simp add: tls_forward_def)
    with assms(3) a Accept_failed show ?thesis by (simp add: ssl_handleListenSocket_def)
  next
    case (Accepted fd)
    from a Accepted obtain bs where b: "w_backlog w = Accepted fd # bs"
      "w1 = w\<lparr>w_open := insert fd (w_open w), w_backlog := bs\<rparr>"
      by (auto simp: sys_accept_def split: list.splits accept_outcome.splits)
    with assms(2) have fd: "fd \<notin> w_open w" "fd \<noteq> - 1"
      by (auto simp: backlog_valid_def backlog_fresh_def accepted_fds_def)
    obtain p t where n: "ssl_new (w_tls w) = (p, t)" by force
    note ok = ssl_new_ok [OF inv(8) n]
    show ?thesis
    proof (cases p)
      case None
      with assms(3) a Accepted n inv(3) b have
        "ss' = ss" "w' = sys_close fd (w1\<lparr>w_tls := t\<rparr>)"
        by (auto simp: ssl_handleListenSocket_def)
      moreover have "ssl_inv tight (ss, sys_close fd (w1\<lparr>w_tls := t\<rparr>))"
        using ssl_inv_forward [OF assms(1), of "(sys_close fd (w1\<lparr>w_tls := t\<rparr>))\<lparr>w_closed := w_closed w\<rparr>"]
          ok None b fd
        by (auto simp: tls_forward_def ssl_inv_def sys_close_def)
      ultimately show ?thesis by simp
    next
      case (Some s)
      let ?c = "\<lparr>cc_fd = fd, cc_ssl = Some s, cc_handshake_completed = False\<rparr>"
      let ?ss = "ss\<lparr>ss_clients := (ss_clients ss)(fd \<mapsto> ?c)\<rparr>"
      from assms(3) a Accepted n inv(3) Some b have r: "ss' = ?ss" "w' = w1\<lparr>w_tls := t\<rparr>"
        by (auto simp: ssl_handleListenSocket_def)
      have new: "s \<notin> ran (ssl_at ss)" "fd \<noteq> sv_sockfd (ss_server ss)"
        using fd inv(7,10) ok Some by auto
      have live: "ran (ssl_at ?ss) \<subseteq> t_live t" "inj_on (ssl_at ?ss) (dom (ssl_at ?ss))"
        using ok Some inv(7) inj_map_insert [OF inv(6) new(1)] by (auto simp: ran_def split: if_splits)
      have clients: "client_ok t fd' c" if "ss_clients ?ss fd' = Some c" for fd' c
        using that inv(5) [of fd' c] ok Some fd by (auto simp: client_ok_def split: if_splits)
      have tight: "t_live t \<subseteq> ran (ssl_at ?ss)" "ss_clients ss fd = None" if tight
      proof -
        show "ss_clients ss fd = None" using inv(13) [OF that] fd by blast
        then have "ssl_at ss fd = None" by (simp add: ssl_at_def)
        then show "t_live t \<subseteq> ran (ssl_at ?ss)" using ok Some inv(12) [OF that] by auto
      qed
      have "ssl_inv tight (?ss, w1\<lparr>w_tls := t\<rparr>)"
      proof (rule ssl_invI)
        show "client_ok (w_tls (w1\<lparr>w_tls := t\<rparr>)) fd' c" if "ss_clients ?ss fd' = Some c" for fd' c
          using clients [OF that] by simp
        show "inj_on (ssl_at ?ss) (dom (ssl_at ?ss))" "ran (ssl_at ?ss) \<subseteq> t_live (w_tls (w1\<lparr>w_tls := t\<rparr>))"
          using live by simp_all
        show "t_live (w_tls (w1\<lparr>w_tls := t\<rparr>)) \<subseteq> ran (ssl_at ?ss)" "dom (ss_clients ?ss) \<subseteq> w_open (w1\<lparr>w_tls := t\<rparr>)" if tight
          using tight(1) [OF that] inv(13) [OF that] b by auto
      qed (use ok b inv(1-4,9-11,14) new in auto)
      with r show ?thesis by auto
    qed
  qed
qed

text \<open>A connection that can carry data.\<close>

definition ready :: "tls \<Rightarrow> ClientConnection \<Rightarrow> bool" where
  "ready t c \<longleftrightarrow> tls_ok t \<and> (\<exists>s. cc_ssl c = Some s \<and> s \<in> t_live t \<and> s \<in> t_established t)"

lemma ready_quiet: "ready (w_tls w) c \<Longrightarrow> quiet w w' \<Longrightarrow> ready (w_tls w') c"
  by (auto simp: ready_def quiet_def tls_forward_def)

lemma SSLWrite_ready:
  assumes "ready (w_tls w) c"
  shows "yields (\<lambda>((written, e), w'). quiet w w') (SSLWrite c data w)"
proof -
  obtain s where s: "cc_ssl c = Some s" "s \<in> t_live (w_tls w)" "s \<in> t_established (w_tls w)" "tls_ok (w_tls w)"
    using assms by (auto simp: ready_def)
  obtain r where r: "ssl_write (cc_ssl c) data (w_tls w) = Inr r"
    using s by (auto simp: ssl_write_def deref_def)
  show ?thesis
  proof (cases r)
    case (Some x)
    obtain n e t where x: "x = (n, e, t)" by (cases x)
    with r Some have "ssl_write (Some s) data (w_tls w) = Inr (Some (n, e, t))" by (simp add: s)
    from ssl_write_ok [OF s(4) this] s Some x r show ?thesis
      by (simp add: SSLWrite_def quiet_def tls_forward_def)
  qed (simp add: SSLWrite_def r)
qed

lemma ssl_sendAll_ready:
  "ready (w_tls w) c \<Longrightarrow> yields (\<lambda>(ok, w'). quiet w w') (ssl_sendAll c data w)"
proof (induction c data w rule: ssl_sendAll.induct)
  case (1 c data w)
  note wr = SSLWrite_ready [OF "1.prems", of data]
  show ?case
  proof (cases "SSLWrite c data w")
    case (Ret x)
    obtain n e w1 where x: "x = ((n, e), w1)" by (metis surj_pair)
    have q: "quiet w w1" using wr Ret x by simp
    note rd = ready_quiet [OF "1.prems" q]
    have IH1: "yields (\<lambda>(ok, w'). quiet w w') (ssl_sendAll c data w1)"
      if "n = - 1" "e = EAGAIN \<or> e = EWOULDBLOCK"
      using "1.IH"(1) [OF Ret x [symmetric] refl that rd] quiet_trans [OF q] by (auto elim!: yields_mono)
    have IH2: "yields (\<lambda>(ok, w'). quiet w w') (ssl_sendAll c (drop (nat n) data) w1)"
      if "n \<noteq> - 1" "drop (nat n) data \<noteq> []"
      using "1.IH"(2) [OF Ret x [symmetric] refl that(1) refl that(2) rd] quiet_trans [OF q] by (auto elim!: yields_mono)
    show ?thesis
      using Ret x q IH1 IH2 by (simp add: ssl_sendAll.simps [of c data w] Let_def)
  qed (use wr in \<open>auto simp: ssl_sendAll.simps [of c data w]\<close>)
qed

lemma handleRoute_valid: "handleRoute w sv req res \<noteq> Inl Invalid_pointer"
proof -
  have served: "serve_file w path req res \<noteq> Inl Invalid_pointer" for path req res
    by (auto simp: serve_file_def Let_def split: option.splits)
  have "handleStaticResource w d req res \<noteq> Inl Invalid_pointer" for d req res
    using served by (auto simp: handleStaticResource_def Let_def map_sum_def split: option.splits sum.splits)
  then show ?thesis
    by (auto simp: handleRoute_def Let_def split: option.splits sum.splits prod.splits)
qed

lemma ssl_sendResponse_ready:
  assumes "ss_clients ss sd = Some c" "ready (w_tls w) c"
  shows "yields (\<lambda>(ok, ss', w'). ss' = ss \<and> quiet w w') (ssl_sendResponse sd body (ss, w))"
  using ssl_sendAll_ready [OF assms(2), of body]
  by (auto simp: ssl_sendResponse_def client_at_present [OF assms(1)] intro: yields_and_then)

lemma ssl_answer_ready:
  assumes "ss_clients ss sd = Some c" "ready (w_tls w) c"
  shows "yields (\<lambda>(ss', w'). ss' = ss \<and> quiet w w') (ssl_answer sd req res (ss, w))"
proof -
  have q: "quiet w w" using assms(2) quiet_refl by (simp add: ready_def)
  show ?thesis
    unfolding ssl_answer_def prod.case
  proof (rule yields_and_then)
    show "yields (\<lambda>_. True) (of_result (handleRoute w (ss_server ss) req res))"
      using handleRoute_valid by (auto simp: yields_def)
    show "yields (\<lambda>(ss', w'). ss' = ss \<and> quiet w w')
        (case body_opt of None \<Rightarrow> Ret (ss, w)
         | Some body \<Rightarrow> and_then (ssl_sendResponse sd body (ss, w)) (\<lambda>(_, st). Ret st))" for body_opt
      using q by (cases body_opt) (auto intro!: yields_and_then [OF ssl_sendResponse_ready [OF assms]])
  qed
qed

lemma ssl_dispatch_ready:
  assumes "ss_clients ss sd = Some c" "ready (w_tls w) c" "handlers_keep (ss_server ss)"
  shows "yields (\<lambda>(ss', w'). ss' = ss \<and> quiet w w') (ssl_dispatchWebSocket u sd raw (ss, w))"
proof (cases "getWsRouteBySocketId sd (sv_wsRoutes (ss_server ss))")
  case None
  with assms(2) quiet_refl show ?thesis by (simp add: ssl_dispatchWebSocket_def ready_def)
next
  case (Some route)
  let ?ws = "WebSocket_new_ssl sd (cc_ssl c) raw (wr_query route) (un_masking_key u)"
  have "ws_keeps (wr_handler route)"
    using assms(3) getWsRoute_in [OF Some] by (auto simp: handlers_keep_def)
  moreover have "f_ssl (ws_frame ?ws) = cc_ssl c" by (simp add: WebSocket_new_ssl_def new_frame_ssl_def)
  ultimately have "yields (quiet w) (wr_handler route ?ws w)"
    using assms(2) unfolding ws_keeps_def ready_def by metis
  then show ?thesis
    using Some by (auto simp: ssl_dispatchWebSocket_def client_at_present [OF assms(1)] intro: yields_and_then)
qed

lemma ssl_handshake_ready:
  assumes "ss_clients ss sd = Some c" "ready (w_tls w) c"
  shows "yields (\<lambda>(ok, ss', w'). ss' = ss \<and> quiet w w') (processWebsocketHandshake ssl_sendResponse sd req (ss, w))"
  using ssl_sendResponse_ready [OF assms] assms(2) quiet_refl
  by (auto simp: processWebsocketHandshake_def Let_def ready_def split: option.split)

lemma SSLRead_ready:
  assumes "ready (w_tls w) c"
  shows "yields (\<lambda>(r, w'). quiet w w') (SSLRead c n w)"
proof -
  obtain s where s: "cc_ssl c = Some s" "s \<in> t_live (w_tls w)" "s \<in> t_established (w_tls w)" "tls_ok (w_tls w)"
    using assms by (auto simp: ready_def)
  obtain r t where r: "ssl_read (n - 1) (Some s) (w_tls w) = Inr (r, t)"
    using live_read [OF s(2)] .
  from ssl_read_ok [OF s(4) r] s r show ?thesis
    by (simp add: SSLRead_def quiet_def tls_forward_def)
qed

lemma ssl_performRequest_inv:
  assumes "ssl_inv tight (ss, w)" "ss_clients ss sd = Some c" "cc_handshake_completed c"
  shows "yields (\<lambda>(ss', w'). ssl_inv tight (ss', w') \<and> ss_clients ss' = ss_clients ss \<and>
      sv_sockfd (ss_server ss') = sv_sockfd (ss_server ss)) (ssl_performRequest u sd raw (ss, w))"
    (is "yields ?P _")
proof -
  note inv = ssl_invD [OF assms(1)]
  let ?sv = "ss_server ss" and ?req = "Request_new raw"
  let ?res = "run_hook (sv_pre_routing_handler ?sv) ?req
    (Response_new_ssl (sv_default_headers ?sv) (cc_ssl c) (un_content_type u) (un_sockfd u))"
  let ?rs = "snd (updateWsRoute (req_normalize_path ?req) (req_query ?req) sd (sv_wsRoutes ?sv))"
  have rd: "ready (w_tls w) c"
    using inv(5) [OF assms(2)] inv(8) assms(3) by (auto simp: client_ok_def ready_def)
  have answer: "yields ?P (ssl_answer sd ?req ?res (ss, w1))" if "quiet w w1" for w1
    by (rule yields_mono [OF ssl_answer_ready [OF assms(2) ready_quiet [OF rd that]]])
      (use ssl_inv_quiet [OF assms(1) quiet_trans [OF that]] in auto)
  have dispatch: "yields ?P (ssl_dispatchWebSocket u sd raw (ss1, w1))"
    if "ssl_inv tight (ss1, w1)" "ss_clients ss1 = ss_clients ss" "sv_sockfd (ss_server ss1) = sv_sockfd ?sv" "quiet w w1" for ss1 w1
  proof (rule yields_mono [OF ssl_dispatch_ready [OF _ ready_quiet [OF rd that(4)] ssl_invD(1) [OF that(1)]]])
    show "ss_clients ss1 sd = Some c" using that(2) assms(2) by simp
  qed (use that ssl_inv_quiet [OF that(1)] in auto)
  show ?thesis
  proof (cases "sv_wsRoutes ?sv = []")
    case True
    with answer [of w] quiet_refl inv(8) show ?thesis
      by (simp add: ssl_performRequest_def Let_def client_at_present [OF assms(2)])
  next
    case routes: False
    have fd: "sd \<noteq> sv_sockfd ?sv" using inv(4) assms(2) by auto
    show ?thesis
    proof (cases "getWebSocketFrame raw")
      case (Some opcode)
      with routes dispatch [of ss w] assms(1) inv(8) quiet_refl ssl_inv_close [OF assms(1) routes fd] show ?thesis
        by (simp add: ssl_performRequest_def Let_def client_at_present [OF assms(2)] closeSocket_def)
    next
      case None
      have upgraded: "yields ?P (ssl_dispatchWebSocket u sd raw (ss\<lparr>ss_server := ?sv\<lparr>sv_wsRoutes := ?rs\<rparr>\<rparr>, w1))"
        if "quiet w w1" for w1
        using ssl_inv_routes [OF ssl_inv_quiet [OF assms(1) that] routes updateWsRoute_handlers, of "req_normalize_path ?req" "req_query ?req" sd]
          that by (intro dispatch) simp_all
      show ?thesis
        using routes None
        by (simp add: ssl_performRequest_def Let_def client_at_present [OF assms(2)])
          (rule yields_and_then [OF ssl_handshake_ready [OF assms(2) rd]]; use answer upgraded in auto)
    qed
  qed
qed

lemma ssl_data_phase_inv:
  assumes "ssl_inv tight (ss, w)" "ss_clients ss fd = Some c" "cc_handshake_completed c"
  shows "yields (\<lambda>(ss', w', dead'). ssl_inv tight (ss', w') \<and> ss_clients ss' = ss_clients ss \<and>
      sv_sockfd (ss_server ss') = sv_sockfd (ss_server ss)) (ssl_data_phase u fd ss w dead)"
proof -
  note inv = ssl_invD [OF assms(1)]
  have rd: "ready (w_tls w) c"
    using inv(5) [OF assms(2)] inv(8) assms(3) by (auto simp: client_ok_def ready_def)
  have request: "yields (\<lambda>(ss', w'', dead'). ssl_inv tight (ss', w'') \<and> ss_clients ss' = ss_clients ss \<and>
        sv_sockfd (ss_server ss') = sv_sockfd (ss_server ss))
      (and_then (ssl_performRequest u fd buf (ss, w')) (\<lambda>(ss, w). Ret (ss, w, dead)))"
    if "quiet w w'" for buf w'
    by (rule yields_and_then [OF ssl_performRequest_inv [OF ssl_inv_quiet [OF assms(1) that] assms(2,3)]]) auto
  show ?thesis
    unfolding ssl_data_phase_def client_at_present [OF assms(2)] Let_def prod.case
    by (rule yields_and_then [OF SSLRead_ready [OF rd]])
      (use request assms(1) in \<open>auto intro: ssl_inv_quiet\<close>)
qed

lemma complete_handshake_inv:
  assumes "ssl_inv tight (ss, w)" "ss_clients ss fd = Some c" "ssl_handshake (cc_ssl c) (w_tls w) = Inr (None, t)"
  shows "ssl_inv tight (ss\<lparr>ss_clients := (ss_clients ss)(fd \<mapsto> c\<lparr>cc_handshake_completed := True\<rparr>)\<rparr>, w\<lparr>w_tls := t\<rparr>)"
proof -
  note inv = ssl_invD [OF assms(1)] and h = ssl_handshake_ok [OF _ assms(3)]
  let ?c = "c\<lparr>cc_handshake_completed := True\<rparr>"
  let ?ss = "ss\<lparr>ss_clients := (ss_clients ss)(fd \<mapsto> ?c)\<rparr>"
  have same: "ssl_at ?ss = ssl_at ss"
    using assms(2) by (simp add: fun_eq_iff ssl_at_def)
  have "client_ok t fd' d" if "ss_clients ?ss fd' = Some d" for fd' d
    using that inv(5) [of fd'] assms(2) h [OF inv(8)] by (auto simp: client_ok_def split: if_splits)
  then show ?thesis
    using inv(1-4,6-14) h [OF inv(8)] assms(2) same by (intro ssl_invI) auto
qed

lemma ssl_handleClientSocket_inv:
  assumes "ssl_inv tight (ss, w)"
  shows "yields (\<lambda>(ss', w', dead'). ssl_inv tight (ss', w') \<and> dom (ss_clients ss') = dom (ss_clients ss) \<and>
      sv_sockfd (ss_server ss') = sv_sockfd (ss_server ss)) (ssl_handleClientSocket u fd ss w dead)"
proof (cases "ss_clients ss fd")
  case None
  with assms show ?thesis by (simp add: ssl_handleClientSocket_def)
next
  case (Some c)
  note inv = ssl_invD [OF assms]
  from inv(5) [OF Some] obtain s where "cc_ssl c = Some s" "s \<in> t_live (w_tls w)"
    by (auto simp: client_ok_def)
  then obtain r t where h: "ssl_handshake (cc_ssl c) (w_tls w) = Inr (r, t)"
    using live_handshake by metis
  note ok = ssl_handshake_ok [OF inv(8) h]
  have q: "quiet w (w\<lparr>w_tls := t\<rparr>)" using ok by (simp add: quiet_def tls_forward_def)
  have data: "yields (\<lambda>(ss', w', dead'). ssl_inv tight (ss', w') \<and> dom (ss_clients ss') = dom (ss_clients ss) \<and>
      sv_sockfd (ss_server ss') = sv_sockfd (ss_server ss)) (ssl_data_phase u fd ss1 w1 dead)"
    if "ssl_inv tight (ss1, w1)" "ss_clients ss1 fd = Some c1" "cc_handshake_completed c1"
      "dom (ss_clients ss1) = dom (ss_clients ss)" "sv_sockfd (ss_server ss1) = sv_sockfd (ss_server ss)" for ss1 w1 c1
    by (rule yields_mono [OF ssl_data_phase_inv [OF that(1-3)]]) (use that(4,5) in \<open>simp split: prod.splits\<close>)
  show ?thesis
  proof (cases "cc_handshake_completed c")
    case True
    with data [OF assms Some True] Some show ?thesis by (simp add: ssl_handleClientSocket_def)
  next
    case False
    show ?thesis
    proof (cases r)
      case None
      from data [OF complete_handshake_inv [OF assms Some], of t] h None Some False show ?thesis
        by (auto simp: ssl_handleClientSocket_def Let_def insert_absorb domI)
    next
      case (Some e)
      with \<open>ss_clients ss fd = Some c\<close> False h ssl_inv_quiet [OF assms q] show ?thesis
        by (simp add: ssl_handleClientSocket_def Let_def)
    qed
  qed
qed

lemma closeClient_inv:
  assumes "ssl_inv tight (ss, w)"
  shows "yields (\<lambda>(ss', w'). ssl_inv tight (ss', w') \<and> sv_sockfd (ss_server ss') = sv_sockfd (ss_server ss) \<and>
      dom (ss_clients ss') = dom (ss_clients ss) - {fd}) (closeClient fd (ss, w))"
proof (cases "ss_clients ss fd")
  case None
  with assms show ?thesis by (auto simp: closeClient_def)
next
  case (Some c)
  note inv = ssl_invD [OF assms]
  from inv(5) [OF Some] obtain s where s: "cc_ssl c = Some s" "s \<in> t_live (w_tls w)" "cc_fd c = fd" "fd \<noteq> - 1"
    by (auto simp: client_ok_def)
  let ?ss = "ss\<lparr>ss_clients := (ss_clients ss)(fd := None)\<rparr>"
  let ?t = "(w_tls w)\<lparr>t_live := t_live (w_tls w) - {s}\<rparr>"
  have free: "ssl_free (cc_ssl c) (w_tls w) = Inr ?t" using s by (simp add: ssl_free_def)
  have at: "ssl_at ss fd = Some s" using Some s by (simp add: ssl_at_def)
  have other: "ssl_at ss fd' \<noteq> Some s" if "fd' \<noteq> fd" for fd'
    using inj_map_key [OF inv(6) at] that by auto
  have "ran (ssl_at ?ss) \<subseteq> t_live ?t" "inj_on (ssl_at ?ss) (dom (ssl_at ?ss))" "tight \<Longrightarrow> t_live ?t \<subseteq> ran (ssl_at ?ss)"
    using inv(7,12) ran_map_delete [OF inv(6) at] inj_map_delete [OF inv(6)] by auto
  moreover have "client_ok ?t fd' d" if "ss_clients ?ss fd' = Some d" for fd' d
    using that inv(5) [of fd' d] other [of fd'] by (auto simp: client_ok_def ssl_at_def split: if_splits)
  moreover have "tight \<Longrightarrow> fd \<in> w_open w" "fd \<noteq> sv_sockfd (ss_server ss)" using Some inv(4,13) by auto
  ultimately have "ssl_inv tight (?ss, sys_close fd (w\<lparr>w_tls := ?t\<rparr>))"
    using inv(1-4,8-14) ssl_free_ok [OF inv(8) free] by (intro ssl_invI) (auto simp: sys_close_def)
  then show ?thesis
    using Some s free by (simp add: closeClient_def Let_def)
qed

lemma closeClients_inv:
  "ssl_inv tight (ss, w) \<Longrightarrow> yields (\<lambda>(ss', w'). ssl_inv tight (ss', w') \<and> sv_sockfd (ss_server ss') = sv_sockfd (ss_server ss) \<and>
      dom (ss_clients ss') = dom (ss_clients ss) - set fds) (closeClients fds (ss, w))"
proof (induction fds arbitrary: ss w)
  case (Cons fd fds)
  have rest: "yields (\<lambda>(ss', w'). ssl_inv tight (ss', w') \<and> sv_sockfd (ss_server ss') = sv_sockfd (ss_server ss) \<and>
      dom (ss_clients ss') = dom (ss_clients ss) - set (fd # fds)) (closeClients fds (ss1, w1))"
    if "ssl_inv tight (ss1, w1)" "sv_sockfd (ss_server ss1) = sv_sockfd (ss_server ss)" "dom (ss_clients ss1) = dom (ss_clients ss) - {fd}" for ss1 w1
    by (rule yields_mono [OF Cons.IH [OF that(1)]]) (use that(2,3) in auto)
  show ?case
    unfolding closeClients.simps
    by (rule yields_and_then [OF closeClient_inv [OF Cons.prems, of fd]]) (use rest in auto)
qed simp

lemma ssl_process_inv:
  "ssl_inv tight (ss, w) \<Longrightarrow> sv_sockfd (ss_server ss) \<notin> set fds \<Longrightarrow>
   yields (\<lambda>(ss', w', dead'). ssl_inv tight (ss', w') \<and> sv_sockfd (ss_server ss') = sv_sockfd (ss_server ss)) (ssl_process u fds ss w dead)"
proof (induction fds arbitrary: ss w dead)
  case (Cons fd fds)
  have rest: "yields (\<lambda>(ss', w', dead'). ssl_inv tight (ss', w') \<and> sv_sockfd (ss_server ss') = sv_sockfd (ss_server ss)) (ssl_process u fds ss1 w1 dead1)"
    if "ssl_inv tight (ss1, w1)" "sv_sockfd (ss_server ss1) = sv_sockfd (ss_server ss)" for ss1 w1 dead1
    using Cons.IH [OF that(1), of dead1] Cons.prems(2) that(2) by simp
  have "yields (\<lambda>(ss', w', dead'). ssl_inv tight (ss', w') \<and> sv_sockfd (ss_server ss') = sv_sockfd (ss_server ss))
      (and_then (ssl_handleClientSocket u fd ss w dead) (\<lambda>(ss, w, dead). ssl_process u fds ss w dead))"
    by (rule yields_and_then [OF ssl_handleClientSocket_inv [OF Cons.prems(1)]]) (use rest in auto)
  with Cons.prems(2) show ?case by simp
qed simp

lemma ssl_poll_round_inv:
  assumes "ssl_inv tight (ss, w)" "backlog_valid w" "enumerates order ss"
  shows "yields (\<lambda>(ss', w'). ssl_inv tight (ss', w') \<and> sv_sockfd (ss_server ss') = sv_sockfd (ss_server ss)) (ssl_poll_round u order rc ss w)"
proof (cases rc)
  case (Ready ev)
  let ?P = "\<lambda>(ss', w', dead'). ssl_inv tight (ss', w') \<and> sv_sockfd (ss_server ss') = sv_sockfd (ss_server ss)"
  let ?fds = "filter (\<lambda>fd. rv_in (ev fd)) order"
  have "sv_sockfd (ss_server ss) \<notin> set order"
    using ssl_invD(4) [OF assms(1)] assms(3) by (metis enumerates_def)
  then have fds: "sv_sockfd (ss_server ss) \<notin> set ?fds" by simp
  obtain ss1 w1 where l: "ssl_handleListenSocket ss w = (ss1, w1)" by force
  note l1 = ssl_listen_inv [OF assms(1,2) l]
  have "yields ?P (ssl_process u (filter (\<lambda>fd. rv_in (ev fd)) (sv_sockfd (ss_server ss) # order)) ss w [])"
    using ssl_process_inv [OF assms(1) fds, of u "[]"] ssl_process_inv [of tight ss1 w1 ?fds u "[]"] l l1 fds by auto
  then show ?thesis
    unfolding ssl_poll_round_def Ready poll_result.case
    by (rule yields_and_then)
      (auto intro!: yields_mono [OF closeClients_inv])
qed (use assms(1) in \<open>simp add: ssl_poll_round_def\<close>)

section \<open>Reachable states\<close>

definition ssl_start :: "bool \<Rightarrow> SSLServer \<times> world \<Rightarrow> bool" where
  "ssl_start tight = (\<lambda>(ss, w).
     ss_clients ss = Map.empty \<and> ss_ctx ss \<and> sv_sockfd (ss_server ss) \<noteq> - 1 \<and> handlers_keep (ss_server ss) \<and>
     (tight \<longrightarrow> sv_wsRoutes (ss_server ss) = []) \<and>
     w_open w = {sv_sockfd (ss_server ss)} \<and> w_closed w = [] \<and> w_tls w = tls_start)"

lemma ssl_inv_environment:
  assumes "ssl_inv tight (ss, w)" "environment w w'"
  shows "ssl_inv tight (ss, w')"
proof -
  have "tls_forward (w_tls w) (w_tls w')"
    using assms(2) ssl_invD(8) [OF assms(1)] by (simp add: environment_def tls_environment_def tls_forward_def tls_ok_def)
  then show ?thesis
    using ssl_inv_forward [OF assms(1)] assms(2) by (simp add: environment_def)
qed

interpretation ssl_loop: invariant_system "ssl_start tight" "ssl_step u" "ssl_inv tight" for tight u
proof (unfold_locales, goal_cases)
  case (1 s)
  obtain ss w where s: "s = (ss, w)" by force
  have "ssl_at ss = Map.empty" using 1 s by (auto simp: ssl_start_def ssl_at_def)
  with 1 show ?case
    unfolding s by (intro ssl_invI) (auto simp: ssl_start_def tls_start_def tls_ok_def)
next
  case (2 s s')
  obtain ss w ss' w' where s: "s = (ss, w)" "s' = (ss', w')" by (metis surj_pair)
  have round: "ssl_inv tight (ss', w')" if "backlog_valid w" "enumerates order ss" "ssl_poll_round u order rc ss w = Ret (ss', w')"
    for order rc
    using yieldsD [OF ssl_poll_round_inv [OF _ that(1,2)] that(3)] 2(1) s by simp
  show ?case
    using 2 ssl_inv_environment round unfolding s by (auto elim!: ssl_stepE)
qed

lemma ssl_run_setup_serving:
  assumes "ssl_run_setup su fd True True True ss0 = Ssl_serving ss"
  shows "ss = ss0\<lparr>ss_ctx := True, ss_server := (ss_server ss0)\<lparr>sv_sockfd := fd, sv_running := True\<rparr>\<rparr> \<and> 0 \<le> fd"
  using assms by (auto simp: ssl_run_setup_def initializeSSL_def Let_def split: if_splits)

lemma ssl_reachable_inv:
  assumes "ssl_run_setup su fd True True True ss0 = Ssl_serving ss"
    and "ss_clients ss0 = Map.empty" "handlers_keep (ss_server ss0)" "tight \<Longrightarrow> sv_wsRoutes (ss_server ss0) = []"
    and "w_open w = {fd}" "w_closed w = []" "w_tls w = tls_start"
    and "(ssl_step u)\<^sup>*\<^sup>* (ss, w) (ss', w')"
  shows "ssl_inv tight (ss', w')"
proof -
  have "ssl_start tight (ss, w)"
    using ssl_run_setup_serving [OF assms(1)] assms(2-7) by (auto simp: ssl_start_def handlers_keep_def)
  from ssl_loop.inv_reachable [OF this assms(8)] show ?thesis .
qed

end
