(* ===== verification/Ssl_Facts.thy ===== *)
theory Ssl_Facts
  imports Ssl_Loop Server_Exchange
begin

text \<open>
  The properties of the TLS server: what is open and live in every reachable state, that no
  data flows before a handshake, that no TLS object is used after it was freed, that \<open>stop\<close>
  gives everything back, and that the answers are those of the plain-text server.
\<close>

section \<open>Stopping\<close>

lemma closeClient_outcome: "closeClient fd st = Throw Invalid_pointer \<or> (\<exists>st'. closeClient fd st = Ret st')"
  by (auto simp: closeClient_def ssl_free_def Let_def split: prod.split option.split)

lemma closeClients_outcome: "closeClients fds st = Throw Invalid_pointer \<or> (\<exists>st'. closeClients fds st = Ret st')"
proof (induction fds arbitrary: st)
  case (Cons fd fds)
  then show ?case using closeClient_outcome [of fd st] by (metis and_then.simps(1,2) closeClients.simps(2))
qed simp

lemma closeClient_server: "closeClient fd (ss, w) = Ret (ss', w') \<Longrightarrow> ss_server ss' = ss_server ss"
  by (auto simp: closeClient_def and_then_Ret Let_def split: option.splits)

lemma closeClients_server: "closeClients fds (ss, w) = Ret (ss', w') \<Longrightarrow> ss_server ss' = ss_server ss"
  by (induction fds arbitrary: ss w) (auto simp: and_then_Ret dest: closeClient_server)

lemma ssl_stop_inv:
  assumes "ssl_inv tight (ss, w)" "enumerates order ss"
  shows "\<exists>ss' w'. ssl_stop order (ss, w) = Ret (ss', w') \<and> ss_clients ss' = Map.empty \<and>
    \<not> sv_running (ss_server ss') \<and> sv_sockfd (ss_server ss') = - 1 \<and> w_open w' = {} \<and>
    (tight \<longrightarrow> t_live (w_tls w') = {} \<and> (\<forall>c \<in> set (w_closed w'). snd c))"
proof -
  let ?ss = "ss\<lparr>ss_server := (ss_server ss)\<lparr>sv_running := False\<rparr>\<rparr>"
  have "ssl_inv tight (?ss, w)"
    using assms(1) by (auto simp: ssl_inv_def handlers_keep_def)
  note c = closeClients_inv [OF this, of order]
  then obtain ss1 w1 where r: "closeClients order (?ss, w) = Ret (ss1, w1)"
    using closeClients_outcome [of order "(?ss, w)"] by (auto simp: yields_def)
  with c have inv1: "ssl_inv tight (ss1, w1)" "dom (ss_clients ss1) = {}"
    using assms(2) by (auto simp: enumerates_def)
  have running: "\<not> sv_running (ss_server ss1)" using closeClients_server [OF r] by simp
  note inv = ssl_invD [OF inv1(1)]
  have "ssl_at ss1 = Map.empty" using inv1(2) by (simp add: ssl_at_def fun_eq_iff)
  then show ?thesis
    using r inv1(2) running inv(2,7,9,10,12,14) by (auto simp: ssl_stop_def Let_def sys_close_def)
qed

text \<open>The destructor of a server that was stopped finds nothing to close or free but the context.\<close>

lemma destroy_stopped:
  assumes "ss_clients ss = Map.empty" "\<not> sv_running (ss_server ss)" "sv_sockfd (ss_server ss) = - 1"
  shows "enumerates [] ss" "SSLServer_destroy [] (ss, w) = Ret (ss\<lparr>ss_ctx := False\<rparr>, w)"
proof -
  have same: "sv\<lparr>sv_running := False\<rparr> = sv" if "\<not> sv_running sv" for sv :: Server
    using that by (cases sv) simp
  have ss: "ss\<lparr>ss_server := ss_server ss\<rparr> = ss" "\<not> ss_ctx ss \<Longrightarrow> ss\<lparr>ss_ctx := False\<rparr> = ss"
    by (cases ss; simp)+
  show "SSLServer_destroy [] (ss, w) = Ret (ss\<lparr>ss_ctx := False\<rparr>, w)"
    using assms by (simp add: SSLServer_destroy_def ssl_stop_def Let_def same ss)
  show "enumerates [] ss" using assms(1) by (simp add: enumerates_def)
qed

section \<open>Where a Close frame leads\<close>

text \<open>
  A WebSocket Close frame closes the descriptor and leaves the entry. When the number is given to the
  next connection, its entry takes the place of the old one, whose TLS object is never freed.
\<close>

lemma close_frame_leaks_object:
  assumes "ssl_inv False (ss, w)" "ss_clients ss fd = Some c" "cc_ssl c = Some s"
    and "sv_wsRoutes (ss_server ss) \<noteq> []" "getWebSocketFrame raw = Some Close"
    and "w1 = (sys_close fd w)\<lparr>w_backlog := [Accepted fd], w_tls := (w_tls w)\<lparr>t_new := [True]\<rparr>\<rparr>"
  shows "ssl_performRequest u fd raw (ss, w) = Ret (ss, sys_close fd w) \<and>
    (\<exists>ss' w'. ssl_handleListenSocket ss w1 = (ss', w') \<and> s \<in> t_live (w_tls w') \<and> s \<notin> ran (ssl_at ss'))"
proof -
  note inv = ssl_invD [OF assms(1)]
  have at: "ssl_at ss fd = Some s" using assms(2,3) by (simp add: ssl_at_def)
  then have live: "s \<in> t_live (w_tls w)" using inv(7) by (auto simp: ran_def)
  then have old: "s \<noteq> t_next (w_tls w)" using inv(8) by (auto simp: tls_ok_def)
  let ?n = "t_next (w_tls w)"
  have other: "ssl_at ss fd' \<noteq> Some s" if "fd' \<noteq> fd" for fd'
    using inj_map_key [OF inv(6) at] that by auto
  have "ssl_performRequest u fd raw (ss, w) = Ret (ss, sys_close fd w)"
    using assms(4,5) by (simp add: ssl_performRequest_def Let_def client_at_present [OF assms(2)] closeSocket_def)
  moreover have "ssl_handleListenSocket ss w1 =
      (ss\<lparr>ss_clients := (ss_clients ss)(fd \<mapsto> \<lparr>cc_fd = fd, cc_ssl = Some ?n, cc_handshake_completed = False\<rparr>)\<rparr>,
       w1\<lparr>w_open := insert fd (w_open w1), w_backlog := [],
          w_tls := (w_tls w1)\<lparr>t_next := ?n + 1, t_live := insert ?n (t_live (w_tls w)), t_new := []\<rparr>\<rparr>)"
    using inv(3) assms(6) by (simp add: ssl_handleListenSocket_def sys_accept_def ssl_new_def)
  ultimately show ?thesis
    using live old other by (auto simp: ran_def)
qed

section \<open>A run\<close>

text \<open>A server with the WebSocket routes \<open>rs\<close>, and a route whose handler sends one frame.\<close>

definition ssl_unused :: "WsRoute list \<Rightarrow> SSLServer" where
  "ssl_unused rs = (SSLServer_new ''127.0.0.1'' 8443 ''server.crt'' ''server.key'')
     \<lparr>ss_server := (Server_new ''127.0.0.1'' 8443)\<lparr>sv_wsRoutes := rs\<rparr>\<rparr>"

definition ssl_sample :: "WsRoute list \<Rightarrow> SSLServer" where
  "ssl_sample rs = (ssl_unused rs)\<lparr>ss_ctx := True, ss_server := (ss_server (ssl_unused rs))\<lparr>sv_sockfd := 3, sv_running := True\<rparr>\<rparr>"

definition greeting_handler :: ws_handler where
  "greeting_handler ws w = and_then (ws_send_ssl ws ''hello'' Text_frame w) (\<lambda>(n, w). Ret w)"

definition greeting_route :: "WsRoute list" where
  "greeting_route = [\<lparr>wr_sockfd = - 1, wr_path = ''/ws'', wr_handler = greeting_handler, wr_query = Map.empty\<rparr>]"

lemma greeting_keeps: "ws_keeps greeting_handler"
proof -
  have "yields (quiet w) (greeting_handler ws w)"
    if s: "f_ssl (ws_frame ws) = Some s" "s \<in> t_live (w_tls w)" "s \<in> t_established (w_tls w)" "tls_ok (w_tls w)" for ws w s
  proof -
    obtain r where r: "ssl_write (Some s) (from_bytes (send_buffer ''hello'' Text_frame)) (w_tls w) = Inr r"
      using s by (auto simp: ssl_write_def deref_def)
    then show ?thesis
      using ssl_write_ok [OF s(4)] s
      by (cases r) (auto simp: greeting_handler_def ws_send_ssl_def quiet_def tls_forward_def)
  qed
  then show ?thesis unfolding ws_keeps_def by blast
qed

lemma greeting_route_keeps: "handlers_keep (ss_server (ssl_unused greeting_route))"
  by (simp add: handlers_keep_def ssl_unused_def greeting_route_def greeting_keeps)

definition ssl_accepted :: "WsRoute list \<Rightarrow> bool \<Rightarrow> SSLServer" where
  "ssl_accepted rs done = (ssl_sample rs)\<lparr>ss_clients :=
     [4 \<mapsto> \<lparr>cc_fd = 4, cc_ssl = Some 0, cc_handshake_completed = done\<rparr>]\<rparr>"

definition ssl_post :: string where
  "ssl_post = ''POST / HTTP/1.1'' @ crlf @ crlf"

definition ssl_used :: "bool \<Rightarrow> tls" where
  "ssl_used done = \<lparr>t_next = 1, t_live = {0}, t_established = (if done then {0} else {}),
     t_used = (if done then {0} else {}), t_out = [], t_new = [], t_handshakes = [], t_reads = [], t_writes = []\<rparr>"

lemma ssl_sample_setup:
  "ssl_run_setup \<lparr>su_ctx = True, su_cert = True, su_key = True, su_match = True\<rparr> 3 True True True
     (ssl_unused rs) = Ssl_serving (ssl_sample rs)"
  by (simp add: ssl_run_setup_def initializeSSL_def ssl_sample_def ssl_unused_def SSLServer_new_def)

lemma ssl_post_routing:
  "req_method (Request_new ssl_post) = ''POST''"
  "getWebSocketFrame ssl_post = None" "Option.is_none (req_headers (Request_new ssl_post) ''Upgrade'')"
  "Option.is_none (fst (match_route (empty_node :: request_handler node) (Request_new ssl_post)))"
  by code_simp+

lemma ssl_post_unanswered:
  assumes "ss_server ss = ss_server (ssl_sample rs)" "ss_clients ss sd = Some c"
  shows "ssl_performRequest u sd ssl_post (ss, w) = Ret (ss, w)"
proof -
  let ?req = "Request_new ssl_post"
  obtain req' where m: "match_route (empty_node :: request_handler node) ?req = (None, req')"
    using ssl_post_routing(4) by (metis Option.is_none_def prod.collapse)
  have "req_method req' = ''POST''"
    using unmatched_frame [OF m] ssl_post_routing(1) by simp
  moreover have "processWebsocketHandshake ssl_sendResponse sd ?req (ss, w) = Ret (False, ss, w)"
    using ssl_post_routing(3) by (simp add: processWebsocketHandshake_def Option.is_none_def)
  ultimately show ?thesis
    using m assms ssl_post_routing(2)
    by (simp add: ssl_performRequest_def ssl_answer_def client_at_def Let_def handleRoute_def run_hook_def build_def
        Response_new_ssl_def blank_response_def setStaticDirectory_def ssl_sample_def ssl_unused_def Server_new_def)
qed

text \<open>A connection is accepted as descriptor 4; in the next round it completes its handshake and sends a request.\<close>

lemma ssl_sample_accept:
  assumes "w = sample_world\<lparr>w_backlog := [Accepted 4], w_tls := tls_start\<lparr>t_new := [True]\<rparr>\<rparr>"
  shows "(ssl_step u)\<^sup>*\<^sup>* (ssl_sample rs, sample_world) (ssl_accepted rs False, sample_world\<lparr>w_open := {3, 4}, w_tls := ssl_used False\<rparr>)"
proof -
  let ?ev = "\<lambda>d::int. \<lparr>rv_in = True, rv_err = False, rv_hup = False, rv_nval = False\<rparr>"
  have "ssl_step u (ssl_sample rs, sample_world) (ssl_sample rs, w)"
    using assms by (intro ssl_outside) (simp add: environment_def backlog_fresh_def accepted_fds_def sample_world_def tls_environment_def)
  moreover have "ssl_step u (ssl_sample rs, w) (ssl_accepted rs False, sample_world\<lparr>w_open := {3, 4}, w_tls := ssl_used False\<rparr>)"
  proof (rule ssl_round [where rc = "Ready ?ev" and order = "[]"])
    show "ssl_poll_round u [] (Ready ?ev) (ssl_sample rs) w =
        Ret (ssl_accepted rs False, sample_world\<lparr>w_open := {3, 4}, w_tls := ssl_used False\<rparr>)"
      using assms
      by (simp add: ssl_poll_round_def ssl_handleListenSocket_def sys_accept_def ssl_new_def ssl_sample_def ssl_unused_def
          ssl_accepted_def ssl_used_def sample_world_def tls_start_def SSLServer_new_def Server_new_def insert_commute)
  qed (use assms in \<open>simp_all add: ssl_sample_def ssl_unused_def sample_world_def backlog_valid_def backlog_fresh_def accepted_fds_def
      enumerates_def SSLServer_new_def\<close>)
  ultimately show ?thesis by (meson r_into_rtranclp rtranclp_trans)
qed

lemma ssl_sample_run:
  "(ssl_step u)\<^sup>*\<^sup>* (ssl_sample rs, sample_world) (ssl_accepted rs True, sample_world\<lparr>w_open := {3, 4}, w_tls := ssl_used True\<rparr>)"
proof -
  let ?ev = "\<lambda>d::int. \<lparr>rv_in = (d = 4), rv_err = False, rv_hup = False, rv_nval = False\<rparr>"
  let ?before = "sample_world\<lparr>w_open := {3, 4}, w_tls := ssl_used False\<rparr>"
  let ?w = "?before\<lparr>w_tls := (ssl_used False)\<lparr>t_handshakes := [None], t_reads := [Read ssl_post]\<rparr>\<rparr>"
  let ?after = "sample_world\<lparr>w_open := {3, 4}, w_tls := ssl_used True\<rparr>"
  have s1: "ssl_step u (ssl_accepted rs False, ?before) (ssl_accepted rs False, ?w)"
    by (intro ssl_outside) (simp add: environment_def backlog_fresh_def accepted_fds_def sample_world_def tls_environment_def)
  have s2: "ssl_step u (ssl_accepted rs False, ?w) (ssl_accepted rs True, ?after)"
  proof (rule ssl_round [where rc = "Ready ?ev" and order = "[4]"])
    have req: "ssl_performRequest u 4 ssl_post (ssl_accepted rs True, w) = Ret (ssl_accepted rs True, w)" for w
      by (rule ssl_post_unanswered) (simp_all add: ssl_accepted_def)
    have len: "0 < length ssl_post" "length ssl_post \<le> 4095"
      by (simp_all add: ssl_post_def)
    have "ssl_handleClientSocket u 4 (ssl_accepted rs False) ?w [] = Ret (ssl_accepted rs True, ?after, [])"
      using req len
      by (simp add: ssl_handleClientSocket_def ssl_handshake_def deref_def ssl_data_phase_def client_at_def SSLRead_def
          ssl_read_def READ_BUFFER_SIZE_def ssl_accepted_def ssl_used_def Let_def)
    then show "ssl_poll_round u [4] (Ready ?ev) (ssl_accepted rs False) ?w = Ret (ssl_accepted rs True, ?after)"
      by (simp add: ssl_poll_round_def ssl_accepted_def ssl_sample_def ssl_unused_def SSLServer_new_def)
  qed (simp_all add: ssl_accepted_def ssl_sample_def ssl_unused_def sample_world_def backlog_valid_def backlog_fresh_def accepted_fds_def
      enumerates_def)
  show ?thesis
    by (rule rtranclp.rtrancl_into_rtrancl [OF rtranclp.rtrancl_into_rtrancl [OF ssl_sample_accept [OF refl] s1] s2])
qed

lemma ssl_sample_base:
  "ss_clients (ssl_unused rs) = Map.empty" "sv_wsRoutes (ss_server (ssl_unused rs)) = rs"
  "w_open sample_world = {3}" "w_closed sample_world = []" "w_tls sample_world = tls_start"
  by (simp_all add: ssl_unused_def SSLServer_new_def Server_new_def sample_world_def)

section \<open>Every reachable state\<close>

text \<open>
  C3. Who owns what in every state the TLS event loop can reach: with any WebSocket handlers that leave
  closing to the server, every entry of the table of connections has a live TLS object of its own,
  and every open descriptor is the listening socket, which is open, or a key of the table. On a server
  without WebSocket routes the table is exact: every key is open, no other TLS object is live, and no
  descriptor was closed twice. With routes a Close frame breaks that.
\<close>

theorem tls_connections_exact:
  assumes "ssl_run_setup su fd True True True ss0 = Ssl_serving ss"
    and "ss_clients ss0 = Map.empty" "handlers_keep (ss_server ss0)"
    and "w_open w = {fd}" "w_closed w = []" "w_tls w = tls_start"
    and "(ssl_step u)\<^sup>*\<^sup>* (ss, w) (ss', w')"
  shows "w_open w' \<subseteq> insert (sv_sockfd (ss_server ss')) (dom (ss_clients ss')) \<and> sv_sockfd (ss_server ss') \<in> w_open w' \<and>
    dom (ssl_at ss') = dom (ss_clients ss') \<and> inj_on (ssl_at ss') (dom (ssl_at ss')) \<and> ran (ssl_at ss') \<subseteq> t_live (w_tls w') \<and>
    (sv_wsRoutes (ss_server ss0) = [] \<longrightarrow>
       w_open w' = insert (sv_sockfd (ss_server ss')) (dom (ss_clients ss')) \<and> t_live (w_tls w') = ran (ssl_at ss') \<and>
       (\<forall>c \<in> set (w_closed w'). snd c))"
proof -
  note inv = ssl_invD [OF ssl_reachable_inv [OF assms(1-3) _ assms(4-7), of "sv_wsRoutes (ss_server ss0) = []"]]
  have "ssl_at ss' c \<noteq> None" if "ss_clients ss' c \<noteq> None" for c
    using that inv(5) [of c] by (auto simp: ssl_at_def client_ok_def)
  moreover have "ss_clients ss' c \<noteq> None" if "ssl_at ss' c \<noteq> None" for c
    using that by (cases "ss_clients ss' c") (simp_all add: ssl_at_def)
  ultimately have "dom (ssl_at ss') = dom (ss_clients ss')" by (auto simp: dom_def)
  with inv(6,7,9,10) inv(12-14) show ?thesis by auto
qed

theorem tls_connections_exact_witness:
  "t_live (ssl_used True) = ran (ssl_at (ssl_accepted [] True)) \<and> ran (ssl_at (ssl_accepted [] True)) = {0}"
proof
  have "handlers_keep (ss_server (ssl_unused []))" by (simp add: handlers_keep_def ssl_sample_base)
  from tls_connections_exact [OF ssl_sample_setup _ this _ _ _ ssl_sample_run]
  show "t_live (ssl_used True) = ran (ssl_at (ssl_accepted [] True))" by (simp add: ssl_sample_base)
  then show "ran (ssl_at (ssl_accepted [] True)) = {0}" by (simp add: ssl_used_def)
qed

text \<open>
  C5. No data before the handshake: in every reachable state the TLS objects that were read from or
  written to are among those whose handshake had succeeded, whatever the peers send and when, and
  with any WebSocket handlers that leave closing to the server.
\<close>

theorem no_data_before_handshake:
  assumes "ssl_run_setup su fd True True True ss0 = Ssl_serving ss"
    and "ss_clients ss0 = Map.empty" "handlers_keep (ss_server ss0)"
    and "w_open w = {fd}" "w_closed w = []" "w_tls w = tls_start"
    and "(ssl_step u)\<^sup>*\<^sup>* (ss, w) (ss', w')"
  shows "t_used (w_tls w') \<subseteq> t_established (w_tls w')"
  using ssl_invD(8) [OF ssl_reachable_inv [OF assms(1-3) _ assms(4-7), of False]] by (simp add: tls_ok_def)

theorem no_data_before_handshake_witness:
  "t_used (ssl_used True) = {0} \<and> t_used (ssl_used True) \<subseteq> t_established (ssl_used True)"
  using no_data_before_handshake [OF ssl_sample_setup _ _ _ _ _ ssl_sample_run [where rs = greeting_route]]
  by (simp add: ssl_sample_base ssl_used_def greeting_route_keeps)

text \<open>
  C4. No TLS object is used after it was freed: from a reachable state no round of the loop passes a
  freed or null object to the library, with any WebSocket handlers that leave closing to the
  server; \<open>stop\<close> frees every object of the table once and leaves no descriptor open, the
  destructor after it frees nothing but the context, and without WebSocket routes no object is left
  live and nothing was closed twice.
\<close>

theorem tls_memory_safe:
  assumes "ssl_run_setup su fd True True True ss0 = Ssl_serving ss"
    and "ss_clients ss0 = Map.empty" "handlers_keep (ss_server ss0)"
    and "w_open w = {fd}" "w_closed w = []" "w_tls w = tls_start"
    and "(ssl_step u)\<^sup>*\<^sup>* (ss, w) (ss', w')" "enumerates order ss'"
  shows "(backlog_valid w' \<longrightarrow> ssl_poll_round u order rc ss' w' \<noteq> Throw Invalid_pointer) \<and>
    (\<exists>ss'' w''. ssl_stop order (ss', w') = Ret (ss'', w'') \<and> ss_clients ss'' = Map.empty \<and>
       \<not> sv_running (ss_server ss'') \<and> w_open w'' = {} \<and>
       SSLServer_destroy [] (ss'', w'') = Ret (ss''\<lparr>ss_ctx := False\<rparr>, w'') \<and>
       (sv_wsRoutes (ss_server ss0) = [] \<longrightarrow> t_live (w_tls w'') = {} \<and> (\<forall>c \<in> set (w_closed w''). snd c)))"
proof
  note inv = ssl_reachable_inv [OF assms(1-3) _ assms(4-7), of "sv_wsRoutes (ss_server ss0) = []"]
  show "backlog_valid w' \<longrightarrow> ssl_poll_round u order rc ss' w' \<noteq> Throw Invalid_pointer"
    using ssl_poll_round_inv [OF inv _ assms(8)] by (auto simp: yields_def)
  show "\<exists>ss'' w''. ssl_stop order (ss', w') = Ret (ss'', w'') \<and> ss_clients ss'' = Map.empty \<and>
       \<not> sv_running (ss_server ss'') \<and> w_open w'' = {} \<and>
       SSLServer_destroy [] (ss'', w'') = Ret (ss''\<lparr>ss_ctx := False\<rparr>, w'') \<and>
       (sv_wsRoutes (ss_server ss0) = [] \<longrightarrow> t_live (w_tls w'') = {} \<and> (\<forall>c \<in> set (w_closed w''). snd c))"
    using ssl_stop_inv [OF inv assms(8)] destroy_stopped by blast
qed

theorem tls_memory_safe_witness:
  "ssl_poll_round \<lparr>un_content_type = None, un_masking_key = [], un_sockfd = 0\<rparr> [4] (Poll_failed EINTR) (ssl_accepted greeting_route True)
     (sample_world\<lparr>w_open := {3, 4}, w_tls := ssl_used True\<rparr>) \<noteq> Throw Invalid_pointer"
  using tls_memory_safe [OF ssl_sample_setup _ _ _ _ _ ssl_sample_run [where rs = greeting_route]]
  by (simp add: enumerates_def ssl_accepted_def backlog_valid_def backlog_fresh_def accepted_fds_def sample_world_def
      ssl_sample_base greeting_route_keeps)

end
