(* ===== verification/Ssl_Exchange.thy ===== *)
theory Ssl_Exchange
  imports Ssl_Server Server_Exchange
begin

text \<open>
  One exchange over TLS against the plain-text server: the same replies, and their delivery
  through \<open>SSL_write\<close>. Then the WebSocket operations on a TLS connection.
\<close>

section \<open>The same replies\<close>

text \<open>
  The two servers build the response with a different descriptor and TLS object inside. A
  handler is blind if it does not look at them.
\<close>

definition retarget :: "int \<Rightarrow> ssl option \<Rightarrow> Response \<Rightarrow> Response" where
  "retarget fd s r = r\<lparr>res_sockfd := fd, res_ssl := s\<rparr>"

definition blind :: "request_handler \<Rightarrow> bool" where
  "blind h \<longleftrightarrow> (\<forall>req res fd s. h req (retarget fd s res) = retarget fd s (h req res))"

definition server_blind :: "Server \<Rightarrow> bool" where
  "server_blind sv \<longleftrightarrow>
     (\<forall>req h. fst (match_route (sv_router sv) req) = Some h \<longrightarrow> blind h) \<and>
     (\<forall>h \<in> set_option (sv_pre_routing_handler sv) \<union> set_option (sv_post_routing_handler sv). blind h)"

lemma retarget_simps [simp]:
  "res_content (retarget fd s r) = res_content r" "res_headers (retarget fd s r) = res_headers r"
  "res_content_type (retarget fd s r) = res_content_type r" "res_status (retarget fd s r) = res_status r"
  "res_static_directory (retarget fd s r) = res_static_directory r"
  "setHeader k v (retarget fd s r) = retarget fd s (setHeader k v r)"
  "setContent t st c (retarget fd s r) = retarget fd s (setContent t st c r)"
  "put_content c (retarget fd s r) = retarget fd s (put_content c r)"
  "setStaticDirectory d (retarget fd s r) = retarget fd s (setStaticDirectory d r)"
  by (simp_all add: retarget_def setHeader_def setContent_def put_content_def setStaticDirectory_def)

lemma build_retarget: "fst (build fs chunked (retarget fd s r)) = fst (build fs chunked r)"
proof -
  have l: "load_content fs (retarget fd s r) = retarget fd s (load_content fs r)"
    by (simp add: load_content_def retarget_def)
  have t: "add_type_headers (retarget fd s q) = retarget fd s (add_type_headers q)" for q
    by (simp add: add_type_headers_def Let_def del: setHeader_update)
  have n: "add_length_header chunked (retarget fd s q) = retarget fd s (add_length_header chunked q)" for q
    by (simp add: add_length_header_def del: setHeader_update)
  show ?thesis by (simp add: build_def Let_def l t n)
qed

lemma Response_new_retarget: "Response_new_ssl hs s g fd = retarget fd s (Response_new hs fd' g)"
proof -
  have "fold (\<lambda>(k, v). setHeader k v) hs (retarget fd s r) = retarget fd s (fold (\<lambda>(k, v). setHeader k v) hs r)" for r
    by (induction hs arbitrary: r) (auto simp del: setHeader_update)
  moreover have "(blank_response g fd)\<lparr>res_ssl := s\<rparr> = retarget fd s (blank_response g fd')"
    by (simp add: blank_response_def retarget_def)
  ultimately show ?thesis
    by (simp add: Response_new_ssl_def Response_new_def del: setHeader_update)
qed

lemma serve_file_retarget:
  "serve_file w path req (retarget fd s res) = map_sum id (retarget fd s) (serve_file w path req res)"
  by (auto simp: serve_file_def Let_def split: option.split simp del: setHeader_update)

lemma handleStaticResource_retarget:
  "handleStaticResource w d req (retarget fd s res) =
     map_sum id (map_prod id (retarget fd s)) (handleStaticResource w d req res)"
  by (auto simp: handleStaticResource_def Let_def serve_file_retarget sum.map_comp comp_def split: option.split)

lemma run_hook_retarget:
  "(\<And>h. hook = Some h \<Longrightarrow> blind h) \<Longrightarrow> run_hook hook req (retarget fd s res) = retarget fd s (run_hook hook req res)"
  by (auto simp: run_hook_def blind_def split: option.split)

lemma handleRoute_retarget:
  assumes "server_blind sv"
  shows "handleRoute w sv req (retarget fd s res) = handleRoute w sv req res"
proof -
  obtain h req' where m: "match_route (sv_router sv) req = (h, req')" by force
  have b: "blind g" if "h = Some g" for g
    using assms m that unfolding server_blind_def by (metis fst_conv)
  have post: "run_hook (sv_post_routing_handler sv) q (retarget fd s r) =
      retarget fd s (run_hook (sv_post_routing_handler sv) q r)" for q r
    by (rule run_hook_retarget) (use assms in \<open>auto simp: server_blind_def\<close>)
  show ?thesis
    using b
    by (auto simp: handleRoute_def Let_def m handleStaticResource_retarget post build_retarget blind_def
        split: option.split sum.split)
qed

text \<open>What the plain-text server would answer, independently of any connection.\<close>

definition reply :: "uninitialised \<Rightarrow> string \<Rightarrow> Server \<Rightarrow> world \<Rightarrow> string option result" where
  "reply u raw sv w =
     (let req = Request_new raw
      in handleRoute w sv req (run_hook (sv_pre_routing_handler sv) req
           (Response_new (sv_default_headers sv) 0 (un_content_type u))))"

lemma reply_any_target:
  assumes "server_blind sv"
  shows "handleRoute w sv (Request_new raw) (run_hook (sv_pre_routing_handler sv) (Request_new raw)
      (retarget fd s (Response_new (sv_default_headers sv) 0 (un_content_type u)))) = reply u raw sv w"
proof -
  have "run_hook (sv_pre_routing_handler sv) q (retarget fd s r) = retarget fd s (run_hook (sv_pre_routing_handler sv) q r)" for q r
    by (rule run_hook_retarget) (use assms in \<open>auto simp: server_blind_def\<close>)
  then show ?thesis by (simp add: reply_def Let_def handleRoute_retarget [OF assms])
qed

lemma ssl_ordinary_performs:
  assumes "ordinary (ss_server ss) raw" "ss_clients ss sd = Some c"
  shows "ssl_performRequest u sd raw (ss, w) = ssl_answer sd (Request_new raw)
    (run_hook (sv_pre_routing_handler (ss_server ss)) (Request_new raw)
      (Response_new_ssl (sv_default_headers (ss_server ss)) (cc_ssl c) (un_content_type u) (un_sockfd u))) (ss, w)"
  using assms by (auto simp: ordinary_def ssl_performRequest_def Let_def processWebsocketHandshake_def client_at_def)

text \<open>
  C20. The TLS server answers like the plain-text one where no handler and no hook looks at the
  response's descriptor or TLS object: both send the same reply to the same request, byte for
  byte, and differ only in the call that sends it; a request without a reply leaves both as they were,
  and an exception escapes from both. The request is any on a server without WebSocket routes, and on
  others one that neither starts like a frame nor has an \<open>Upgrade\<close> header; on the TLS side its
  connection is in the table.
\<close>

theorem tls_answers_like_plain:
  assumes "server_blind (ss_server ss)" "ordinary (ss_server ss) raw" "ss_clients ss sd = Some c"
  shows "performRequest u sd raw (ss_server ss) w =
      and_then (of_result (reply u raw (ss_server ss) w)) (\<lambda>r. case r of
         None \<Rightarrow> Ret (ss_server ss, w)
       | Some body \<Rightarrow> and_then (sendResponse sd body w) (\<lambda>(_, w). Ret (ss_server ss, w))) \<and>
    ssl_performRequest u sd raw (ss, w) =
      and_then (of_result (reply u raw (ss_server ss) w)) (\<lambda>r. case r of
         None \<Rightarrow> Ret (ss, w)
       | Some body \<Rightarrow> and_then (ssl_sendResponse sd body (ss, w)) (\<lambda>(_, st). Ret st))"
proof -
  have plain: "retarget sd None (Response_new hs 0 g) = Response_new hs sd g" for hs g
  proof -
    have "Response_new hs sd g = Response_new_ssl hs None g sd"
      by (simp add: Response_new_def Response_new_ssl_def blank_response_def)
    then show ?thesis by (metis Response_new_retarget)
  qed
  show ?thesis
    using reply_any_target [OF assms(1), of w raw sd None u]
      reply_any_target [OF assms(1), of w raw "un_sockfd u" "cc_ssl c" u]
    by (simp add: ordinary_performs [OF assms(2)] ssl_ordinary_performs [OF assms(2,3)] answer_def ssl_answer_def plain
        Response_new_retarget [of _ _ _ _ 0])
qed

section \<open>Delivery\<close>

lemma ssl_write_sent:
  assumes "ssl_write (Some s) data t = Inr (Some (n, e, t'))"
  shows "ssl_sent s t' = ssl_sent s t @ take n data" "n \<le> length data"
  using assms by (auto simp: ssl_write_def ssl_sent_def min_def split: sum.splits list.splits)

lemma ssl_sendAll_sent:
  "ssl_sendAll c data w = Ret (ok, w') \<Longrightarrow> cc_ssl c = Some s \<Longrightarrow>
   \<exists>n. ssl_sent s (w_tls w') = ssl_sent s (w_tls w) @ take n data \<and> (ok \<longrightarrow> length data \<le> n)"
proof (induction c data w rule: ssl_sendAll.induct)
  case (1 c data w)
  obtain written e w1 where wr: "SSLWrite c data w = Ret ((written, e), w1)"
    using "1.prems"(1) by (cases "SSLWrite c data w") (auto simp: ssl_sendAll.simps [of c data w])
  then obtain n t where n: "ssl_write (Some s) data (w_tls w) = Inr (Some (n, e, t))" "w1 = w\<lparr>w_tls := t\<rparr>"
    "written = (if 0 < n then int n else - 1)"
    using "1.prems"(2) by (auto simp: SSLWrite_def and_then_Ret split: option.splits)
  note sent = ssl_write_sent [OF n(1)]
  show ?case
  proof (cases "n = 0")
    case True
    then have w: "written = - 1" "ssl_sent s (w_tls w1) = ssl_sent s (w_tls w)" using n sent by simp_all
    have "ok = False \<and> w' = w1 \<or> (e = EAGAIN \<or> e = EWOULDBLOCK) \<and> ssl_sendAll c data w1 = Ret (ok, w')"
      using "1.prems"(1) wr w by (auto simp: ssl_sendAll.simps [of c data w] split: if_splits)
    then show ?thesis
      using "1.IH"(1) [OF wr refl refl w(1) _ _ "1.prems"(2)] w(2) by (metis append_Nil2 take0)
  next
    case False
    then have w: "written \<noteq> - 1" "nat written = n" using n by simp_all
    show ?thesis
    proof (cases "drop n data = []")
      case True
      with "1.prems"(1) wr w have "ok" "w' = w1"
        by (auto simp: ssl_sendAll.simps [of c data w] Let_def)
      with sent n True show ?thesis by (intro exI [of _ n]) simp
    next
      case rest: False
      with "1.prems"(1) wr w have "ssl_sendAll c (drop n data) w1 = Ret (ok, w')"
        by (auto simp: ssl_sendAll.simps [of c data w] Let_def)
      with "1.IH"(2) [OF wr refl refl w(1) refl, unfolded w(2), OF rest _ "1.prems"(2)] obtain k where
        "ssl_sent s (w_tls w') = ssl_sent s (w_tls w1) @ take k (drop n data)" "ok \<longrightarrow> length (drop n data) \<le> k"
        by blast
      with sent n(2) show ?thesis
        by (intro exI [of _ "n + k"]) (auto simp: take_add)
    qed
  qed
qed

text \<open>
  C25. What \<open>SSLServer::sendResponse\<close> reports is true: whatever short writes and retries there were,
  the bytes written to the connection's TLS object are a prefix of the response, in order and
  without repetition, and the whole response when it returns true.
\<close>

theorem tls_send_delivers:
  assumes "ssl_sendResponse sd body (ss, w) = Ret (ok, ss', w')" "ss_clients ss sd = Some c" "cc_ssl c = Some s"
  shows "ss' = ss \<and> (\<exists>n. ssl_sent s (w_tls w') = ssl_sent s (w_tls w) @ take n body \<and>
    (ok \<longrightarrow> ssl_sent s (w_tls w') = ssl_sent s (w_tls w) @ body))"
proof -
  have "ssl_sendAll c body w = Ret (ok, w')" "ss' = ss"
    using assms(1,2) by (auto simp: ssl_sendResponse_def client_at_def and_then_Ret)
  with ssl_sendAll_sent [OF this(1) assms(3)] show ?thesis by auto
qed

section \<open>A WebSocket handler that closes its connection\<close>

text \<open>
  A WebSocket handler that closes its connection makes the TLS server free one object twice:
  \<open>close\<close> frees the object through the handler's copy of the pointer, the table keeps its own,
  and \<open>stop\<close> frees it again.
\<close>

definition closing_handler :: ws_handler where
  "closing_handler ws w = and_then (ws_close ws w) (\<lambda>(ws, w). Ret w)"

lemma handler_close_frees_twice:
  assumes "ss_clients ss = [sd \<mapsto> c]" "cc_ssl c = Some s" "s \<in> t_live (w_tls w)"
    and "getWsRouteBySocketId sd (sv_wsRoutes (ss_server ss)) = Some route" "wr_handler route = closing_handler"
    and "getWebSocketFrame raw = Some opcode" "opcode \<noteq> Close"
  shows "\<exists>w'. ssl_performRequest u sd raw (ss, w) = Ret (ss, w') \<and> sd \<notin> w_open w' \<and> s \<notin> t_live (w_tls w') \<and>
    ssl_stop [sd] (ss, w') = Throw Invalid_pointer"
proof -
  have routes: "sv_wsRoutes (ss_server ss) \<noteq> []" using assms(4) by auto
  let ?w = "(sys_close sd w)\<lparr>w_tls := (w_tls w)\<lparr>t_live := t_live (w_tls w) - {s}\<rparr>\<rparr>"
  have "ssl_performRequest u sd raw (ss, w) = Ret (ss, ?w)"
    using assms routes
    by (simp add: ssl_performRequest_def client_at_def Let_def ssl_dispatchWebSocket_def closing_handler_def ws_close_def
        WebSocket_new_ssl_def new_frame_ssl_def new_frame_def ssl_free_def sys_close_def)
  moreover have "ssl_stop [sd] (ss, ?w) = Throw Invalid_pointer"
    using assms(1,2) by (simp add: ssl_stop_def closeClient_def ssl_free_def)
  ultimately show ?thesis by (auto simp: sys_close_def)
qed

section \<open>Instances\<close>

definition tls_memory :: tls where
  "tls_memory = tls_start\<lparr>t_next := 1, t_live := {0}, t_established := {0}, t_writes := [(3, EAGAIN), (0, EAGAIN), (9, EAGAIN)]\<rparr>"

definition tls_client :: ClientConnection where
  "tls_client = \<lparr>cc_fd = 4, cc_ssl = Some 0, cc_handshake_completed = True\<rparr>"

definition tls_server :: "ws_handler \<Rightarrow> SSLServer" where
  "tls_server h = (SSLServer_new ''h'' 443 ''c'' ''k'')\<lparr>ss_server := ws_server h, ss_clients := [4 \<mapsto> tls_client]\<rparr>"

lemma tls_write_example:
  "ssl_sendResponse 4 ''hello'' (tls_server h, (assets_world sample_file)\<lparr>w_tls := tls_memory\<rparr>) =
     Ret (True, tls_server h, (assets_world sample_file)\<lparr>w_tls := tls_memory\<lparr>t_used := {0},
       t_out := [(0, ''hel''), (0, []), (0, ''lo'')], t_writes := []\<rparr>\<rparr>)"
  by (simp add: ssl_sendResponse_def ssl_sendAll.simps client_at_def tls_server_def tls_client_def SSLWrite_def
      ssl_write_def deref_def tls_memory_def tls_start_def Let_def)

theorem tls_send_delivers_witness:
  "\<forall>h. \<exists>w'. ssl_sendResponse 4 ''hello'' (tls_server h, (assets_world sample_file)\<lparr>w_tls := tls_memory\<rparr>) =
     Ret (True, tls_server h, w') \<and> ssl_sent 0 (w_tls w') = ''hello''"
proof
  fix h
  have "ss_clients (tls_server h) 4 = Some tls_client" "cc_ssl tls_client = Some 0"
    by (simp_all add: tls_server_def tls_client_def)
  from tls_send_delivers [OF tls_write_example this] tls_write_example [of h]
  show "\<exists>w'. ssl_sendResponse 4 ''hello'' (tls_server h, (assets_world sample_file)\<lparr>w_tls := tls_memory\<rparr>) =
     Ret (True, tls_server h, w') \<and> ssl_sent 0 (w_tls w') = ''hello''"
    by (simp add: ssl_sent_def tls_memory_def tls_start_def)
qed

lemma handler_close_frees_twice_witness:
  "\<exists>w. ssl_stop [4] (tls_server closing_handler, w) = Throw Invalid_pointer"
proof -
  have "getWebSocketFrame (from_bytes [0x81, 0x80, 0, 0, 0, 0]) = Some Text" by code_simp
  from handler_close_frees_twice [OF _ _ _ _ _ this, of "tls_server closing_handler" 4 tls_client 0
      "(assets_world sample_file)\<lparr>w_tls := tls_memory\<rparr>" "hd (sv_wsRoutes (ws_server closing_handler))"]
  show ?thesis
    by (auto simp: tls_server_def tls_client_def tls_memory_def ws_server_def)
qed

definition tls_host :: SSLServer where
  "tls_host = (tls_server closing_handler)\<lparr>ss_server := hi_server\<rparr>"

lemma hi_server_blind: "server_blind hi_server"
proof -
  have b: "blind hello_handler" "blind stamp_hook"
    by (simp_all add: blind_def hello_handler_def stamp_hook_def del: setHeader_update)
  have "routes (sv_router busy_server) k = None" for k
    by (simp add: busy_server_def setPostRoute_def setWsRoute_def host_server_def Server_new_def)
  then have "routes (sv_router hi_server) (p, m) = Some h \<Longrightarrow> h = hello_handler" for p m h
    using router.table_add [of "(''POST'', ''/hi'')" hello_handler "sv_router busy_server" "(p, m)"]
    by (simp add: hi_server_def setRoute_def split: if_splits)
  then have "fst (match_route (sv_router hi_server) req) = Some h \<Longrightarrow> h = hello_handler" for req h
    by (auto simp: match_route_eq split: option.splits)
  moreover have "sv_pre_routing_handler hi_server = None" "sv_post_routing_handler hi_server = Some stamp_hook"
    by (simp_all add: hi_server_def setRoute_def busy_server_def setPostRoute_def setWsRoute_def host_server_def Server_new_def)
  ultimately show ?thesis using b by (auto simp: server_blind_def)
qed

theorem tls_answers_like_plain_witness:
  "\<forall>w. performRequest sample_memory 4 hi_message hi_server w =
     and_then (sendResponse 4 stamped_hello w) (\<lambda>(_, w). Ret (hi_server, w)) \<and>
   ssl_performRequest sample_memory 4 hi_message (tls_host, w) =
     and_then (ssl_sendResponse 4 stamped_hello (tls_host, w)) (\<lambda>(_, st). Ret st)"
proof
  fix w
  note found = registered_route_found [OF hi_route(1-7)]
  have raw: "Request_new hi_message = hi_request" using found(1) by (simp add: hi_message_def)
  have "ordinary hi_server hi_message"
    using text_is_no_frame [of POST] hi_route(8) by (simp add: ordinary_def raw) (simp add: hi_message_def)
  moreover have "ss_server tls_host = hi_server" "ss_clients tls_host 4 = Some tls_client"
    by (simp_all add: tls_host_def tls_server_def)
  moreover have "reply sample_memory hi_message hi_server w = Inr (Some stamped_hello)"
    using found(2) [of hello_handler] hi_reply [of "file_contents w" hi_request 0]
    by (simp add: reply_def raw handleRoute_def hi_server_def setRoute_fields Let_def)
  ultimately show "performRequest sample_memory 4 hi_message hi_server w =
     and_then (sendResponse 4 stamped_hello w) (\<lambda>(_, w). Ret (hi_server, w)) \<and>
   ssl_performRequest sample_memory 4 hi_message (tls_host, w) =
     and_then (ssl_sendResponse 4 stamped_hello (tls_host, w)) (\<lambda>(_, st). Ret st)"
    using tls_answers_like_plain [of tls_host hi_message 4 tls_client sample_memory w] hi_server_blind by simp
qed

end
