(* ===== verification/Worker.thy ===== *)
theory Worker
  imports Cpp_Prelude
begin

text \<open>
  \<open>src/src/worker.h\<close> and \<open>Server::repeatEvery\<close>: background tasks under a key, \<open>int\<close> for
  \<open>Worker\<close> and \<open>string\<close> for \<open>TaskManager\<close>. Starting a task under a key that is taken asks
  the old task to stop and waits for its end, holding the mutex. A task is a thread that
  calls its function again and again. The interleaving of the threads and the callers is a
  step relation.
\<close>

section \<open>Threads\<close>

text \<open>
  Where a thread is: at the loop condition, in the task's function, between two calls, or
  finished. \<open>Plain\<close> is the loop of \<open>Server::repeatEvery\<close>, which ends when the function returns
  false and sleeps the whole interval; \<open>Polling\<close> is the loop of \<open>TaskManager::repeatEvery\<close>,
  which ignores the result and looks at the stop token while it waits.
\<close>

datatype loop = Plain | Polling

datatype pc = At_test | In_function | Waiting | Finished

record thread =
  th_loop :: loop
  th_pc :: pc
  th_stop :: bool

definition new_thread :: "loop \<Rightarrow> thread" where
  "new_thread l = \<lparr>th_loop = l, th_pc = At_test, th_stop = False\<rparr>"

text \<open>The loop of \<open>Server::repeatEvery\<close>.\<close>

inductive plain_step :: "thread \<Rightarrow> thread \<Rightarrow> bool" where
  plain_stop: "th_pc t = At_test \<Longrightarrow> th_stop t \<Longrightarrow> plain_step t (t\<lparr>th_pc := Finished\<rparr>)"
| plain_go: "th_pc t = At_test \<Longrightarrow> \<not> th_stop t \<Longrightarrow> plain_step t (t\<lparr>th_pc := In_function\<rparr>)"
| fn_false: "th_pc t = In_function \<Longrightarrow> plain_step t (t\<lparr>th_pc := Finished\<rparr>)"
| fn_true: "th_pc t = In_function \<Longrightarrow> plain_step t (t\<lparr>th_pc := Waiting\<rparr>)"
| slept: "th_pc t = Waiting \<Longrightarrow> plain_step t (t\<lparr>th_pc := At_test\<rparr>)"

text \<open>The loop of \<open>TaskManager::repeatEvery\<close>. Going on waiting changes nothing and is no step.\<close>

inductive polling_step :: "thread \<Rightarrow> thread \<Rightarrow> bool" where
  polling_stop: "th_pc t = At_test \<Longrightarrow> th_stop t \<Longrightarrow> polling_step t (t\<lparr>th_pc := Finished\<rparr>)"
| polling_go: "th_pc t = At_test \<Longrightarrow> \<not> th_stop t \<Longrightarrow> polling_step t (t\<lparr>th_pc := In_function\<rparr>)"
| fn_done: "th_pc t = In_function \<Longrightarrow> polling_step t (t\<lparr>th_pc := Waiting\<rparr>)"
| tick: "th_pc t = Waiting \<Longrightarrow> polling_step t (t\<lparr>th_pc := At_test\<rparr>)"
| wait_stop: "th_pc t = Waiting \<Longrightarrow> th_stop t \<Longrightarrow> polling_step t (t\<lparr>th_pc := Finished\<rparr>)"

inductive_cases plain_stepE: "plain_step t t'"

inductive_cases polling_stepE: "polling_step t t'"

definition thread_step :: "thread \<Rightarrow> thread \<Rightarrow> bool" where
  "thread_step t t' = (case th_loop t of Plain \<Rightarrow> plain_step t t' | Polling \<Rightarrow> polling_step t t')"

lemma thread_stepE:
  assumes "thread_step t t'"
  obtains "th_pc t = At_test" "th_stop t" "t' = t\<lparr>th_pc := Finished\<rparr>"
  | "th_pc t = At_test" "\<not> th_stop t" "t' = t\<lparr>th_pc := In_function\<rparr>"
  | "th_pc t = In_function" "t' = t\<lparr>th_pc := Finished\<rparr>"
  | "th_pc t = In_function" "t' = t\<lparr>th_pc := Waiting\<rparr>"
  | "th_pc t = Waiting" "t' = t\<lparr>th_pc := At_test\<rparr>"
  | "th_pc t = Waiting" "th_stop t" "t' = t\<lparr>th_pc := Finished\<rparr>"
  using assms by (auto simp: thread_step_def split: loop.splits elim: plain_stepE polling_stepE)

lemma thread_moves: "th_pc t \<noteq> Finished \<Longrightarrow> \<exists>t'. thread_step t t'"
  using plain_stop [of t] plain_go [of t] polling_stop [of t] polling_go [of t]
  by (cases "th_loop t"; cases "th_pc t")
    (auto simp: thread_step_def intro: fn_true slept fn_done tick)

section \<open>The table of tasks\<close>

text \<open>
  All threads ever started, by number; the table \<open>threads_\<close>; and the caller inside \<open>enqueue\<close>,
  if there is one, with the key and the new task: it has the mutex, so there is at most one.
  The caller is none of the tasks: a task that starts a task under its own key waits for itself.
\<close>

record 'k worker =
  wk_threads :: "thread list"
  wk_table :: "'k \<rightharpoonup> nat"
  wk_caller :: "('k \<times> loop) option"

definition worker_new :: "'k worker" where
  "worker_new = \<lparr>wk_threads = [], wk_table = Map.empty, wk_caller = None\<rparr>"

definition request_stop :: "nat \<Rightarrow> thread list \<Rightarrow> thread list" where
  "request_stop i ts = ts[i := (ts ! i)\<lparr>th_stop := True\<rparr>]"

definition spawn :: "'k \<Rightarrow> loop \<Rightarrow> 'k worker \<Rightarrow> 'k worker" where
  "spawn key l wk =
     wk\<lparr>wk_threads := wk_threads wk @ [new_thread l], wk_table := (wk_table wk)(key \<mapsto> length (wk_threads wk)),
        wk_caller := None\<rparr>"

inductive worker_step :: "'k worker \<Rightarrow> 'k worker \<Rightarrow> bool" where
  run_thread: "i < length (wk_threads wk) \<Longrightarrow> thread_step (wk_threads wk ! i) t \<Longrightarrow>
    worker_step wk (wk\<lparr>wk_threads := (wk_threads wk)[i := t]\<rparr>)"
| enqueue_free: "wk_caller wk = None \<Longrightarrow> wk_table wk key = None \<Longrightarrow> worker_step wk (spawn key l wk)"
| enqueue_taken: "wk_caller wk = None \<Longrightarrow> wk_table wk key = Some i \<Longrightarrow>
    worker_step wk (wk\<lparr>wk_threads := request_stop i (wk_threads wk), wk_caller := Some (key, l)\<rparr>)"
| joined: "wk_caller wk = Some (key, l) \<Longrightarrow> wk_table wk key = Some i \<Longrightarrow> th_pc (wk_threads wk ! i) = Finished \<Longrightarrow>
    worker_step wk (spawn key l wk)"

inductive_cases worker_stepE: "worker_step wk wk'"

section \<open>The invariant\<close>

text \<open>
  A thread that is not finished is in the table, under one key only; whoever waits in
  \<open>enqueue\<close> waits for a thread that was asked to stop.
\<close>

definition worker_inv :: "'k worker \<Rightarrow> bool" where
  "worker_inv wk \<longleftrightarrow>
     ran (wk_table wk) \<subseteq> {..<length (wk_threads wk)} \<and> inj_on (wk_table wk) (dom (wk_table wk)) \<and>
     (\<forall>i < length (wk_threads wk). th_pc (wk_threads wk ! i) \<noteq> Finished \<longrightarrow> i \<in> ran (wk_table wk)) \<and>
     (\<forall>key l. wk_caller wk = Some (key, l) \<longrightarrow>
        (\<exists>i. wk_table wk key = Some i \<and> th_stop (wk_threads wk ! i)))"

lemma thread_step_frame: "thread_step t t' \<Longrightarrow> th_stop t' = th_stop t \<and> th_loop t' = th_loop t \<and> th_pc t \<noteq> Finished"
  by (auto elim: thread_stepE)

lemma spawn_inv:
  assumes "worker_inv wk" "\<And>i. wk_table wk key = Some i \<Longrightarrow> th_pc (wk_threads wk ! i) = Finished"
  shows "worker_inv (spawn key l wk)"
proof -
  let ?n = "length (wk_threads wk)"
  have fresh: "?n \<notin> ran (wk_table wk)" using assms(1) by (auto simp: worker_inv_def)
  have in_table: "i \<in> ran ((wk_table wk)(key \<mapsto> ?n))"
    if "i < ?n" "th_pc (wk_threads wk ! i) \<noteq> Finished" for i
  proof -
    have "i \<in> ran (wk_table wk)" using assms(1) that by (simp add: worker_inv_def)
    then obtain k where "wk_table wk k = Some i" by (auto simp: ran_def)
    moreover from this assms(2) that(2) have "k \<noteq> key" by auto
    ultimately show ?thesis by (auto simp: ran_def intro!: exI [of _ k])
  qed
  have "ran ((wk_table wk)(key \<mapsto> ?n)) \<subseteq> {..<Suc ?n}"
    using assms(1) by (auto simp: worker_inv_def ran_def split: if_splits)
  moreover have "?n \<in> ran ((wk_table wk)(key \<mapsto> ?n))" by (auto simp: ran_def)
  ultimately show ?thesis
    using assms(1) inj_map_insert [OF _ fresh, of key] in_table
    by (auto simp: worker_inv_def spawn_def nth_append less_Suc_eq)
qed

lemma worker_inv_step:
  assumes "worker_inv wk" "worker_step wk wk'"
  shows "worker_inv wk'"
  using assms(2)
proof cases
  case (run_thread i t)
  then show ?thesis
    using assms(1) thread_step_frame [OF run_thread(3)]
    by (auto simp: worker_inv_def nth_list_update; metis)
next
  case (enqueue_free key l)
  then show ?thesis using spawn_inv [OF assms(1), of key l] by simp
next
  case (enqueue_taken key i l)
  then have "i < length (wk_threads wk)" using assms(1) by (auto simp: worker_inv_def ran_def)
  with enqueue_taken show ?thesis
    using assms(1) by (auto simp: worker_inv_def request_stop_def nth_list_update)
next
  case (joined key l i)
  then show ?thesis using spawn_inv [OF assms(1), of key l] by simp
qed

interpretation worker_life: invariant_system "\<lambda>wk. wk = worker_new" worker_step worker_inv
proof (unfold_locales, goal_cases)
  case (1 s)
  then show ?case by (simp add: worker_inv_def worker_new_def)
next
  case (2 s s')
  then show ?case by (rule worker_inv_step)
qed

text \<open>
  C30. At most one task runs under a key: whatever the interleaving, every thread that has not
  finished is the table's thread for exactly one key, so two tasks of one key never run at the same
  time, and a new task only starts after the old one has ended.
\<close>

theorem one_task_per_key:
  assumes "worker_step\<^sup>*\<^sup>* worker_new wk" "i < length (wk_threads wk)" "th_pc (wk_threads wk ! i) \<noteq> Finished"
  shows "\<exists>!key. wk_table wk key = Some i"
proof -
  have inv: "worker_inv wk" using worker_life.inv_reachable [OF refl assms(1)] .
  then obtain key where "wk_table wk key = Some i"
    using assms(2,3) by (auto simp: worker_inv_def ran_def)
  with inv inj_map_key [of "wk_table wk"] show ?thesis by (auto simp: worker_inv_def)
qed

section \<open>Stopping\<close>

text \<open>The steps a thread can still take once it was asked to stop.\<close>

definition stop_rank :: "thread \<Rightarrow> nat" where
  "stop_rank t = (case th_pc t of Finished \<Rightarrow> 0 | At_test \<Rightarrow> 1 | Waiting \<Rightarrow> 2 | In_function \<Rightarrow> 3)"

lemma stop_rank_step: "thread_step t t' \<Longrightarrow> th_stop t \<Longrightarrow> stop_rank t' < stop_rank t"
  by (auto simp: stop_rank_def elim!: thread_stepE)

text \<open>
  C31. A caller that waits for the old task gets through: the thread it waits for was asked to stop,
  so it never calls its function again, takes at most three more steps, can always take the next
  one until it is finished, and then the caller can start the new task.
\<close>

theorem enqueue_gets_through:
  assumes "worker_step\<^sup>*\<^sup>* worker_new wk" "wk_caller wk = Some (key, l)"
  shows "\<exists>i. wk_table wk key = Some i \<and> stop_rank (wk_threads wk ! i) \<le> 3 \<and>
    (\<forall>t. thread_step (wk_threads wk ! i) t \<longrightarrow>
       th_stop t \<and> th_pc t \<noteq> In_function \<and> stop_rank t < stop_rank (wk_threads wk ! i)) \<and>
    (th_pc (wk_threads wk ! i) \<noteq> Finished \<longrightarrow> (\<exists>t. thread_step (wk_threads wk ! i) t)) \<and>
    (th_pc (wk_threads wk ! i) = Finished \<longrightarrow> worker_step wk (spawn key l wk))"
proof -
  have "worker_inv wk" using worker_life.inv_reachable [OF refl assms(1)] .
  with assms(2) obtain i where i: "wk_table wk key = Some i" "th_stop (wk_threads wk ! i)"
    by (auto simp: worker_inv_def)
  have "stop_rank (wk_threads wk ! i) \<le> 3" by (simp add: stop_rank_def split: pc.split)
  moreover have "th_stop t \<and> th_pc t \<noteq> In_function \<and> stop_rank t < stop_rank (wk_threads wk ! i)"
    if "thread_step (wk_threads wk ! i) t" for t
    using that i(2) stop_rank_step [OF that] thread_step_frame [OF that] by (auto elim: thread_stepE)
  moreover have "worker_step wk (spawn key l wk)" if "th_pc (wk_threads wk ! i) = Finished"
    using joined [OF assms(2) i(1) that] .
  ultimately show ?thesis using i(1) thread_moves by blast
qed

section \<open>A run\<close>

definition one_task :: "int worker" where
  "one_task = spawn 7 Plain worker_new"

lemma one_task_reached: "worker_step\<^sup>*\<^sup>* worker_new one_task"
  unfolding one_task_def by (rule r_into_rtranclp, rule enqueue_free) (simp_all add: worker_new_def)

theorem one_task_per_key_witness: "\<exists>!key. wk_table one_task key = Some 0"
  using one_task_per_key [OF one_task_reached, of 0] by (simp add: one_task_def spawn_def worker_new_def new_thread_def)

theorem enqueue_gets_through_witness:
  "\<exists>wk :: int worker. wk_caller wk = Some (7, Polling) \<and> wk_table wk 7 = Some 0 \<and> stop_rank (wk_threads wk ! 0) \<le> 3"
proof -
  let ?wk = "one_task\<lparr>wk_threads := request_stop 0 (wk_threads one_task), wk_caller := Some (7, Polling)\<rparr>"
  have "worker_step one_task ?wk"
    by (rule enqueue_taken) (simp_all add: one_task_def spawn_def worker_new_def)
  with one_task_reached have "worker_step\<^sup>*\<^sup>* worker_new ?wk" by (rule rtranclp.rtrancl_into_rtrancl)
  from enqueue_gets_through [OF this, of 7 Polling] show ?thesis
    by (intro exI [of _ ?wk]) (auto simp: one_task_def spawn_def worker_new_def)
qed

end
