(* ===== verification/Example_Programs.thy ===== *)
theory Example_Programs
  imports Server_Exchange Client Worker
begin

text \<open>
  The three programs under \<open>src/examples\<close>: the client, the REST server with one parameterised
  route, and the server with a JSON route, an event stream and a WebSocket clock. The handlers
  are the programs' lambdas; what a handler hands to the task manager is given by the key of the
  task and the function the task's thread calls. How such threads start, stop and follow each other
  is the step relation of \<open>Worker\<close>; what they send while the server runs is not interleaved with the
  server's own steps here.
\<close>

section \<open>The client\<close>

text \<open>
  What \<open>main\<close> logs: the status, the body and the value of \<open>Content-Type\<close>. Dereferencing a result
  that holds an error is undefined, \<open>at\<close> throws for a header that is not there.
\<close>

definition client_main ::
  "exchange \<Rightarrow> ContentType option \<Rightarrow> int \<Rightarrow> world \<Rightarrow> ((nat \<times> string \<times> string) \<times> world) exec" where
  "client_main ex g fd w =
     and_then (Client_new ''http://0.0.0.0:8080'') (\<lambda>cli.
     and_then (client_get (http_sendRequest cli ex) g fd ''/api/v1/users/100'' w) (\<lambda>(res, w).
       case res of
         Unexpected m \<Rightarrow> Throw Undefined_behaviour
       | Expected r \<Rightarrow>
           (case map_of (res_headers r) ''Content-Type'' of
              None \<Rightarrow> Throw Out_of_range
            | Some t \<Rightarrow> Ret ((status_code (res_status r), res_content r, t), w))))"

section \<open>The REST server\<close>

abbreviation quote :: string where
  "quote \<equiv> [CHR 0x22]"

definition value_json :: "string \<Rightarrow> string" where
  "value_json v = ''{'' @ quote @ ''value'' @ quote @ '':'' @ quote @ v @ quote @ ''}''"

definition rest_users_handler :: request_handler where
  "rest_users_handler req res =
     (case req_params req ''id'' of
        None \<Rightarrow> res
      | Some i \<Rightarrow> put_content (value_json i) (put_type JSON res))"

definition rest_main :: Server where
  "rest_main = setRoute GET ''/api/v1/users/:id'' rest_users_handler (Server_new ''0.0.0.0'' 8080)"

text \<open>The handler of \<open>SIGINT\<close>; the process then exits with status 0.\<close>

definition rest_on_sigint :: "Server \<Rightarrow> world \<Rightarrow> Server \<times> world" where
  "rest_on_sigint sv w = stop sv w"

section \<open>The server with streams\<close>

text \<open>The local time is the environment's, \<open>put_time\<close> writes it as \<open>%d.%m.%Y %H:%M:%S\<close>.\<close>

definition getCurrentTimeJson :: "tm \<Rightarrow> string" where
  "getCurrentTimeJson local_tm =
     ''{'' @ quote @ ''content'' @ quote @ '':'' @ quote @ ''<div id='' @ [CHR 0x27] @ ''wstime'' @
     [CHR 0x27] @ ''>'' @
     two_digits (tm_mday local_tm) @ ''.'' @ two_digits (tm_mon local_tm + 1) @ ''.'' @ to_string (tm_year local_tm) @ '' '' @
     two_digits (tm_hour local_tm) @ '':'' @ two_digits (tm_min local_tm) @ '':'' @ two_digits (tm_sec local_tm) @
     ''</div>'' @ quote @ ''}''"

text \<open>\<open>req.params().at("v")\<close> throws if the route did not set the parameter.\<close>

definition users_handler :: "Request \<Rightarrow> Response \<Rightarrow> Response result" where
  "users_handler req res =
     (let res = put_content (''{'' @ quote @ ''value'' @ quote @ '':'' @ quote) (put_type JSON res)
      in case req_params req ''v'' of
           None \<Rightarrow> Inl Out_of_range
         | Some v \<Rightarrow> Inr (put_content (quote @ ''}'') (put_content v res)))"

text \<open>
  The stream route answers nothing itself. It starts a task under the path of the request; the
  task's function sends the next event to the socket of the response it has copied. The counter is
  shared by all those tasks and overflows at the end of \<open>int\<close>.
\<close>

definition stream_handler :: "Request \<Rightarrow> Response \<Rightarrow> Response \<times> (string \<times> loop)" where
  "stream_handler req res = (res, (req_path req, Polling))"

definition stream_task ::
  "(string \<rightharpoonup> string) \<Rightarrow> (int \<Rightarrow> string \<Rightarrow> int) \<Rightarrow> int \<times> Response \<Rightarrow> (bool \<times> int \<times> Response) exec" where
  "stream_task fs send = (\<lambda>(counter, res).
     if counter = 2 ^ 31 - 1 then Throw Undefined_behaviour
     else (let counter = counter + 1;
               (ok, res) = stream fs send (''data: '' @ int_string counter @ [LF, LF]) res
           in Ret (ok, counter, res)))"

text \<open>The WebSocket route: the same for a text frame with the time.\<close>

definition wstime_handler :: "WebSocket \<Rightarrow> WebSocket \<times> (string \<times> loop)" where
  "wstime_handler ws = (ws, (''/wstime'', Polling))"

definition wstime_frame :: "tm \<Rightarrow> byte list" where
  "wstime_frame local_tm = send_buffer (getCurrentTimeJson local_tm) Text_frame"

definition users_route :: request_handler where
  "users_route req res = (case users_handler req res of Inr r \<Rightarrow> r | Inl e \<Rightarrow> res)"

text \<open>
  A model server's handlers do not throw; \<open>server_main_matches\<close> shows that \<open>users_handler\<close> does not
  either where the router calls it, so \<open>users_route\<close> stands for it.
\<close>

definition server_main :: Server where
  "server_main =
     setWsRoute ''/wstime'' (\<lambda>ws w. Ret w)
       (setRoute GET ''/stream'' (\<lambda>req res. fst (stream_handler req res))
         (setRoute GET ''/api/v1/users/:v'' users_route (Server_new ''127.0.0.1'' 8082)))"

section \<open>Which requests reach the handlers\<close>

lemma users_parts:
  assumes "req_path req = ''/api/v1/users/'' @ x" "x \<noteq> []" "CHR ''/'' \<notin> set x" "CHR ''?'' \<notin> set x"
  shows "request_parts req = [''api'', ''v1'', ''users'', x]"
proof -
  have "target_path (req_path req) = ''/api/v1/users/'' @ x"
    using assms(1,4) find_char_None [of "CHR ''?''" "req_path req" 0] by (simp add: target_path_def)
  with assms(2,3) show ?thesis by (simp add: request_parts_def splitPath_def split_on_absent)
qed

lemma rest_main_matches:
  assumes "req_method req = ''GET''" "req_path req = ''/api/v1/users/'' @ x" "x \<noteq> []" "CHR ''/'' \<notin> set x" "CHR ''?'' \<notin> set x"
  shows "match_route (sv_router rest_main) req = (Some rest_users_handler, setParam ''id'' x req)"
  using users_parts [OF assms(2-5)] assms(1)
  by (simp add: match_route_eq rest_main_def setRoute_def Server_new_def router_eval(1-4,7,8) routes_simps)

lemma server_main_matches:
  assumes "req_method req = ''GET''" "req_path req = ''/api/v1/users/'' @ x" "x \<noteq> []" "CHR ''/'' \<notin> set x" "CHR ''?'' \<notin> set x"
  shows "match_route (sv_router server_main) req = (Some users_route, setParam ''v'' x req)"
    and "users_handler (setParam ''v'' x req) res = Inr (put_content (value_json x) (put_type JSON res))"
proof -
  show "match_route (sv_router server_main) req = (Some users_route, setParam ''v'' x req)"
    using users_parts [OF assms(2-5)] assms(1)
    by (simp add: match_route_eq server_main_def setWsRoute_def setRoute_def Server_new_def router_eval(1-4,7,8) routes_simps)
  show "users_handler (setParam ''v'' x req) res = Inr (put_content (value_json x) (put_type JSON res))"
    by (simp add: users_handler_def setParam_def value_json_def put_content_def)
qed

text \<open>The segment of the path goes into the JSON text as it is: it can add members to the object.\<close>

lemma id_not_escaped:
  "res_content (rest_users_handler (setParam ''id'' (''1'' @ quote @ '','' @ quote @ ''admin'' @ quote @ '':'' @ quote @ ''1'') req)
      (Response_new hs fd g)) =
   ''{'' @ quote @ ''value'' @ quote @ '':'' @ quote @ ''1'' @ quote @ '','' @ quote @ ''admin'' @ quote @ '':'' @ quote @ ''1'' @ quote @ ''}''"
proof -
  have "res_content (Response_new hs fd g) = []"
    using fold_setHeader_frame [of hs "blank_response g fd"] by (simp add: Response_new_def blank_response_def)
  then show ?thesis
    by (simp add: rest_users_handler_def setParam_def value_json_def put_content_def put_type_def)
qed

text \<open>
  The stream of a client ends when a second client asks for the same path: its task is the one that
  \<open>repeatEvery\<close> stops and waits for before it starts the second client's.
\<close>

lemma second_subscriber_ends_first:
  assumes "snd (stream_handler req2 res2) = (key, l)" "req_path req1 = req_path req2"
    and "wk_table wk (fst (snd (stream_handler req1 res1))) = Some i" "wk_caller wk = Some (key, l)"
    and "worker_step wk (spawn key l wk)"
  shows "th_pc (wk_threads wk ! i) = Finished" "wk_table (spawn key l wk) key = Some (length (wk_threads wk))"
proof -
  have "wk_caller (spawn key l wk) = None" by (simp add: spawn_def)
  moreover have "wk_table wk key = Some i" using assms(1-3) by (simp add: stream_handler_def)
  ultimately show "th_pc (wk_threads wk ! i) = Finished"
    using assms(4) by (cases rule: worker_stepE [OF assms(5)]) simp_all
  show "wk_table (spawn key l wk) key = Some (length (wk_threads wk))" by (simp add: spawn_def)
qed

text \<open>An event the peer did not take is not noticed: the task's result is ignored, and the next one is sent.\<close>

lemma stream_goes_on:
  assumes "stream_task fs send (counter, res) = Ret (ok, counter', res')"
  shows "counter' = counter + 1" "th_loop t = Polling \<Longrightarrow> th_pc t = In_function \<Longrightarrow> thread_step t t' \<Longrightarrow> th_pc t' = Waiting"
proof -
  show "counter' = counter + 1"
    using assms by (auto simp: stream_task_def Let_def split: if_splits prod.splits)
  show "th_loop t = Polling \<Longrightarrow> th_pc t = In_function \<Longrightarrow> thread_step t t' \<Longrightarrow> th_pc t' = Waiting"
    by (auto simp: thread_step_def elim: polling_stepE)
qed

end
