(* ===== verification/Spec2Isabelle.thy ===== *)
theory Spec2Isabelle
  imports Server_Loop Server_Exchange Client_Facts WebSocket_Client Handshake
    Https_Client Logger Ssl_Facts Ssl_Exchange Worker Example_Programs
begin

text \<open>
  A verification library for the C++ HTTP server library in \<open>src/src\<close>: a plain-text and a TLS
  server with routes, static files and WebSockets, an HTTP and HTTPS client, a WebSocket client,
  a logger and background tasks. This theory imports the whole library, documents it, and holds
  the properties that span a client and the server.

  \<^bold>\<open>The program.\<close> A \<open>Server\<close> polls its listening socket and its clients. What it reads from a client it
  hands to \<open>performRequest\<close>, which builds a \<open>Request\<close> from the bytes, then decides: a WebSocket
  frame goes to the handler whose route holds the descriptor; an upgrade request is answered and
  its route moved to the descriptor; everything else goes through the \<open>Router\<close> to a handler that
  fills in a \<open>Response\<close>, or to the static files, and what \<open>build\<close> returns is sent in a loop.
  \<open>SSLServer\<close> inherits all of this and overrides the transport: accepting, the handshake phase,
  reading, writing and closing go through a TLS object per connection. The clients run one
  blocking exchange each.

  \<^bold>\<open>Theories and sources.\<close>

    \<^item> \<open>Cpp_Prelude\<close>: the C++ string operations, \<open>size_t\<close> arithmetic that wraps, exceptions and
      \<open>errno\<close> values as data, \<open>std::map\<close> as a sorted association list, a computation that
      returns, throws or never returns (\<open>exec\<close>), and the locales \<open>codec\<close>, \<open>keyed_store\<close> and
      \<open>invariant_system\<close>.
    \<^item> \<open>Wire_Text\<close>: lines and numbers as they stand in a message.
    \<^item> \<open>Utils_Text\<close>, \<open>Utils_Codec\<close>, \<open>Sha1_Vector\<close>, \<open>Http_Date\<close>: \<open>utils.cc\<close> and \<open>utils.h\<close>.
    \<^item> \<open>Response\<close>: \<open>status.h\<close>, \<open>response.h\<close>, \<open>response.cc\<close>. \<open>Request\<close>: \<open>request.h\<close>, \<open>request.cc\<close>.
      \<open>Router\<close>: \<open>router.h\<close>, \<open>router.cc\<close>. \<open>WebSocket\<close>: \<open>websocket.h\<close>, \<open>websocket.cc\<close>.
    \<^item> \<open>Os_World\<close>, \<open>Tls\<close>: the system calls and the TLS library as the sources use them. These
      are not code of the repository; their outcomes are scripts in the state, so a theorem about
      all states is one about every behaviour of kernel, peer and library.
    \<^item> \<open>Server\<close>, \<open>Server_Exchange\<close>, \<open>Server_Loop\<close>: \<open>server.h\<close> and \<open>server.cc\<close>.
    \<^item> \<open>Ssl_Server\<close>, \<open>Ssl_Loop\<close>, \<open>Ssl_Facts\<close>, \<open>Ssl_Exchange\<close>: \<open>sslserver.h\<close>, and the operations of
      \<open>websocket.h\<close> that act on the connection.
    \<^item> \<open>Client\<close>, \<open>Client_Facts\<close>, \<open>Https_Client\<close>: \<open>client.h\<close> and \<open>client.cc\<close>.
    \<^item> \<open>WebSocket_Client\<close>, \<open>Handshake\<close>: \<open>websocketclient.h\<close>, and its handshake with the server.
    \<^item> \<open>Logger\<close>: \<open>logger.h\<close>. \<open>Worker\<close>: \<open>worker.h\<close> and \<open>Server::repeatEvery\<close>.
    \<^item> \<open>Example_Programs\<close>: the client, the REST server and the streaming server of \<open>src/examples\<close>.

  A class is a record whose fields carry the names of its members, an operation is a function of
  the same name on it (with the class in front where two classes share a name, and \<open>ssl_\<close> or
  \<open>https_\<close> for the overriding version). A member the code leaves uninitialised gets its value
  from an argument (\<open>uninitialised\<close>, \<open>g\<close>, \<open>fd\<close>).

  \<^bold>\<open>What is shown.\<close>

    \<^item> The event loops, as step relations closed under everything peers, kernel and file system may
      do between two rounds: in every reachable state of the plain-text loop no descriptor leaks,
      and without WebSocket routes the client list is exact (\<open>Server_Loop\<close>); in every
      reachable state of the TLS loop no data flows before a handshake, nothing freed is used and
      \<open>stop\<close> closes every descriptor, with any WebSocket handlers that leave closing to the server;
      without WebSocket routes the connection table owns exactly the open descriptors and the live
      TLS objects (\<open>Ssl_Facts\<close>).
    \<^item> One exchange, from bytes to bytes: request parsing, routes, static files, the send loops,
      WebSocket frames to their handlers, and the TLS server answering like the plain-text one
      (\<open>Request\<close>, \<open>Server_Exchange\<close>, \<open>Ssl_Exchange\<close>). The WebSocket handshake,
      a WebSocket message, a GET over plain text and one over TLS, each from the client through a round of the server's
      event loop and back, and the example client with the example server are below. Routes, hooks
      and WebSocket routes of the server are arbitrary there; a status without a status line of its
      own reaches the client as 500, and a route an earlier client of the same descriptor number left
      behind takes its place (\<open>Handshake\<close>).
    \<^item> The router refines insertion into a table of patterns (\<open>Router\<close>, locale \<open>route_table\<close>); whatever
      it matches was registered, and static routes are found.
    \<^item> Round trips and equivalences: RFC 6455 frames, chunked bodies, responses from the server's
      \<open>build\<close> through the client's \<open>get\<close>, query strings, dates, Base64 against RFC 4648.
    \<^item> Termination and liveness: \<open>parseChunkedBody\<close> returns where no sum wraps, the send loop ends
      once the kernel takes data, a caller of \<open>enqueue\<close> gets through.
    \<^item> Errors, as theorems: the inputs on which the process dies, a call does not return, a
      connection is lost or memory is freed twice.

  \<^bold>\<open>Loops that may not end.\<close> \<open>parseChunk\<close> is a partial function with value \<open>None\<close> where the recursion does
  not return. The send and read loops recurse on the script of outcomes; a script that is used up
  while the loop still waits gives \<open>Spin\<close>, and the properties say when that cannot happen.
  No other fuel is used. The event loops are step relations, so they need no bound.

  \<^bold>\<open>Widths.\<close> Frame lengths, chunk sizes and hexadecimal sizes are 64-bit words, the SHA-1 and Base64
  registers 32-bit words; positions are natural numbers with \<open>add_sz\<close> where the code adds
  unchecked. \<open>int\<close> parameters from outside are integers with their range stated.

  \<^bold>\<open>Not modelled.\<close> Socket options, non-blocking flags and the start-up calls of the TLS
  library, which keep no state of this program; the destructor of \<open>Worker\<close>; data races on the
  logger; what background tasks send between the steps of the server; the tests. \<open>SSL_write\<close> takes an
  \<open>int\<close> and is modelled for lengths that fit one; \<open>tolower\<close> is the identity on bytes above ASCII, where
  C++ leaves it undefined; a path that opens but whose \<open>tellg\<close> fails counts as one that does not open. Request handlers are pure functions of the
  request and the response; WebSocket handlers act on the world and are arbitrary, except that
  the leak property asks them to close at most their own connection, and the TLS properties that
  they close none: \<open>Ssl_Exchange\<close> shows how a handler that closes makes the server free an object
  twice, and \<open>Ssl_Facts\<close> how a Close frame leaks one, which is why the exactness of the TLS table is
  stated without WebSocket routes.
\<close>

section \<open>The WebSocket handshake, end to end\<close>

text \<open>
  C6. The WebSocket client and the server complete the handshake: the request of a connected client,
  with 16 fresh random bytes as its key, for a path that has a WebSocket route makes the server send the 101
  answer for that key, move the route to this connection, and call the handler registered for the
  path; the client accepts that answer. Host and path hold no blank and no line end, the answer is sent completely,
  and no route listed before the path's own still holds this descriptor number from an earlier
  connection: routes are not detached when a client goes, and with such a route it is that one's
  handler that runs (\<open>stale_route_answers\<close> in \<open>Handshake\<close>).
\<close>

theorem websocket_handshake:
  assumes "wc_connected c" "plain_target (wc_host c)" "plain_target path" "length r = 16" "0 \<le> sent"
    and "key = generateWebsocketKey r" "request = handshake_request c path key"
    and "target_path path \<in> set (map wr_path (sv_wsRoutes sv))"
    and "\<forall>r \<in> set (takeWhile (\<lambda>r. wr_path r \<noteq> target_path path) (sv_wsRoutes sv)). wr_sockfd r \<noteq> sd"
    and "sendResponse sd (handshake_response key) w = Ret (True, w1)"
  shows "\<exists>rs route. getWsRouteBySocketId sd rs = Some route \<and> wr_path route = target_path path \<and>
      (\<exists>r' \<in> set (sv_wsRoutes sv). wr_path r' = target_path path \<and> wr_handler route = wr_handler r') \<and>
      performRequest u sd request sv w =
        and_then (wr_handler route (WebSocket_new sd request (wr_query route) (un_masking_key u)) w1)
          (\<lambda>w. Ret (sv\<lparr>sv_wsRoutes := rs\<rparr>, w)) \<and>
      sent_to sd w1 = sent_to sd w @ handshake_response key \<and>
      wc_handshake r sent (Received (handshake_response key)) path c = (True, request)"
proof -
  let ?q = "req_query (Request_new request)"
  let ?rs = "snd (updateWsRoute (target_path path) ?q sd (sv_wsRoutes sv))"
  obtain route where route: "getWsRouteBySocketId sd ?rs = Some route" "wr_path route = target_path path"
    using updateWsRoute_first [OF assms(8,9), of ?q] by blast
  obtain r' where r': "r' \<in> set (sv_wsRoutes sv)" "wr_path r' = target_path path" "wr_handler route = wr_handler r'"
    using updateWsRoute_keeps_handler [OF getWsRoute_member [OF route(1)]] route(2) by metis
  have "sv_wsRoutes sv \<noteq> []" using assms(8) by auto
  note h = handshake_performed [OF assms(2-4,6) this assms(10) refl, of u, folded assms(7)]
  moreover have "wc_handshake r sent (Received (handshake_response key)) path c = (True, request)"
    using assms(1,5-7) handshake_response_accepted by (simp add: wc_handshake_def)
  moreover have "sent_to sd w1 = sent_to sd w @ handshake_response key"
    using sendAll_sent [of sd "handshake_response key" w True w1] assms(10) by (auto simp: sendResponse_def)
  ultimately show ?thesis
    using route r' by (intro exI [of _ ?rs] exI [of _ route]) (auto simp: dispatchWebSocket_def)
qed

definition sample_client :: WebSocketClient where
  "sample_client = \<lparr>wc_socket_fd = 5, wc_host = ''localhost'', wc_port = 8080, wc_connected = True\<rparr>"

definition echo_server :: Server where
  "echo_server = setWsRoute ''/ws'' (\<lambda>ws w. Ret w) host_server"

theorem websocket_handshake_witness:
  "\<exists>key w w1 rs. performRequest sample_memory 4 (handshake_request sample_client ''/ws'' key) echo_server w =
       Ret (echo_server\<lparr>sv_wsRoutes := rs\<rparr>, w1) \<and>
     getWsRouteBySocketId 4 rs \<noteq> None \<and> sent_to 4 w1 = handshake_response key \<and>
     fst (wc_handshake ''0123456789abcdef'' 0 (Received (handshake_response key)) ''/ws'' sample_client)"
proof -
  obtain key where key: "key = generateWebsocketKey ''0123456789abcdef''" by blast
  let ?w = "(assets_world sample_file)\<lparr>w_sends := [Sent (length (handshake_response key))]\<rparr>"
  have "\<exists>w1. sendResponse 4 (handshake_response key) ?w = Ret (True, w1)"
    by (simp add: sendResponse_def sendAll.simps [of 4 "handshake_response key" ?w] sys_send_def)
  then obtain w w1 where w: "w = ?w" and w1: "sendResponse 4 (handshake_response key) w = Ret (True, w1)" by blast
  have c: "wc_connected sample_client" "plain_target (wc_host sample_client)" "plain_target ''/ws''"
    by (simp_all add: sample_client_def plain_target_def)
  have rs: "sv_wsRoutes echo_server = [\<lparr>wr_sockfd = - 1, wr_path = ''/ws'', wr_handler = (\<lambda>ws w. Ret w), wr_query = Map.empty\<rparr>]"
    by (simp add: echo_server_def setWsRoute_def host_server_def Server_new_def)
  have p: "target_path ''/ws'' = ''/ws''"
    by (simp add: target_path_def find_char_def)
  have t: "target_path ''/ws'' \<in> set (map wr_path (sv_wsRoutes echo_server))"
    "\<forall>r \<in> set (takeWhile (\<lambda>r. wr_path r \<noteq> target_path ''/ws'') (sv_wsRoutes echo_server)). wr_sockfd r \<noteq> 4"
    "\<forall>r \<in> set (sv_wsRoutes echo_server). wr_handler r = (\<lambda>ws w. Ret w)"
    by (simp_all add: rs p)
  have len: "length ''0123456789abcdef'' = 16" "0 \<le> (0::int)" by simp_all
  obtain request where request: "request = handshake_request sample_client ''/ws'' key" by blast
  from websocket_handshake [OF c len key request t(1,2) w1, of sample_memory]
  obtain rs route where r: "getWsRouteBySocketId 4 rs = Some route" "wr_handler route = (\<lambda>ws w. Ret w)"
    "performRequest sample_memory 4 request echo_server w =
        and_then (wr_handler route (WebSocket_new 4 request (wr_query route) (un_masking_key sample_memory)) w1)
          (\<lambda>w. Ret (echo_server\<lparr>sv_wsRoutes := rs\<rparr>, w))"
    "sent_to 4 w1 = sent_to 4 w @ handshake_response key"
    "wc_handshake ''0123456789abcdef'' 0 (Received (handshake_response key)) ''/ws'' sample_client = (True, request)"
    using t(3) by (elim exE conjE bexE) metis
  have "sent_to 4 w = []" by (simp add: w sent_to_def assets_world_def)
  with r(1,2,4,5) r(3) show ?thesis
    unfolding request by (intro exI [of _ key] exI [of _ w] exI [of _ w1] exI [of _ rs]) simp
qed

section \<open>A request, end to end\<close>

lemma request_text_message:
  "request_text c ''GET'' path =
     http_message ''GET'' path ''HTTP/1.1'' [''Host: '' @ cl_host c, ''Connection: '' @ connection_value c] []"
  by (simp add: request_text_def http_message_def)

definition readable :: revents where
  "readable = \<lparr>rv_in = True, rv_err = False, rv_hup = False, rv_nval = False\<rparr>"

definition silent :: revents where
  "silent = \<lparr>rv_in = False, rv_err = False, rv_hup = False, rv_nval = False\<rparr>"

lemma readable_event: "no_event silent" "\<not> no_event readable"
  "rv_in readable" "\<not> rv_err readable" "\<not> rv_hup readable" "\<not> rv_nval readable"
  by (simp_all add: silent_def readable_def no_event_def)

text \<open>
  What the server reads from the bytes of \<open>get\<close>: a request with the two headers the client writes.
\<close>

definition get_fields :: "Base_Client \<Rightarrow> string \<Rightarrow> Request" where
  "get_fields c p = parsed_request ''GET'' p ''HTTP/1.1''
     (foldl apply_header Map.empty [''Host: '' @ cl_host c, ''Connection: '' @ connection_value c]) []"

lemma request_text_parsed:
  assumes "plain_target p" "plain_target (cl_host c)"
  shows "Request_new (request_text c ''GET'' p) = get_fields c p"
proof -
  have "plain_line (toString GET @ '' '' @ p @ '' '' @ ''HTTP/1.1'')" "CHR '' '' \<notin> set p"
    "\<forall>l \<in> set [''Host: '' @ cl_host c, ''Connection: '' @ connection_value c]. plain_line l"
    using assms by (auto simp: plain_line_def plain_target_def connection_value_def)
  moreover have "CHR '' '' \<notin> set (toString GET)" by simp
  ultimately show ?thesis
    using Request_new_parsed [of "toString GET" p "''HTTP/1.1''"] by (simp add: request_text_message get_fields_def)
qed

lemma request_text_ordinary:
  assumes "plain_target p" "plain_target (cl_host c)"
  shows "ordinary sv (request_text c ''GET'' p)"
proof -
  have "getWebSocketFrame (request_text c ''GET'' p) = None"
    using text_is_no_frame [of GET] by (simp add: request_text_message)
  moreover have "req_headers (get_fields c p) ''Upgrade'' = None"
    using header_of_line_pair [of "''Host''" "cl_host c"] header_of_line_pair [of "''Connection''" "connection_value c"]
    by (simp add: get_fields_def parsed_request_def apply_header_def)
  ultimately show ?thesis by (simp add: ordinary_def request_text_parsed [OF assms])
qed

text \<open>
  A round of the event loop in which one client's whole request has arrived, at a server with a
  route for it.
\<close>

lemma matched_route_round:
  assumes "match_route (sv_router sv) (Request_new raw) = (Some h, req)" "ordinary sv raw"
    and "r = run_hook (sv_post_routing_handler sv) req (h req (setStaticDirectory (sv_static_directory sv)
           (run_hook (sv_pre_routing_handler sv) (Request_new raw)
             (Response_new (sv_default_headers sv) sd (un_content_type u)))))"
    and "build (file_contents w) False r = (Some wire, r1)"
    and "sd \<in> set (sv_client_list sv)" "distinct (sv_client_list sv)" "sv_sockfd sv \<notin> set (sv_client_list sv)"
    and "\<forall>fd \<in> insert (sv_sockfd sv) (set (sv_client_list sv)) - {sd}. no_event (ev fd)" "ev sd = readable"
    and "rq_pending (w_socks w sd) = raw" "raw \<noteq> []" "length raw \<le> BUFFER_SIZE"
    and "sendResponse sd wire (snd (sys_recv BUFFER_SIZE sd w)) = Ret (True, w1)"
  shows "poll_round u (Ready ev) sv w = Ret (True, sv, w1)"
    and "sent_to sd w1 = sent_to sd w @ wire" "w_open w1 = w_open w"
proof -
  obtain w0 where read: "sys_recv BUFFER_SIZE sd w = (Received raw, w0)"
    using assms(10-12) by (simp add: sys_recv_def Let_def)
  have sends: "sendResponse sd wire w0 = Ret (True, w1)" using assms(13) by (simp add: read)
  have files: "file_contents w0 = file_contents w"
    using sys_frames(2) [OF read] by (simp add: file_contents_def stat_of_def fun_eq_iff)
  have "performRequest u sd raw sv w0 = Ret (sv, w1)"
    using matched_route_performs [OF refl assms(1,2) refl, of u sd w0]
    unfolding files assms(3) [symmetric] assms(4) by (simp only: fst_conv option.case sends and_then.simps prod.case)
  then have "handleClientSocket u sd (ev sd) sv w [] = Ret (sv, w1, [])"
    by (simp add: handleClientSocket_def assms(9) readable_event read)
  moreover have "\<not> no_event (ev sd)" by (simp add: assms(9) readable_event)
  ultimately show "poll_round u (Ready ev) sv w = Ret (True, sv, w1)"
    by (intro poll_round_one [OF assms(5-8)])
  show "sent_to sd w1 = sent_to sd w @ wire" "w_open w1 = w_open w"
    using sendAll_sent [of sd wire w0 True w1] sendAll_frame [of sd wire w0 True w1] sends sys_frames(2) [OF read]
    by (auto simp: sendResponse_def sent_to_def)
qed

text \<open>
  C7. Client and server, end to end: when the bytes \<open>get\<close> of the plain-text client sends (at most
  1024 of them) have arrived at a client's socket, one round of the server's event loop reads them, runs the pre-routing
  hook, the route's handler and the post-routing hook on the parsed request, sends what the response
  they leave builds, and leaves every descriptor as it was, on any server with a route for that
  request; when those bytes arrive back, in full blocks and a shorter last one with interrupted
  calls in between, \<open>get\<close> returns that response's content, its headers and its status, or 500 for a
  status without a status line of its own, and leaves no socket behind. The response is one the
  response operations make, with non-empty content that is sent as it stands (it names no HTML file), header
  lines that survive trimming, not chunked and without the marker \<open>HTTP/1.1\<close> and a blank in what is sent.
  Host and path hold no blank and no line end, the socket is the only one with an event in that round
  and stands once in the client list, the client's connection is made, and the sends of both sides
  complete.
\<close>

theorem get_end_to_end:
  assumes "plain_target p" "plain_target (cl_host c)"
    and "match_route (sv_router sv) (get_fields c p) = (Some h, req)"
    and "r = run_hook (sv_post_routing_handler sv) req (h req (setStaticDirectory (sv_static_directory sv)
           (run_hook (sv_pre_routing_handler sv) (get_fields c p)
             (Response_new (sv_default_headers sv) sd (un_content_type u)))))"
    and "build (file_contents w) False r = (Some wire, r1)"
    and "sd \<in> set (sv_client_list sv)" "distinct (sv_client_list sv)" "sv_sockfd sv \<notin> set (sv_client_list sv)"
    and "\<forall>fd \<in> insert (sv_sockfd sv) (set (sv_client_list sv)) - {sd}. no_event (ev fd)" "ev sd = readable"
    and "rq_pending (w_socks w sd) = request_text c ''GET'' p" "length (request_text c ''GET'' p) \<le> BUFFER_SIZE"
    and "sendResponse sd wire (snd (sys_recv BUFFER_SIZE sd w)) = Ret (True, w1)"
    and "response_value r" "load_content (file_contents w) r = r"
    and "\<forall>h \<in> set (res_headers r1). plain_header h" "map_of (res_headers r1) ''Transfer-Encoding'' \<noteq> Some ''chunked''"
    and "find_str ''HTTP/1.1 '' wire 0 = None"
    and "0 \<le> ex_socket ex" "ex_host_found ex" "ex_options_set ex" "ex_connected ex" "ex_socket ex \<notin> w_open cw"
    and "int (length (request_text c ''GET'' p)) \<le> ex_sent ex"
    and "filter (\<lambda>r. r \<noteq> Recv_failed EINTR) (ex_recv ex) = map Received blocks @ [Received s]"
    and "\<forall>b \<in> set blocks. length b = READ_BUFFER_SIZE" "length s < READ_BUFFER_SIZE" "wire = concat blocks @ s"
  shows "poll_round u (Ready ev) sv w = Ret (True, sv, w1) \<and>
    sent_to sd w1 = sent_to sd w @ wire \<and> w_open w1 = w_open w \<and>
    (\<exists>r' cw'. client_get (http_sendRequest c ex) g fd p cw = Ret (Expected r', cw') \<and>
       res_content r' = res_content r \<and> res_status r' = wire_status (res_status r) \<and>
       (\<forall>k v. map_of (res_headers r1) k = Some v \<longrightarrow> map_of (res_headers r') k = Some v) \<and>
       w_open cw' = w_open cw \<and>
       sent_to (ex_socket ex) cw' = sent_to (ex_socket ex) cw @ request_text c ''GET'' p)"
proof (intro conjI)
  note parsed = request_text_parsed [OF assms(1,2)]
  have m: "match_route (sv_router sv) (Request_new (request_text c ''GET'' p)) = (Some h, req)"
    by (simp add: parsed assms(3))
  have "request_text c ''GET'' p \<noteq> []" by (simp add: request_text_def)
  note round = matched_route_round [OF m request_text_ordinary [OF assms(1,2)] assms(4) [folded parsed] assms(5-11) this assms(12,13)]
  show "poll_round u (Ready ev) sv w = Ret (True, sv, w1)" by (rule round(1))
  show "sent_to sd w1 = sent_to sd w @ wire" by (rule round(2))
  show "w_open w1 = w_open w" by (rule round(3))
  have "res_content r \<noteq> []" using assms(5) build_empty by fastforce
  moreover have "map_ok (res_headers r)" using response_value_wf [OF assms(14)] by (simp add: response_wf_def)
  ultimately show "\<exists>r' cw'. client_get (http_sendRequest c ex) g fd p cw = Ret (Expected r', cw') \<and>
       res_content r' = res_content r \<and> res_status r' = wire_status (res_status r) \<and>
       (\<forall>k v. map_of (res_headers r1) k = Some v \<longrightarrow> map_of (res_headers r') k = Some v) \<and>
       w_open cw' = w_open cw \<and>
       sent_to (ex_socket ex) cw' = sent_to (ex_socket ex) cw @ request_text c ''GET'' p"
    by (rule client_get_exchange [OF _ assms(15) _ assms(5,16-28)])
qed

definition plain_client :: Base_Client where
  "plain_client = \<lparr>cl_host = ''h'', cl_port = 80, cl_keep_alive = True\<rparr>"

lemma hello_response:
  fixes r r0 :: Response
  assumes "r = setContent PLAIN_TEXT S_created ''hello'' (setStaticDirectory (sv_static_directory host_server) r0)"
    and "r0 = Response_new (sv_default_headers host_server) fd g \<or>
      r0 = Response_new_ssl (sv_default_headers host_server) s g fd"
  shows "response_value r" "load_content fs r = r" "res_content r = ''hello''" "res_status r = S_created"
    and "\<exists>r1. build fs False r = (Some created_wire, r1) \<and>
      res_headers r1 = [(''Connection'', ''keep-alive''), (''Content-Length'', ''5''),
        (''Content-Type'', ''text/plain; charset=utf-8'')]"
proof -
  show "response_value r" using assms(2) unfolding assms(1) by (auto intro!: response_value.intros)
  have five: "to_string (Suc (Suc (Suc (Suc (Suc 0))))) = ''5''" by code_simp
  note defs = host_server_def Server_new_def Response_new_def Response_new_ssl_def blank_response_def setContent_def
    setStaticDirectory_def setHeader_def load_content_def
  show "load_content fs r = r" "res_content r = ''hello''" "res_status r = S_created"
    by (simp_all add: assms(1) defs)
  have "res_headers r0 = [(''Connection'', ''keep-alive'')]" using assms(2) by (auto simp: defs)
  moreover obtain msg r1 where b: "build fs False r = (Some msg, r1)"
    by (simp add: build_def assms(1) setContent_def Let_def)
  ultimately show "\<exists>r1. build fs False r = (Some created_wire, r1) \<and>
      res_headers r1 = [(''Connection'', ''keep-alive''), (''Content-Length'', ''5''),
        (''Content-Type'', ''text/plain; charset=utf-8'')]"
    by (auto simp: assms(1) build_def Let_def defs add_type_headers_def add_length_header_def five header_text_def created_wire_def)
qed

definition loop_server :: Server where
  "loop_server = setRoute GET ''/hi'' hello_handler
     ((setWsRoute ''/ws'' (\<lambda>ws w. Ret w) host_server)\<lparr>sv_sockfd := 3, sv_client_list := [4]\<rparr>)"

definition request_world :: world where
  "request_world = (assets_world sample_file)\<lparr>w_sends := [Sent (length created_wire)],
     w_socks := (\<lambda>_. \<lparr>rq_pending = request_text plain_client ''GET'' ''/hi'', rq_end = Recv_error EAGAIN\<rparr>)\<rparr>"

lemma loop_server_fields:
  "sv_pre_routing_handler loop_server = None" "sv_post_routing_handler loop_server = None"
  "sv_default_headers loop_server = sv_default_headers host_server" "sv_static_directory loop_server = sv_static_directory host_server"
  "(4::int) \<in> set (sv_client_list loop_server)" "distinct (sv_client_list loop_server)"
  "sv_sockfd loop_server \<notin> set (sv_client_list loop_server)" "sv_sockfd loop_server = 3" "sv_client_list loop_server = [4]"
  by (simp_all add: loop_server_def setRoute_def setWsRoute_def host_server_def Server_new_def)

lemma loop_server_match:
  "match_route (sv_router loop_server) (get_fields plain_client ''/hi'') = (Some hello_handler, get_fields plain_client ''/hi'')"
proof -
  let ?sv = "(setWsRoute ''/ws'' (\<lambda>ws w. Ret w) host_server)\<lparr>sv_sockfd := 3, sv_client_list := [4]\<rparr>"
  let ?ls = "[''Host: '' @ cl_host plain_client, ''Connection: '' @ connection_value plain_client]"
  have "routes (sv_router ?sv) (pattern ''/hi'', toString GET) = None"
    by (simp add: setWsRoute_def host_server_def Server_new_def)
  moreover have "\<forall>s \<in> set (splitPath ''/hi''). \<not> starts_with s '':''" by (simp add: splitPath_def starts_with_def)
  moreover have "CHR '' '' \<notin> set ''/hi''" "CHR ''?'' \<notin> set ''/hi''"
    "plain_line (toString GET @ '' '' @ ''/hi'' @ '' '' @ ''HTTP/1.1'')" "\<forall>l \<in> set ?ls. plain_line l"
    by (simp_all add: plain_line_def plain_client_def connection_value_def)
  moreover have "get_fields plain_client ''/hi'' = parsed_request (toString GET) ''/hi'' ''HTTP/1.1''
      (foldl apply_header Map.empty ?ls) []"
    by (simp add: get_fields_def)
  ultimately show ?thesis unfolding loop_server_def by (rule registered_route_found(2))
qed

lemma hello_request:
  "plain_target ''/hi''" "plain_target (cl_host plain_client)"
  "rq_pending (w_socks request_world 4) = request_text plain_client ''GET'' ''/hi''"
  "length (request_text plain_client ''GET'' ''/hi'') \<le> BUFFER_SIZE"
  "int (length (request_text plain_client ''GET'' ''/hi'')) \<le> ex_sent good_exchange"
  by (simp_all add: plain_target_def plain_client_def request_world_def request_text_def connection_value_def
      BUFFER_SIZE_def good_exchange_def)

theorem get_end_to_end_witness:
  "\<exists>w1 r' cw'. poll_round sample_memory (Ready ((\<lambda>_. silent)(4 := readable))) loop_server request_world =
       Ret (True, loop_server, w1) \<and>
     sent_to 4 w1 = created_wire \<and>
     client_get (http_sendRequest plain_client good_exchange) None 0 ''/hi'' quiet_world = Ret (Expected r', cw') \<and>
     res_content r' = ''hello'' \<and> res_status r' = S_created \<and> w_open cw' = {}"
proof -
  let ?w = request_world and ?ev = "(\<lambda>_. silent)(4 := readable)"
  obtain r where r: "r = setContent PLAIN_TEXT S_created ''hello'' (setStaticDirectory (sv_static_directory host_server)
      (Response_new (sv_default_headers host_server) 4 (un_content_type sample_memory)))" by blast
  obtain r1 where b: "build (file_contents ?w) False r = (Some created_wire, r1)"
    "res_headers r1 = [(''Connection'', ''keep-alive''), (''Content-Length'', ''5''),
      (''Content-Type'', ''text/plain; charset=utf-8'')]"
    using hello_response(5) [OF r disjI1 [OF refl]] by blast
  have handled: "r = run_hook (sv_post_routing_handler loop_server) (get_fields plain_client ''/hi'')
      (hello_handler (get_fields plain_client ''/hi'') (setStaticDirectory (sv_static_directory loop_server)
        (run_hook (sv_pre_routing_handler loop_server) (get_fields plain_client ''/hi'')
          (Response_new (sv_default_headers loop_server) 4 (un_content_type sample_memory)))))"
    by (simp add: r hello_handler_def loop_server_fields run_hook_def)
  have events: "\<forall>fd \<in> insert (sv_sockfd loop_server) (set (sv_client_list loop_server)) - {4}. no_event (?ev fd)"
    "?ev 4 = readable"
    by (auto simp: readable_event)
  have hdr: "\<forall>h \<in> set (res_headers r1). plain_header h" "map_of (res_headers r1) ''Transfer-Encoding'' \<noteq> Some ''chunked''"
    by (simp_all add: b(2) plain_header_def trim_id trim_chars_def)
  have "w_sends (snd (sys_recv BUFFER_SIZE 4 ?w)) = [Sent (length created_wire)]"
    using sys_frames(2) [of BUFFER_SIZE 4 ?w] by (metis prod.collapse request_world_def world.select_convs(4) world.update_convs(4,5) world.surjective)
  then obtain w1 where send: "sendResponse 4 created_wire (snd (sys_recv BUFFER_SIZE 4 ?w)) = Ret (True, w1)"
    by (simp add: sendResponse_def sendAll.simps [of 4 created_wire "snd (sys_recv BUFFER_SIZE 4 ?w)"] sys_send_def)
  have exch: "0 \<le> ex_socket good_exchange" "ex_host_found good_exchange" "ex_options_set good_exchange" "ex_connected good_exchange"
    "ex_socket good_exchange \<notin> w_open quiet_world"
    and read: "filter (\<lambda>r. r \<noteq> Recv_failed EINTR) (ex_recv good_exchange) = map Received [] @ [Received created_wire]"
    by (simp_all add: good_exchange_def quiet_world_def)
  have len: "\<forall>b \<in> set ([] :: string list). length b = READ_BUFFER_SIZE" "length created_wire < READ_BUFFER_SIZE"
    "created_wire = concat [] @ created_wire"
    by (simp_all add: created_wire_def line_of_def READ_BUFFER_SIZE_def)
  have "sent_to 4 ?w = []" "w_open quiet_world = {}"
    by (simp_all add: sent_to_def request_world_def assets_world_def quiet_world_def)
  with get_end_to_end [where blocks = "[]" and g = None and fd = 0,
      OF hello_request(1,2) loop_server_match handled b(1) loop_server_fields(5-7)
      events hello_request(3,4) send hello_response(1,2) [OF r disjI1 [OF refl]] hdr
      created_hello_built(6) exch hello_request(5) read len] hello_response(3,4) [OF r disjI1 [OF refl]]
  show ?thesis by (auto simp: wire_status_def line_of_def fun_upd_def)
qed

section \<open>A WebSocket message, end to end\<close>

text \<open>
  C17. What a connected WebSocket client sends, and a handler that begins with \<open>read\<close> gets, once the
  bytes have arrived on a socket that has a WebSocket route: a message of at most 1020 bytes, whose
  frame fits in one read of the server, arrives whole, a text as what \<open>read\<close>
  returns and binary data as the payload of the frame; a longer one is cut after 1024 bytes, and
  \<open>read\<close> reports a failure. Either way the read takes up to 1024 bytes out of the socket, so what the client
  sent behind a short message in the same read is dropped, and the rest of a long one stays for
  the next round to be taken for a request of its own.
\<close>

theorem client_message_arrives:
  assumes "wc_connected c" "length message \<le> max_size"
    and "raw = from_bytes (snd (sendMessage sent message is_binary c)) @ later" "rq_pending (w_socks w sd) = raw"
    and "getWsRouteBySocketId sd (sv_wsRoutes sv) = Some route" "wr_handler route = reading_handler k"
    and "w0 = snd (sys_recv BUFFER_SIZE sd w)"
  shows "\<exists>ws. handleClientSocket u sd readable sv w closed =
      and_then (k (if BUFFER_SIZE < length message + 4 then (Fail, [], ws, False)
                   else if is_binary then (Binary_result, [], ws, False)
                   else (Text_result, message, ws, False)) w0) (\<lambda>w. Ret (sv, w, closed)) \<and>
    (length message + 4 \<le> BUFFER_SIZE \<longrightarrow> f_payload_data (ws_frame ws) = to_bytes message) \<and>
    rq_pending (w_socks w0 sd) = drop BUFFER_SIZE raw"
proof -
  let ?op = "message_opcode is_binary" and ?payload = "to_bytes message"
  let ?e = "ws_encode True ?op None ?payload" and ?f = "new_frame sd (un_masking_key u)"
  define got where "got = take BUFFER_SIZE raw"
  define ws where "ws = WebSocket_new sd got (wr_query route) (un_masking_key u)"
  have raw: "raw = from_bytes ?e @ later" using sent_frames(1) [OF assms(1)] by (simp add: assms(3))
  have "raw \<noteq> []" by (simp add: raw ws_encode_def from_bytes_def)
  then have read: "sys_recv BUFFER_SIZE sd w = (Received got, w0)"
    and rest: "rq_pending (w_socks w0 sd) = drop BUFFER_SIZE raw"
    using assms(4,7) by (auto simp: sys_recv_def Let_def got_def)
  have "getWebSocketFrame got = Some ?op" unfolding got_def raw by (rule message_probed)
  moreover have "?op \<noteq> Close" by (simp add: message_opcode_def)
  ultimately have call: "handleClientSocket u sd readable sv w closed =
      and_then (and_then (of_result (ws_read ws [])) (\<lambda>x. k x w0)) (\<lambda>w. Ret (sv, w, closed))"
    using routed_frame [OF _ _ assms(5), of got ?op u w0]
    by (cases "and_then (of_result (ws_read ws [])) (\<lambda>x. k x w0)")
      (simp_all add: handleClientSocket_def readable_event read assms(6) reading_handler_def ws_def)
  have "ws_byte_data ws = take BUFFER_SIZE (?e @ to_bytes later)" "f_text_payload (ws_frame ws) = []"
    unfolding ws_def WebSocket_new_def new_frame_def got_def raw to_bytes_received by simp_all
  from message_read [OF assms(2) this(2,1)] show ?thesis
    unfolding call rest by (elim exE, intro exI) auto
qed

definition chatty_server :: Server where
  "chatty_server = ws_server (reading_handler (\<lambda>(r, msg, ws, closed) w. Ret (w\<lparr>w_out := [(0, msg)]\<rparr>)))"

definition message_world :: "string \<Rightarrow> world" where
  "message_world message = (assets_world sample_file)\<lparr>w_socks :=
     (\<lambda>_. \<lparr>rq_pending = from_bytes (snd (sendMessage 1 message False sample_client)), rq_end = Recv_error EAGAIN\<rparr>)\<rparr>"

theorem client_message_arrives_witness:
  "\<exists>w w'. handleClientSocket sample_memory 4 readable chatty_server (message_world ''hello'') [] = Ret (chatty_server, w, []) \<and>
     w_out w = [(0, ''hello'')] \<and>
   handleClientSocket sample_memory 4 readable chatty_server (message_world (replicate 2000 CHR ''a'')) [] =
     Ret (chatty_server, w', []) \<and> w_out w' = [(0, [])] \<and> length (rq_pending (w_socks w' 4)) = 980"
proof -
  let ?k = "\<lambda>(r :: Result, msg, ws :: WebSocket, closed :: bool) w. Ret (w\<lparr>w_out := [(0, msg)]\<rparr>)"
  let ?long = "replicate 2000 CHR ''a''"
  have route: "getWsRouteBySocketId 4 (sv_wsRoutes chatty_server) =
      Some \<lparr>wr_sockfd = 4, wr_path = ''/ws'', wr_handler = reading_handler ?k, wr_query = Map.empty\<rparr>"
    by (simp add: chatty_server_def ws_server_def)
  have conn: "wc_connected sample_client" by (simp add: sample_client_def)
  have pending: "rq_pending (w_socks (message_world m) 4) = from_bytes (snd (sendMessage 1 m False sample_client)) @ []" for m
    by (simp add: message_world_def)
  have max: "length ''hello'' \<le> max_size" "length ?long \<le> max_size" by (simp_all add: max_size_def)
  note arrives = client_message_arrives [OF conn _ refl pending route _ refl, of _ ?k sample_memory "[]"]
  have "length (snd (sendMessage 1 ?long False sample_client)) = 2004"
    using sent_frames(1) [OF conn] length_client_message by simp
  with arrives [OF max(1)] arrives [OF max(2)] show ?thesis
    by (simp add: BUFFER_SIZE_def)
qed

section \<open>The example programs together\<close>

definition example_client :: Base_Client where
  "example_client = \<lparr>cl_host = ''0.0.0.0'', cl_port = 8080, cl_keep_alive = True\<rparr>"

definition example_wire :: string where
  "example_wire = line_of ''200 OK'' @ ''Connection: keep-alive'' @ crlf @ ''Content-Length: 15'' @ crlf @
     ''Content-Type: application/json'' @ crlf @ crlf @ value_json ''100''"

lemma example_client_made: "Client_new ''http://0.0.0.0:8080'' = Ret example_client"
proof -
  have "createClient (''http'' @ ''://'' @ ''0.0.0.0'' @ '':'' @ to_string 8080 @ []) = Inr (Expected example_client)"
    unfolding example_client_def using client_url [of "''http''" "''0.0.0.0''" 8080 "[]"] by simp
  moreover have "to_string 8080 = ''8080''" by (simp add: to_string.simps) code_simp
  ultimately show ?thesis by (simp add: Client_new_def)
qed

lemma example_request_fields:
  "plain_target ''/api/v1/users/100''" "plain_target (cl_host example_client)"
  "length (request_text example_client ''GET'' ''/api/v1/users/100'') \<le> 200"
  "request_text example_client ''GET'' ''/api/v1/users/100'' \<noteq> []"
  by (simp_all add: plain_target_def example_client_def request_text_def connection_value_def)

lemma example_response:
  fixes r :: Response
  assumes "r = rest_users_handler (setParam ''id'' ''100'' q) (setStaticDirectory d (Response_new [] sd g))"
  shows "response_value r" "load_content fs r = r" "res_content r = value_json ''100''" "res_status r = S_ok"
    and "\<exists>r1. build fs False r = (Some example_wire, r1) \<and>
      res_headers r1 = [(''Connection'', ''keep-alive''), (''Content-Length'', ''15''), (''Content-Type'', ''application/json'')]"
proof -
  have r: "r = put_content (value_json ''100'') (put_type JSON (setStaticDirectory d (Response_new [] sd g)))"
    by (simp add: assms rest_users_handler_def setParam_def)
  have "put_type t x = setContentType t x" for t x by (simp add: put_type_def setContentType_def)
  then show "response_value r" unfolding r by (auto intro!: response_value.intros)
  have len: "length (value_json ''100'') = 15" by (simp add: value_json_def)
  have fifteen: "to_string 15 = ''15''" by code_simp
  note defs = Response_new_def blank_response_def put_content_def put_type_def setStaticDirectory_def setHeader_def
    load_content_def
  show "load_content fs r = r" "res_content r = value_json ''100''" "res_status r = S_ok"
    by (simp_all add: r defs)
  have ne: "value_json ''100'' \<noteq> []" by (simp add: value_json_def)
  then obtain msg r1 where "build fs False r = (Some msg, r1)" by (simp add: r build_def defs Let_def)
  then show "\<exists>r1. build fs False r = (Some example_wire, r1) \<and>
      res_headers r1 = [(''Connection'', ''keep-alive''), (''Content-Length'', ''15''), (''Content-Type'', ''application/json'')]"
    by (auto simp: r build_def Let_def defs add_type_headers_def add_length_header_def len fifteen ne header_text_def
        example_wire_def)
qed

lemma example_wire_shape:
  "find_str ''HTTP/1.1 '' example_wire 0 = None" "length example_wire < READ_BUFFER_SIZE" "example_wire \<noteq> []"
  by (simp_all add: example_wire_def line_of_def value_json_def find_str_def READ_BUFFER_SIZE_def)

text \<open>
  C9. The example client and the example REST server work together: the request \<open>main\<close> of the client
  writes makes one round of the server's event loop answer with the JSON value of the path's last
  segment, in as many \<open>send\<close> calls as the kernel needs, and when that answer arrives the client logs
  the status 200, the JSON text and its content type.
\<close>

theorem example_programs_agree:
  assumes "sv = rest_main\<lparr>sv_sockfd := lfd, sv_running := True, sv_client_list := fds\<rparr>"
    and "sd \<in> set fds" "distinct fds" "lfd \<notin> set fds"
    and "\<forall>fd \<in> insert lfd (set fds) - {sd}. no_event (ev fd)" "ev sd = readable"
    and "rq_pending (w_socks w sd) = request_text example_client ''GET'' ''/api/v1/users/100''"
    and "w_sends w = map Sent ns" "0 \<notin> set ns" "length example_wire \<le> sum_list ns"
    and "0 \<le> ex_socket ex" "ex_host_found ex" "ex_options_set ex" "ex_connected ex" "ex_socket ex \<notin> w_open cw"
    and "200 \<le> ex_sent ex" "filter (\<lambda>r. r \<noteq> Recv_failed EINTR) (ex_recv ex) = [Received example_wire]"
  shows "\<exists>w1 cw'. poll_round u (Ready ev) sv w = Ret (True, sv, w1) \<and> sent_to sd w1 = sent_to sd w @ example_wire \<and>
    client_main ex g fd cw = Ret ((200, value_json ''100'', ''application/json''), cw') \<and> w_open cw' = w_open cw \<and>
    sent_to (ex_socket ex) cw' = sent_to (ex_socket ex) cw @ request_text example_client ''GET'' ''/api/v1/users/100''"
proof -
  let ?p = "''/api/v1/users/100''" and ?c = example_client
  let ?q = "get_fields ?c ?p"
  obtain r where r: "r = rest_users_handler (setParam ''id'' ''100'' ?q) (setStaticDirectory (sv_static_directory sv)
      (Response_new [] sd (un_content_type u)))" by blast
  note resp = example_response [OF r]
  obtain r1 where b: "build (file_contents w) False r = (Some example_wire, r1)" and hs:
    "res_headers r1 = [(''Connection'', ''keep-alive''), (''Content-Length'', ''15''), (''Content-Type'', ''application/json'')]"
    using resp(5) by blast
  have bare: "ordinary sv (request_text ?c ''GET'' ?p)" "sv_pre_routing_handler sv = None" "sv_post_routing_handler sv = None"
    and fields: "sv_client_list sv = fds" "sv_sockfd sv = lfd" "sv_default_headers sv = []" "sv_router sv = sv_router rest_main"
    using request_text_ordinary [OF example_request_fields(1,2)]
    by (simp_all add: assms(1) rest_main_def setRoute_def Server_new_def)
  have "match_route (sv_router rest_main) ?q = (Some rest_users_handler, setParam ''id'' ''100'' ?q)"
    by (rule rest_main_matches) (simp_all add: get_fields_def parsed_request_def)
  then have m: "match_route (sv_router sv) (Request_new (request_text ?c ''GET'' ?p)) =
      (Some rest_users_handler, setParam ''id'' ''100'' ?q)"
    by (simp add: request_text_parsed [OF example_request_fields(1,2)] fields)
  obtain x w0 where read: "sys_recv BUFFER_SIZE sd w = (x, w0)" by force
  then have "w_sends w0 = map Sent ns" using sys_frames(2) assms(8) by metis
  from sendAll_completes [OF this assms(9,10) example_wire_shape(3)]
  obtain w1 where send: "sendResponse sd example_wire (snd (sys_recv BUFFER_SIZE sd w)) = Ret (True, w1)"
    by (auto simp: sendResponse_def read)
  have small: "length (request_text ?c ''GET'' ?p) \<le> BUFFER_SIZE" "int (length (request_text ?c ''GET'' ?p)) \<le> ex_sent ex"
    using example_request_fields(3) assms(16) by (simp_all add: BUFFER_SIZE_def)
  have answer: "r = run_hook (sv_post_routing_handler sv) (setParam ''id'' ''100'' ?q)
      (rest_users_handler (setParam ''id'' ''100'' ?q) (setStaticDirectory (sv_static_directory sv)
        (run_hook (sv_pre_routing_handler sv) (Request_new (request_text ?c ''GET'' ?p))
          (Response_new (sv_default_headers sv) sd (un_content_type u)))))"
    by (simp add: r fields bare run_hook_def)
  have loop: "sd \<in> set (sv_client_list sv)" "distinct (sv_client_list sv)" "sv_sockfd sv \<notin> set (sv_client_list sv)"
    "\<forall>fd \<in> insert (sv_sockfd sv) (set (sv_client_list sv)) - {sd}. no_event (ev fd)"
    using assms(2-5) by (simp_all add: fields)
  note round = matched_route_round(1,2) [where h = rest_users_handler,
    OF m bare(1) answer b loop assms(6,7) example_request_fields(4) small(1) send]
  have ok: "res_content r \<noteq> []" "map_ok (res_headers r)"
    using resp(3) response_value_wf [OF resp(1)] by (simp_all add: value_json_def response_wf_def)
  have hdr: "\<forall>h \<in> set (res_headers r1). plain_header h" "map_of (res_headers r1) ''Transfer-Encoding'' \<noteq> Some ''chunked''"
    "map_of (res_headers r1) ''Content-Type'' = Some ''application/json''"
    by (simp_all add: hs plain_header_def trim_id trim_chars_def)
  have rest: "filter (\<lambda>r. r \<noteq> Recv_failed EINTR) (ex_recv ex) = map Received [] @ [Received example_wire]"
    "\<forall>b \<in> set ([] :: string list). length b = READ_BUFFER_SIZE" "example_wire = concat [] @ example_wire"
    using assms(17) by simp_all
  from client_get_exchange [OF ok(1) resp(2) ok(2) b hdr(1,2) example_wire_shape(1) assms(11-15) small(2)
      rest(1,2) example_wire_shape(2) rest(3), of g fd]
  obtain r' cw' where get: "client_get (http_sendRequest ?c ex) g fd ?p cw = Ret (Expected r', cw')"
    "res_content r' = value_json ''100''" "res_status r' = wire_status S_ok"
    "map_of (res_headers r') ''Content-Type'' = Some ''application/json''" "w_open cw' = w_open cw"
    "sent_to (ex_socket ex) cw' = sent_to (ex_socket ex) cw @ request_text ?c ''GET'' ?p"
    using hdr(3) resp(3,4) by auto
  have "status_code (wire_status S_ok) = 200" by (simp add: wire_status_def line_of_def)
  with get have "client_main ex g fd cw = Ret ((200, value_json ''100'', ''application/json''), cw')"
    by (simp add: client_main_def example_client_made)
  with get(5,6) round show ?thesis by blast
qed

definition example_world :: world where
  "example_world = request_world\<lparr>w_sends := [Sent 100, Sent 4000],
     w_socks := (\<lambda>_. \<lparr>rq_pending = request_text example_client ''GET'' ''/api/v1/users/100'', rq_end = Recv_error EAGAIN\<rparr>)\<rparr>"

definition example_exchange :: exchange where
  "example_exchange = good_exchange\<lparr>ex_recv := [Received example_wire]\<rparr>"

theorem example_programs_agree_witness:
  "\<exists>w1 cw'. poll_round sample_memory (Ready ((\<lambda>_. silent)(4 := readable)))
       (rest_main\<lparr>sv_sockfd := 3, sv_running := True, sv_client_list := [4]\<rparr>) example_world =
       Ret (True, rest_main\<lparr>sv_sockfd := 3, sv_running := True, sv_client_list := [4]\<rparr>, w1) \<and>
     client_main example_exchange None 0 quiet_world = Ret ((200, value_json ''100'', ''application/json''), cw')"
proof -
  have "\<forall>fd \<in> insert (3 :: int) (set [4]) - {4}. no_event (((\<lambda>_. silent)(4 := readable)) fd)" "((\<lambda>_. silent)(4 := readable)) 4 = readable"
    by (auto simp: readable_event)
  moreover have "rq_pending (w_socks example_world 4) = request_text example_client ''GET'' ''/api/v1/users/100''"
    "w_sends example_world = map Sent [100, 4000]" "0 \<notin> set [100, 4000 :: nat]" "length example_wire \<le> sum_list [100, 4000]"
    using example_wire_shape(2) by (simp_all add: example_world_def READ_BUFFER_SIZE_def)
  moreover have "0 \<le> ex_socket example_exchange" "ex_host_found example_exchange" "ex_options_set example_exchange"
    "ex_connected example_exchange" "ex_socket example_exchange \<notin> w_open quiet_world" "200 \<le> ex_sent example_exchange"
    "filter (\<lambda>r. r \<noteq> Recv_failed EINTR) (ex_recv example_exchange) = [Received example_wire]"
    by (simp_all add: example_exchange_def good_exchange_def quiet_world_def)
  ultimately show ?thesis
    using example_programs_agree [OF refl, of 4 "[4]" 3 "(\<lambda>_. silent)(4 := readable)" example_world "[100, 4000]"
        example_exchange quiet_world sample_memory None 0]
    by (auto simp: readable_event)
qed

section \<open>The same over TLS\<close>

lemma ssl_matched_route_performs:
  assumes "match_route (sv_router (ss_server ss)) (Request_new raw) = (Some h, req)" "ordinary (ss_server ss) raw"
    and "ss_clients ss sd = Some c"
    and "r = run_hook (sv_post_routing_handler (ss_server ss)) req (h req (setStaticDirectory (sv_static_directory (ss_server ss))
           (run_hook (sv_pre_routing_handler (ss_server ss)) (Request_new raw)
             (Response_new_ssl (sv_default_headers (ss_server ss)) (cc_ssl c) (un_content_type u) (un_sockfd u)))))"
    and "build (file_contents w) False r = (Some wire, r1)"
  shows "ssl_performRequest u sd raw (ss, w) = and_then (ssl_sendResponse sd wire (ss, w)) (\<lambda>(_, st). Ret st)"
  using assms(1,4,5)
  by (simp add: ssl_ordinary_performs [OF assms(2,3)] ssl_answer_def handleRoute_def Let_def cong: option.case_cong)

lemma ssl_sendResponse_one_write:
  assumes "ss_clients ss sd = Some c" "cc_ssl c = Some s" "s \<in> t_live (w_tls w)"
    and "t_writes (w_tls w) = (n, e) # ws" "length body \<le> n" "body \<noteq> []"
  shows "ssl_sendResponse sd body (ss, w) = Ret (True, ss, w\<lparr>w_tls := (w_tls w)\<lparr>t_used := insert s (t_used (w_tls w)),
    t_out := t_out (w_tls w) @ [(s, body)], t_writes := ws\<rparr>\<rparr>)"
  using assms
  by (simp add: ssl_sendResponse_def client_at_present ssl_sendAll.simps [of c body w] SSLWrite_def ssl_write_def
      deref_def Let_def)

lemma filter_one: "distinct xs \<Longrightarrow> x \<in> set xs \<Longrightarrow> P x \<Longrightarrow> (\<And>y. y \<in> set xs \<Longrightarrow> y \<noteq> x \<Longrightarrow> \<not> P y) \<Longrightarrow> filter P xs = [x]"
proof (induction xs)
  case (Cons y xs)
  then show ?case by (cases "y = x") (auto simp: filter_empty_conv)
qed simp

text \<open>
  One round of the TLS server's event loop for a connection that has just been accepted: its
  handshake succeeds, its request is there, and the call answers it.
\<close>

lemma ssl_round_answers:
  assumes "enumerates order ss" "sv_sockfd (ss_server ss) \<notin> dom (ss_clients ss)"
    and "\<forall>fd. rv_in (ev fd) \<longleftrightarrow> fd = sd"
    and "ss_clients ss sd = Some \<lparr>cc_fd = sd, cc_ssl = Some s, cc_handshake_completed = False\<rparr>"
    and "s \<in> t_live (w_tls w)" "t_handshakes (w_tls w) = None # hs" "t_reads (w_tls w) = Read raw # rs"
    and "raw \<noteq> []" "length raw < READ_BUFFER_SIZE"
    and "ss1 = ss\<lparr>ss_clients := (ss_clients ss)(sd \<mapsto> \<lparr>cc_fd = sd, cc_ssl = Some s, cc_handshake_completed = True\<rparr>)\<rparr>"
    and "w0 = w\<lparr>w_tls := (w_tls w)\<lparr>t_established := insert s (t_established (w_tls w)), t_handshakes := hs,
           t_used := insert s (t_used (w_tls w)), t_reads := rs\<rparr>\<rparr>"
    and "ssl_performRequest u sd raw (ss1, w0) = Ret (ss1, w1)"
  shows "ssl_poll_round u order (Ready ev) ss w = Ret (ss1, w1)"
proof -
  have sd: "sd \<noteq> sv_sockfd (ss_server ss)" using assms(2,4) by auto
  have "filter (\<lambda>fd. rv_in (ev fd)) order = [sd]"
    using assms(1,3,4) by (intro filter_one) (auto simp: enumerates_def)
  then have "filter (\<lambda>fd. rv_in (ev fd)) (sv_sockfd (ss_server ss) # order) = [sd]"
    using sd assms(3) by simp
  moreover have "length raw \<le> READ_BUFFER_SIZE - Suc 0" using assms(9) by linarith
  then have "ssl_handleClientSocket u sd ss w [] = Ret (ss1, w1, [])"
    using assms(4-12)
    by (simp add: ssl_handleClientSocket_def ssl_data_phase_def ssl_handshake_def deref_def Let_def client_at_def
        SSLRead_def ssl_read_def)
  ultimately show ?thesis using sd by (simp add: ssl_poll_round_def)
qed

text \<open>
  C8. Client and server over TLS, end to end: one round of the TLS server's event loop completes the
  handshake of a connection that has been accepted, reads from it the bytes \<open>get\<close> of the TLS client
  writes (fewer than 4096, arriving in one read), runs the pre-routing hook, the handler of the route
  and the post-routing hook on the parsed request and writes what the response they leave builds to that connection's TLS
  object, on any server with a route for that request; when those bytes arrive back, in full blocks
  and a shorter last one, \<open>get\<close> returns that response's content, its headers and its status, or 500 for a status without
  a status line of its own, the client's socket is closed and its TLS object freed. The client has
  its TLS context or can make one; the response is one the response operations make, with non-empty content
  that is sent as it stands (it names no HTML file), header lines that survive trimming, not chunked
  and without the marker \<open>HTTP/1.1\<close> and a blank in what is sent.
  Host and path hold no blank and no line end, the connection is the only descriptor with an event in
  that round, the client's connection is made, the handshakes succeed and both sides' writes take
  everything at once.
\<close>

theorem https_get_end_to_end:
  assumes "plain_target p" "plain_target (cl_host (hc_base c))"
    and "match_route (sv_router (ss_server ss)) (get_fields (hc_base c) p) = (Some h, req)"
    and "r = run_hook (sv_post_routing_handler (ss_server ss)) req (h req (setStaticDirectory (sv_static_directory (ss_server ss))
           (run_hook (sv_pre_routing_handler (ss_server ss)) (get_fields (hc_base c) p)
             (Response_new_ssl (sv_default_headers (ss_server ss)) (Some s) (un_content_type u) (un_sockfd u)))))"
    and "build (file_contents w) False r = (Some wire, r1)"
    and "enumerates order ss" "sv_sockfd (ss_server ss) \<notin> dom (ss_clients ss)" "\<forall>fd. rv_in (ev fd) \<longleftrightarrow> fd = sd"
    and "ss_clients ss sd = Some \<lparr>cc_fd = sd, cc_ssl = Some s, cc_handshake_completed = False\<rparr>"
    and "s \<in> t_live (w_tls w)" "t_handshakes (w_tls w) = None # hs"
    and "t_reads (w_tls w) = Read (request_text (hc_base c) ''GET'' p) # rs"
    and "length (request_text (hc_base c) ''GET'' p) < READ_BUFFER_SIZE"
    and "t_writes (w_tls w) = (n, e) # ws" "length wire \<le> n"
    and "response_value r" "load_content (file_contents w) r = r"
    and "\<forall>h \<in> set (res_headers r1). plain_header h" "map_of (res_headers r1) ''Transfer-Encoding'' \<noteq> Some ''chunked''"
    and "find_str ''HTTP/1.1 '' wire 0 = None"
    and "0 \<le> ex_socket ex" "ex_host_found ex" "ex_options_set ex" "ex_connected ex"
    and "hc_ssl_ctx c \<noteq> None \<or> fst (https_initializeSSL (fst ctx) (snd ctx) c)"
    and "tls_ok (w_tls cw)" "ex_socket ex \<notin> w_open cw"
    and "t_new (w_tls cw) = [True]" "t_handshakes (w_tls cw) = [None]" "t_writes (w_tls cw) = [(m, e')]"
    and "length (request_text (hc_base c) ''GET'' p) \<le> m"
    and "t_reads (w_tls cw) = map Read ds @ [Read d]" "\<forall>x \<in> set ds. length x = READ_BUFFER_SIZE"
    and "d \<noteq> []" "length d < READ_BUFFER_SIZE" "wire = concat ds @ d"
  shows "(\<exists>ss1 w1. ssl_poll_round u order (Ready ev) ss w = Ret (ss1, w1) \<and> ss_server ss1 = ss_server ss \<and>
      ss_clients ss1 = (ss_clients ss)(sd \<mapsto> \<lparr>cc_fd = sd, cc_ssl = Some s, cc_handshake_completed = True\<rparr>) \<and>
      ssl_sent s (w_tls w1) = ssl_sent s (w_tls w) @ wire \<and> w_open w1 = w_open w) \<and>
    (\<exists>r' c' cw'. client_get (https_sendRequest ex ctx) g fd p (c, cw) = Ret (Expected r', c', cw') \<and>
      res_content r' = res_content r \<and> res_status r' = wire_status (res_status r) \<and>
      (\<forall>k v. map_of (res_headers r1) k = Some v \<longrightarrow> map_of (res_headers r') k = Some v) \<and>
      hc_ssl c' = None \<and> w_open cw' = w_open cw \<and> t_live (w_tls cw') = t_live (w_tls cw) \<and>
      ssl_sent (t_next (w_tls cw)) (w_tls cw') =
        ssl_sent (t_next (w_tls cw)) (w_tls cw) @ request_text (hc_base c) ''GET'' p)"
proof (rule conjI)
  let ?c = "\<lparr>cc_fd = sd, cc_ssl = Some s, cc_handshake_completed = True\<rparr>"
  let ?ss = "ss\<lparr>ss_clients := (ss_clients ss)(sd \<mapsto> ?c)\<rparr>"
  let ?w = "w\<lparr>w_tls := (w_tls w)\<lparr>t_established := insert s (t_established (w_tls w)), t_handshakes := hs,
    t_used := insert s (t_used (w_tls w)), t_reads := rs\<rparr>\<rparr>"
  let ?w1 = "?w\<lparr>w_tls := (w_tls ?w)\<lparr>t_used := insert s (t_used (w_tls ?w)), t_out := t_out (w_tls ?w) @ [(s, wire)], t_writes := ws\<rparr>\<rparr>"
  note parsed = request_text_parsed [OF assms(1,2)]
  have present: "ss_clients ?ss sd = Some ?c"
    and matched: "match_route (sv_router (ss_server ?ss)) (Request_new (request_text (hc_base c) ''GET'' p)) = (Some h, req)"
    and answer: "r = run_hook (sv_post_routing_handler (ss_server ?ss)) req (h req (setStaticDirectory
      (sv_static_directory (ss_server ?ss)) (run_hook (sv_pre_routing_handler (ss_server ?ss))
        (Request_new (request_text (hc_base c) ''GET'' p))
        (Response_new_ssl (sv_default_headers (ss_server ?ss)) (cc_ssl ?c) (un_content_type u) (un_sockfd u)))))"
    and built: "build (file_contents ?w) False r = (Some wire, r1)"
    using assms(3-5) by (simp_all add: parsed file_contents_def [abs_def] stat_of_def)
  have "wire \<noteq> []" using assms(34,36) by simp
  then have "ssl_sendResponse sd wire (?ss, ?w) = Ret (True, ?ss, ?w1)"
    using assms(10,14,15) by (intro ssl_sendResponse_one_write [OF present]) simp_all
  then have "ssl_performRequest u sd (request_text (hc_base c) ''GET'' p) (?ss, ?w) = Ret (?ss, ?w1)"
    using ssl_matched_route_performs [OF matched request_text_ordinary [OF assms(1,2)] present answer built] by simp
  then have "ssl_poll_round u order (Ready ev) ss w = Ret (?ss, ?w1)"
    using assms(6-13) by (intro ssl_round_answers [OF _ _ _ _ _ _ _ _ _ refl refl]) (auto simp: request_text_def)
  then show "\<exists>ss1 w1. ssl_poll_round u order (Ready ev) ss w = Ret (ss1, w1) \<and> ss_server ss1 = ss_server ss \<and>
      ss_clients ss1 = (ss_clients ss)(sd \<mapsto> ?c) \<and>
      ssl_sent s (w_tls w1) = ssl_sent s (w_tls w) @ wire \<and> w_open w1 = w_open w"
    by (intro exI [of _ ?ss] exI [of _ ?w1]) (simp add: ssl_sent_def)
next
  obtain c' cw' where https: "https_sendRequest ex ctx ''GET'' p (c, cw) = Ret (Expected wire, c', cw')"
    "hc_ssl c' = None" "w_open cw' = w_open cw" "t_live (w_tls cw') = t_live (w_tls cw)"
    "ssl_sent (t_next (w_tls cw)) (w_tls cw') = ssl_sent (t_next (w_tls cw)) (w_tls cw) @ request_text (hc_base c) ''GET'' p"
    using https_request_clean [OF assms(21-35)] assms(36) by blast
  have "res_content r \<noteq> []" using assms(5) build_empty by fastforce
  moreover have "map_ok (res_headers r)" using response_value_wf [OF assms(16)] by (simp add: response_wf_def)
  ultimately obtain r' where r': "parseResponse g fd wire = Ret (Expected r')" "res_content r' = res_content r"
    "res_status r' = wire_status (res_status r)"
    "\<forall>k v. map_of (res_headers r1) k = Some v \<longrightarrow> map_of (res_headers r') k = Some v"
    using parse_built_response [OF _ assms(17) _ assms(5,18-20), of g fd] by fastforce
  then have "client_get (https_sendRequest ex ctx) g fd p (c, cw) = Ret (Expected r', c', cw')"
    using https(1) by (simp add: client_get_def request_and_parse_def)
  with https(2-5) r' show "\<exists>r' c' cw'. client_get (https_sendRequest ex ctx) g fd p (c, cw) = Ret (Expected r', c', cw') \<and>
      res_content r' = res_content r \<and> res_status r' = wire_status (res_status r) \<and>
      (\<forall>k v. map_of (res_headers r1) k = Some v \<longrightarrow> map_of (res_headers r') k = Some v) \<and>
      hc_ssl c' = None \<and> w_open cw' = w_open cw \<and> t_live (w_tls cw') = t_live (w_tls cw) \<and>
      ssl_sent (t_next (w_tls cw)) (w_tls cw') =
        ssl_sent (t_next (w_tls cw)) (w_tls cw) @ request_text (hc_base c) ''GET'' p"
    by blast
qed

definition https_client :: Https_Client where
  "https_client = (HttpsClient_new ''h'' 443)\<lparr>hc_base := plain_client\<rparr>"

definition https_reply_world :: world where
  "https_reply_world = (https_world None)\<lparr>w_tls := (w_tls (https_world None))\<lparr>t_reads := [Read created_wire]\<rparr>\<rparr>"

definition tls_loop_server :: SSLServer where
  "tls_loop_server = (ssl_accepted [] False)\<lparr>ss_server := loop_server\<rparr>"

definition tls_request_world :: world where
  "tls_request_world = (assets_world sample_file)\<lparr>w_tls := (ssl_used False)\<lparr>t_handshakes := [None],
     t_reads := [Read (request_text plain_client ''GET'' ''/hi'')], t_writes := [(4000, EAGAIN)]\<rparr>\<rparr>"

lemma tls_loop_fields:
  "ss_server tls_loop_server = loop_server" "enumerates [4] tls_loop_server"
  "sv_sockfd (ss_server tls_loop_server) \<notin> dom (ss_clients tls_loop_server)"
  "\<forall>fd. rv_in (((\<lambda>_. silent)(4 := readable)) fd) \<longleftrightarrow> fd = 4"
  "ss_clients tls_loop_server 4 = Some \<lparr>cc_fd = 4, cc_ssl = Some 0, cc_handshake_completed = False\<rparr>"
  "0 \<in> t_live (w_tls tls_request_world)" "t_handshakes (w_tls tls_request_world) = None # []"
  "t_reads (w_tls tls_request_world) = Read (request_text plain_client ''GET'' ''/hi'') # []"
  "t_writes (w_tls tls_request_world) = (4000, EAGAIN) # []"
  by (simp_all add: tls_loop_server_def enumerates_def ssl_accepted_def loop_server_fields silent_def readable_def
      tls_request_world_def ssl_used_def)

lemma https_client_fields:
  "hc_base https_client = plain_client" "0 \<le> ex_socket all_well" "ex_host_found all_well" "ex_options_set all_well"
  "ex_connected all_well" "hc_ssl_ctx https_client \<noteq> None \<or> fst (https_initializeSSL (fst (True, True)) (snd (True, True)) https_client)"
  "tls_ok (w_tls https_reply_world)"
  "ex_socket all_well \<notin> w_open https_reply_world" "t_new (w_tls https_reply_world) = [True]"
  "t_handshakes (w_tls https_reply_world) = [None]" "t_writes (w_tls https_reply_world) = [(4000, EAGAIN)]"
  "t_reads (w_tls https_reply_world) = map Read [] @ [Read created_wire]" "t_live (w_tls https_reply_world) = {}"
  by (simp_all add: https_client_def all_well_def HttpsClient_new_def https_initializeSSL_def https_reply_world_def https_world_def
      tls_start_def tls_ok_def)

lemma created_wire_length: "length created_wire < READ_BUFFER_SIZE" "length created_wire \<le> 4000" "created_wire \<noteq> []"
  "length (request_text plain_client ''GET'' ''/hi'') < READ_BUFFER_SIZE"
  "length (request_text plain_client ''GET'' ''/hi'') \<le> 4000"
  by (simp_all add: created_wire_def line_of_def READ_BUFFER_SIZE_def request_text_def plain_client_def connection_value_def)

theorem https_get_end_to_end_witness:
  "(\<exists>ss1 w1. ssl_poll_round sample_memory [4] (Ready ((\<lambda>_. silent)(4 := readable))) tls_loop_server tls_request_world =
       Ret (ss1, w1) \<and> ssl_sent 0 (w_tls w1) = created_wire) \<and>
   (\<exists>r' c' cw'. client_get (https_sendRequest all_well (True, True)) None 0 ''/hi'' (https_client, https_reply_world) =
       Ret (Expected r', c', cw') \<and> res_content r' = ''hello'' \<and> res_status r' = S_created \<and> t_live (w_tls cw') = {})"
proof -
  let ?w = tls_request_world and ?c = "hc_base https_client"
  obtain r where r: "r = setContent PLAIN_TEXT S_created ''hello'' (setStaticDirectory (sv_static_directory host_server)
      (Response_new_ssl (sv_default_headers host_server) (Some 0) (un_content_type sample_memory) (un_sockfd sample_memory)))"
    by blast
  note hello = hello_response [OF r disjI2 [OF refl]]
  obtain r1 where b: "build (file_contents ?w) False r = (Some created_wire, r1)"
    "res_headers r1 = [(''Connection'', ''keep-alive''), (''Content-Length'', ''5''),
      (''Content-Type'', ''text/plain; charset=utf-8'')]"
    using hello(5) by blast
  have handled: "r = run_hook (sv_post_routing_handler (ss_server tls_loop_server)) (get_fields ?c ''/hi'')
      (hello_handler (get_fields ?c ''/hi'') (setStaticDirectory (sv_static_directory (ss_server tls_loop_server))
        (run_hook (sv_pre_routing_handler (ss_server tls_loop_server)) (get_fields ?c ''/hi'')
          (Response_new_ssl (sv_default_headers (ss_server tls_loop_server)) (Some 0) (un_content_type sample_memory)
            (un_sockfd sample_memory)))))"
    by (simp add: r hello_handler_def loop_server_fields tls_loop_fields(1) run_hook_def)
  have hdr: "\<forall>h \<in> set (res_headers r1). plain_header h" "map_of (res_headers r1) ''Transfer-Encoding'' \<noteq> Some ''chunked''"
    by (simp_all add: b(2) plain_header_def trim_id trim_chars_def)
  have len: "\<forall>x \<in> set ([] :: string list). length x = READ_BUFFER_SIZE" "created_wire = concat [] @ created_wire" by simp_all
  have "ssl_sent 0 (w_tls ?w) = []" by (simp add: ssl_sent_def tls_request_world_def ssl_used_def)
  with https_get_end_to_end [where g = None and fd = 0 and ctx = "(True, True)", OF
      hello_request(1) hello_request(2) [folded https_client_fields(1)]
      loop_server_match [folded https_client_fields(1) tls_loop_fields(1)]
      handled b(1) tls_loop_fields(2-7) tls_loop_fields(8) [folded https_client_fields(1)]
      created_wire_length(4) [folded https_client_fields(1)] tls_loop_fields(9) created_wire_length(2) hello(1,2) hdr
      created_hello_built(6) https_client_fields(2-11) created_wire_length(5) [folded https_client_fields(1)]
      https_client_fields(12) len(1) created_wire_length(3,1) len(2)]
    hello(3,4) https_client_fields(13)
  show ?thesis by (auto simp: wire_status_def line_of_def fun_upd_def)
qed

end
